(* ===== verification/Prelude.thy ===== *)
theory Prelude
  imports Main "HOL-Library.Char_ord"
begin

section \<open>Prelude: what the components share\<close>

text \<open>
  The pieces of Go's language and standard library that several components use, and the
  generic lemmas on them:
  \<^item> instants and durations of \<open>time\<close>: an instant is a number of nanoseconds since the zero
    \<open>time.Time\<close> (the first day of year 1, UTC), so that \<open>t.IsZero()\<close> is \<open>t = 0\<close>; a duration is
    a number of nanoseconds. \<open>Sub\<close> saturates at the 64-bit bounds of \<open>time.Duration\<close>;
  \<^item> strings are lists of bytes: \<open>strings.Split\<close> and \<open>strings.Join\<close> on one separator byte,
    \<open>strings.CutPrefix\<close>, \<open>strconv.Itoa\<close>;
  \<^item> closed sets of words (the Go constants that are enumerations): a locale that says what a
    set of words has to keep for reading a word to be the inverse of writing it.
\<close>

named_theorems time_defs \<open>definitions on instants and durations\<close>
named_theorems word_simps \<open>the words of the closed vocabularies\<close>

subsection \<open>Instants and durations\<close>

type_synonym instant = int
type_synonym duration = int

abbreviation (input) zero_time :: instant where
  "zero_time \<equiv> 0"

abbreviation (input) second :: duration where
  "second \<equiv> 1000000000"

abbreviation (input) minute :: duration where
  "minute \<equiv> 60 * second"

abbreviation (input) hour :: duration where
  "hour \<equiv> 60 * minute"

definition max_duration :: duration where
  "max_duration = 2 ^ 63 - 1"

definition min_duration :: duration where
  "min_duration = - (2 ^ 63)"

text \<open>\<open>Time.Sub\<close>: the difference, cut to what a 64-bit duration can hold.\<close>

definition time_sub :: "instant \<Rightarrow> instant \<Rightarrow> duration" where
  "time_sub t u = max min_duration (min max_duration (t - u))"

declare time_sub_def [time_defs] max_duration_def [time_defs] min_duration_def [time_defs]

lemma time_sub_self [simp]: "time_sub t t = 0"
  by (simp add: time_defs)

lemma time_sub_pos_iff: "0 < time_sub t u \<longleftrightarrow> u < t"
  by (auto simp: time_defs)

lemma time_sub_mono: "t \<le> t' \<Longrightarrow> time_sub t u \<le> time_sub t' u"
  by (auto simp: time_defs)

subsection \<open>Splitting and joining on one byte\<close>

fun split_on :: "char \<Rightarrow> string \<Rightarrow> string list" where
  "split_on c [] = [[]]"
| "split_on c (x # xs) =
     (if x = c then [] # split_on c xs
      else (case split_on c xs of [] \<Rightarrow> [[x]] | w # ws \<Rightarrow> (x # w) # ws))"

fun join_on :: "char \<Rightarrow> string list \<Rightarrow> string" where
  "join_on c [] = []"
| "join_on c [w] = w"
| "join_on c (w # ws) = w @ c # join_on c ws"

lemma split_on_not_Nil [simp]: "split_on c s \<noteq> []"
  by (cases s) (auto split: list.splits)

lemma join_split_on [simp]: "join_on c (split_on c s) = s"
proof (induction s)
  case Nil
  show ?case by simp
next
  case (Cons x xs)
  obtain w ws where ws: "split_on c xs = w # ws"
    by (cases "split_on c xs") auto
  with Cons show ?case by (cases ws) auto
qed

lemma split_on_no_sep: "c \<notin> set w \<Longrightarrow> split_on c w = [w]"
  by (induction w) auto

lemma split_on_append_sep:
  "c \<notin> set w \<Longrightarrow> split_on c (w @ c # s) = w # split_on c s"
  by (induction w) auto

lemma split_join_on:
  "ws \<noteq> [] \<Longrightarrow> \<forall>w\<in>set ws. c \<notin> set w \<Longrightarrow> split_on c (join_on c ws) = ws"
  by (induction c ws rule: join_on.induct) (auto simp: split_on_no_sep split_on_append_sep)

lemma split_on_words_no_sep: "w \<in> set (split_on c s) \<Longrightarrow> c \<notin> set w"
  by (induction s arbitrary: w) (auto split: if_splits list.splits)

lemma set_join_on: "set (join_on c ws) \<subseteq> insert c (\<Union> (set ` set ws))"
  by (induction c ws rule: join_on.induct) auto

subsection \<open>Prefixes\<close>

text \<open>\<open>strings.CutPrefix\<close>: the rest behind the prefix, \<open>None\<close> when it is not there.\<close>

fun cut_prefix :: "string \<Rightarrow> string \<Rightarrow> string option" where
  "cut_prefix [] s = Some s"
| "cut_prefix (p # ps) [] = None"
| "cut_prefix (p # ps) (x # xs) = (if p = x then cut_prefix ps xs else None)"

lemma cut_prefix_Some_iff: "cut_prefix p s = Some r \<longleftrightarrow> s = p @ r"
  by (induction p s rule: cut_prefix.induct) auto

lemma cut_prefix_append [simp]: "cut_prefix p (p @ r) = Some r"
  by (simp add: cut_prefix_Some_iff)

subsection \<open>Blanks\<close>

text \<open>\<open>strings.TrimSpace\<close> on bytes: the blanks of ASCII at both ends.\<close>

definition white :: "char \<Rightarrow> bool" where
  "white c \<longleftrightarrow> c \<in> {CHR '' '', CHR 0x09, CHR 0x0A, CHR 0x0B, CHR 0x0C, CHR 0x0D}"

definition trim_space :: "string \<Rightarrow> string" where
  "trim_space s = rev (dropWhile white (rev (dropWhile white s)))"

subsection \<open>Decimal numbers\<close>

abbreviation is_digit :: "char \<Rightarrow> bool" where
  "is_digit c \<equiv> CHR ''0'' \<le> c \<and> c \<le> CHR ''9''"

definition digit_val :: "char \<Rightarrow> int" where
  "digit_val c = int (of_char c) - 48"

definition digit_char :: "nat \<Rightarrow> char" where
  "digit_char d = char_of (48 + d)"

fun nat_digits :: "nat \<Rightarrow> string" where
  "nat_digits n = (if n < 10 then [digit_char n] else nat_digits (n div 10) @ [digit_char (n mod 10)])"

declare nat_digits.simps [simp del]

text \<open>\<open>strconv.Itoa\<close>\<close>

definition itoa :: "int \<Rightarrow> string" where
  "itoa n = (if n < 0 then CHR ''-'' # nat_digits (nat (- n)) else nat_digits (nat n))"

text \<open>The number that a list of decimal digits writes, from the left.\<close>

definition digits_val :: "int \<Rightarrow> string \<Rightarrow> int" where
  "digits_val = foldl (\<lambda>n c. n * 10 + digit_val c)"

lemma of_char_digit_char [simp]: "d < 10 \<Longrightarrow> of_char (digit_char d) = 48 + d"
  by (simp add: digit_char_def)

lemma is_digit_digit_char [simp]:
  "d < 10 \<Longrightarrow> CHR ''0'' \<le> digit_char d" "d < 10 \<Longrightarrow> digit_char d \<le> CHR ''9''"
  by (simp_all add: less_eq_char_def)

lemma digit_val_digit_char [simp]: "d < 10 \<Longrightarrow> digit_val (digit_char d) = int d"
  by (simp add: digit_val_def)

lemma digit_char_digit_val: "is_digit c \<Longrightarrow> digit_char (nat (digit_val c)) = c"
  by (auto simp: digit_char_def digit_val_def less_eq_char_def nat_diff_distrib)

lemma digit_val_range: "is_digit c \<Longrightarrow> 0 \<le> digit_val c \<and> digit_val c < 10"
  by (auto simp: digit_val_def less_eq_char_def)

lemma digits_val_append [simp]: "digits_val n (xs @ ys) = digits_val (digits_val n xs) ys"
  by (simp add: digits_val_def)

lemma digits_val_simps [simp]:
  "digits_val n [] = n" "digits_val n (c # cs) = digits_val (n * 10 + digit_val c) cs"
  by (simp_all add: digits_val_def)

lemma nat_digits_not_Nil [simp]: "nat_digits n \<noteq> []"
  by (subst nat_digits.simps) simp

lemma nat_digits_all_digits: "c \<in> set (nat_digits n) \<Longrightarrow> is_digit c"
proof (induction n rule: nat_digits.induct)
  case (1 n)
  then show ?case by (subst (asm) (2) nat_digits.simps) (auto split: if_splits)
qed

lemma digits_val_nat_digits [simp]: "digits_val 0 (nat_digits n) = int n"
proof (induction n rule: nat_digits.induct)
  case (1 n)
  show ?case
  proof (cases "n < 10")
    case True
    then show ?thesis by (subst nat_digits.simps) simp
  next
    case False
    have "int (n div 10) * 10 + int (n mod 10) = int n" by presburger
    with False "1.IH" show ?thesis by (subst nat_digits.simps) simp
  qed
qed

lemma length_nat_digits_le: "n < 10 ^ k \<Longrightarrow> 0 < k \<Longrightarrow> length (nat_digits n) \<le> k"
proof (induction k arbitrary: n)
  case 0
  then show ?case by simp
next
  case (Suc k)
  show ?case
  proof (cases "n < 10")
    case True
    then show ?thesis by (subst nat_digits.simps) simp
  next
    case False
    with Suc.prems have "n div 10 < 10 ^ k" and "0 < k"
      by (auto simp: div_less_iff_less_mult intro!: gr0I)
    with Suc.IH False show ?thesis by (subst nat_digits.simps) simp
  qed
qed

lemma nat_digits_no_leading_zero: "0 < n \<Longrightarrow> hd (nat_digits n) \<noteq> CHR ''0''"
proof (induction n rule: nat_digits.induct)
  case (1 n)
  show ?case
  proof (cases "n < 10")
    case True
    then have "of_char (digit_char n) \<noteq> (of_char CHR ''0'' :: nat)"
      using "1.prems" by simp
    then have "digit_char n \<noteq> CHR ''0''" by metis
    with True show ?thesis by (subst nat_digits.simps) simp
  next
    case False
    with "1.IH" show ?thesis by (subst nat_digits.simps) simp
  qed
qed

lemma nat_digits_zero [simp]: "nat_digits 0 = ''0''"
  by code_simp

subsection \<open>Closed vocabularies\<close>

text \<open>
  A Go enumeration is a list of string constants, and \<open>slices.Contains\<close> says whether a word is
  one. Here it is a datatype with the word of each value; reading is a search of the list.
\<close>

definition lookup_word :: "('a \<Rightarrow> string) \<Rightarrow> 'a list \<Rightarrow> string \<Rightarrow> 'a option" where
  "lookup_word w xs s = List.find (\<lambda>x. w x = s) xs"

text \<open>A value of a closed set as text, the empty text when it is not set.\<close>

definition opt_word :: "('a \<Rightarrow> string) \<Rightarrow> 'a option \<Rightarrow> string" where
  "opt_word w x = (case x of None \<Rightarrow> [] | Some a \<Rightarrow> w a)"

abbreviation plain_word :: "string \<Rightarrow> bool" where
  "plain_word s \<equiv> s \<noteq> [] \<and> CHR '' '' \<notin> set s \<and> CHR 0x0A \<notin> set s"

locale vocabulary =
  fixes word :: "'a \<Rightarrow> string" and words :: "'a list"
  assumes complete: "x \<in> set words"
    and distinct_words: "distinct (map word words)"
    and plain: "plain_word (word x)"
begin

lemma word_inj: "word x = word y \<longleftrightarrow> x = y"
  using distinct_words complete by (auto simp: distinct_map inj_on_def)

lemma lookup_iff: "lookup_word word words s = Some x \<longleftrightarrow> word x = s"
proof
  assume "lookup_word word words s = Some x"
  then show "word x = s"
    by (auto simp: lookup_word_def find_Some_iff)
next
  assume s: "word x = s"
  then have "lookup_word word words s \<noteq> None"
    using complete [of x] by (auto simp: lookup_word_def find_None_iff)
  then obtain y where y: "lookup_word word words s = Some y" by blast
  then have "word y = s" by (auto simp: lookup_word_def find_Some_iff)
  with s word_inj y show "lookup_word word words s = Some x" by auto
qed

lemma lookup_word_of [simp]: "lookup_word word words (word x) = Some x"
  by (simp add: lookup_iff)

lemma word_not_Nil [simp]: "word x \<noteq> []" "[] \<noteq> word x"
  using plain [of x] by auto

lemma lookup_empty [simp]: "lookup_word word words [] = None"
  by (auto simp: lookup_word_def find_None_iff)

lemma opt_word_lookup: "s \<in> word ` set words \<Longrightarrow> opt_word word (lookup_word word words s) = s"
  by (auto simp: opt_word_def)

lemma opt_word_in_words: "opt_word word x \<in> word ` set words \<longleftrightarrow> x \<noteq> None"
  using complete by (auto simp: opt_word_def split: option.splits)

lemma lookup_opt_word: "lookup_word word words (opt_word word x) = x"
  by (simp add: opt_word_def split: option.splits)

lemma lookup_None_iff: "lookup_word word words s = None \<longleftrightarrow> s \<notin> set (map word words)"
  by (auto simp: lookup_word_def find_None_iff)

end

end
