(* ===== verification/OsrunVocab.thy ===== *)
theory OsrunVocab
  imports Prelude
begin

section \<open>The vocabulary and the timing of an operating system upgrade\<close>

text \<open>
  Models \<open>pkg/osrun/vocab.go\<close> and \<open>pkg/osrun/timing.go\<close>: the closed sets of words that the core and
  the unit of an upgrade share (phases, kinds of run, blocks, classes of stop, states, buttons), the
  files of the run that the reducer reads, the lists of blocks of each phase, and the numbers that
  everything is decided with. Each Go list of string constants is a datatype together with the
  word of each value; the empty string of a field that is not set is \<open>None\<close> (or a constructor of its
  own where the field mixes several sets).
\<close>

subsection \<open>Words\<close>

datatype phase = PhaseRefresh | PhaseRehearse | PhaseRun | PhaseRecover | PhaseVerify | PhaseUnwind

primrec phase_word :: "phase \<Rightarrow> string" where
  "phase_word PhaseRefresh = ''refresh''"
| "phase_word PhaseRehearse = ''rehearse''"
| "phase_word PhaseRun = ''run''"
| "phase_word PhaseRecover = ''recover''"
| "phase_word PhaseVerify = ''verify''"
| "phase_word PhaseUnwind = ''unwind''"

definition Phases :: "phase list" where
  "Phases = [PhaseRefresh, PhaseRehearse, PhaseRun, PhaseRecover, PhaseVerify, PhaseUnwind]"

datatype run_kind = RunRefresh | RunHop | RunRehearsal

primrec run_kind_word :: "run_kind \<Rightarrow> string" where
  "run_kind_word RunRefresh = ''refresh''"
| "run_kind_word RunHop = ''hop''"
| "run_kind_word RunRehearsal = ''rehearsal''"

definition RunKinds :: "run_kind list" where
  "RunKinds = [RunRefresh, RunHop, RunRehearsal]"

datatype block =
    BlockVerify | BlockTimers | BlockSnapshot | BlockSources | BlockDownload | BlockMinimal | BlockFull
  | BlockPrereboot | BlockAfter | BlockForward | BlockRCheck | BlockRSources | BlockRUpgrade | BlockRDone

primrec block_word :: "block \<Rightarrow> string" where
  "block_word BlockVerify = ''verify''"
| "block_word BlockTimers = ''timers''"
| "block_word BlockSnapshot = ''snapshot''"
| "block_word BlockSources = ''sources''"
| "block_word BlockDownload = ''download''"
| "block_word BlockMinimal = ''minimal''"
| "block_word BlockFull = ''full''"
| "block_word BlockPrereboot = ''prereboot''"
| "block_word BlockAfter = ''after''"
| "block_word BlockForward = ''forward''"
| "block_word BlockRCheck = ''rcheck''"
| "block_word BlockRSources = ''rsources''"
| "block_word BlockRUpgrade = ''rupgrade''"
| "block_word BlockRDone = ''rdone''"

definition BlockIDs :: "block list" where
  "BlockIDs =
     [BlockVerify, BlockTimers, BlockSnapshot, BlockSources, BlockDownload, BlockMinimal, BlockFull,
      BlockPrereboot, BlockAfter, BlockForward, BlockRCheck, BlockRSources, BlockRUpgrade, BlockRDone]"

text \<open>What a marker names as its block: a block, or one of the ids of a STOP that are no block's.\<close>

datatype stop_id = StopBlock block | StopDriver | StopList | StopUnwind

primrec stop_id_word :: "stop_id \<Rightarrow> string" where
  "stop_id_word (StopBlock b) = block_word b"
| "stop_id_word StopDriver = ''driver''"
| "stop_id_word StopList = ''list''"
| "stop_id_word StopUnwind = ''unwind''"

definition StopIDs :: "stop_id list" where
  "StopIDs = map StopBlock BlockIDs @ [StopDriver, StopList, StopUnwind]"

datatype stop_class =
    ClassBusy | ClassNetwork | ClassAptFailed | ClassDpkgBroken | ClassUnknown | ClassDisk | ClassPlan
  | ClassGuard | ClassConverge | ClassBarrierKernel | ClassBarrierInitrd | ClassBarrierGrub
  | ClassBarrierSSHD | ClassBarrierResolver | ClassBarrierOther | ClassIdentity | ClassTools
  | ClassUnit | ClassIntegrity | ClassAbort

primrec class_word :: "stop_class \<Rightarrow> string" where
  "class_word ClassBusy = ''busy''"
| "class_word ClassNetwork = ''network''"
| "class_word ClassAptFailed = ''apt_failed''"
| "class_word ClassDpkgBroken = ''dpkg_broken''"
| "class_word ClassUnknown = ''unknown''"
| "class_word ClassDisk = ''disk''"
| "class_word ClassPlan = ''plan''"
| "class_word ClassGuard = ''guard''"
| "class_word ClassConverge = ''converge''"
| "class_word ClassBarrierKernel = ''barrier_kernel''"
| "class_word ClassBarrierInitrd = ''barrier_initrd''"
| "class_word ClassBarrierGrub = ''barrier_grub''"
| "class_word ClassBarrierSSHD = ''barrier_sshd''"
| "class_word ClassBarrierResolver = ''barrier_resolver''"
| "class_word ClassBarrierOther = ''barrier_other''"
| "class_word ClassIdentity = ''identity''"
| "class_word ClassTools = ''tools''"
| "class_word ClassUnit = ''unit''"
| "class_word ClassIntegrity = ''integrity''"
| "class_word ClassAbort = ''abort''"

definition Classes :: "stop_class list" where
  "Classes =
     [ClassBusy, ClassNetwork, ClassAptFailed, ClassDpkgBroken, ClassUnknown, ClassDisk, ClassPlan,
      ClassGuard, ClassConverge, ClassBarrierKernel, ClassBarrierInitrd, ClassBarrierGrub,
      ClassBarrierSSHD, ClassBarrierResolver, ClassBarrierOther, ClassIdentity, ClassTools,
      ClassUnit, ClassIntegrity, ClassAbort]"

datatype state_name =
    StateIdle | StateRefreshing | StateRebootFirst | StateRefreshed | StateRehearsing | StateRehearsed
  | StateRehearsalDone | StateRunning | StateUnwinding | StateRecovering | StateAwaitingReboot
  | StateRebooting | StateRebootStalled | StateResuming | StateVerifying | StateSucceeded
  | StateSucceededWithFindings | StateFailed | StateInterrupted | StateStoppedAtWaypoint
  | StateNeedsAttention | StateManual | StateManualDone

text \<open>\<open>State.Reason\<close>: empty, a class of stop, or one of the reason constants.\<close>

datatype reason =
    NoReason | OfClass stop_class | ReasonStart | ReasonVerify | ReasonHalf | ReasonInterruptedPower
  | ReasonInterruptedKilled | ReasonSystemdSilent | ReasonUnwindPartial | ReasonRunDamaged

datatype cause = NoCause | CausePower | CauseKilled

datatype button =
    ActionAbort | ActionReboot | ActionResume | ActionAcknowledge | ActionDiscard | ActionTakeover

definition ActionNames :: "button list" where
  "ActionNames =
     [ActionAbort, ActionReboot, ActionResume, ActionAcknowledge, ActionDiscard, ActionTakeover]"

datatype who = WhoAuto | WhoOwner

primrec who_word :: "who \<Rightarrow> string" where
  "who_word WhoAuto = ''auto''"
| "who_word WhoOwner = ''owner''"

definition Whos :: "who list" where
  "Whos = [WhoAuto, WhoOwner]"

text \<open>Every list of words is complete, has no word twice, and no word has a blank or a newline.\<close>

interpretation ph: vocabulary phase_word Phases
proof
  show "x \<in> set Phases" for x
    by (cases x) (simp_all add: Phases_def)
  show "distinct (map phase_word Phases)"
    by (simp add: Phases_def)
  show "plain_word (phase_word x)" for x
    by (cases x) simp_all
qed

interpretation rk: vocabulary run_kind_word RunKinds
proof
  show "x \<in> set RunKinds" for x
    by (cases x) (simp_all add: RunKinds_def)
  show "distinct (map run_kind_word RunKinds)"
    by (simp add: RunKinds_def)
  show "plain_word (run_kind_word x)" for x
    by (cases x) simp_all
qed

interpretation bl: vocabulary block_word BlockIDs
proof
  show "x \<in> set BlockIDs" for x
    by (cases x) (simp_all add: BlockIDs_def)
  show "distinct (map block_word BlockIDs)"
    by (simp add: BlockIDs_def)
  show "plain_word (block_word x)" for x
    by (cases x) simp_all
qed

interpretation si: vocabulary stop_id_word StopIDs
proof
  show "x \<in> set StopIDs" for x
    using bl.complete by (cases x) (auto simp: StopIDs_def)
  show "distinct (map stop_id_word StopIDs)"
    by (simp add: StopIDs_def BlockIDs_def)
  show "plain_word (stop_id_word x)" for x
    using bl.plain by (cases x) simp_all
qed

interpretation cl: vocabulary class_word Classes
proof
  show "x \<in> set Classes" for x
    by (cases x) (simp_all add: Classes_def)
  show "distinct (map class_word Classes)"
    by (simp add: Classes_def)
  show "plain_word (class_word x)" for x
    by (cases x) simp_all
qed

interpretation wh: vocabulary who_word Whos
proof
  show "x \<in> set Whos" for x
    by (cases x) (simp_all add: Whos_def)
  show "distinct (map who_word Whos)"
    by (simp add: Whos_def)
  show "plain_word (who_word x)" for x
    by (cases x) simp_all
qed

text \<open>\<open>ValidPhase\<close>, \<open>ValidBlock\<close> and \<open>ValidClass\<close>.\<close>

definition ValidPhase :: "string \<Rightarrow> bool" where
  "ValidPhase s = (s \<in> set (map phase_word Phases))"

definition ValidBlock :: "string \<Rightarrow> bool" where
  "ValidBlock s = (s \<in> set (map block_word BlockIDs))"

definition ValidClass :: "string \<Rightarrow> bool" where
  "ValidClass s = (s \<in> set (map class_word Classes))"

text \<open>\<open>AckWord\<close>, the word that closes a machine that is half upgraded.\<close>

definition AckWord :: string where
  "AckWord = ''I-KNOW-THIS-MACHINE-IS-HALF-UPGRADED''"

subsection \<open>The files of a run\<close>

record files =
  Begun :: bool
  DoneMinimal :: bool
  DoneFull :: bool
  DonePrereboot :: bool
  DoneAfter :: bool
  DoneTimers :: bool
  AptOrig :: bool
  AbortFlag :: bool
  BootIDFile :: string

text \<open>The point of no return is read from the files, never from a marker.\<close>

definition PNR :: "files \<Rightarrow> bool" where
  "PNR f \<longleftrightarrow> Begun f \<or> DoneMinimal f"

definition FirstMissing :: "files \<Rightarrow> block option" where
  "FirstMissing f =
     (if \<not> DoneMinimal f then Some BlockMinimal
      else if \<not> DoneFull f then Some BlockFull
      else if \<not> DonePrereboot f then Some BlockPrereboot
      else None)"

fun BlockList :: "phase \<Rightarrow> files \<Rightarrow> block list" where
  "BlockList PhaseRefresh f = [BlockRCheck, BlockRSources, BlockRUpgrade, BlockRDone]"
| "BlockList PhaseRehearse f =
     [BlockVerify, BlockTimers, BlockSnapshot, BlockSources, BlockDownload]"
| "BlockList PhaseRun f =
     [BlockVerify, BlockTimers, BlockSnapshot, BlockSources, BlockDownload, BlockMinimal, BlockFull,
      BlockPrereboot]"
| "BlockList PhaseVerify f = [BlockAfter]"
| "BlockList PhaseRecover f =
     (let first = FirstMissing f in
      if first = None then []
      else if first = Some BlockPrereboot then [BlockPrereboot]
      else if first = Some BlockFull then [BlockForward, BlockFull, BlockPrereboot]
      else [BlockForward, BlockMinimal, BlockFull, BlockPrereboot])"
| "BlockList PhaseUnwind f = []"

subsection \<open>Timing\<close>

record timing =
  GraceQuiet :: duration
  StartLost :: duration
  StartLostSilent :: duration
  SystemdSilence :: duration
  RebootStall :: duration
  RehearsalTTL :: duration
  ResumeWait :: duration
  SettleEvery :: duration
  MaxVerifyAttempts :: int
  MaxUnwindAttempts :: int
  AutoRecoverTries :: int
  AutoRecoverWave :: int
  Backoff :: "duration \<times> duration"
  Reminders :: "duration \<times> duration \<times> duration"
  HungQuiet :: duration
  FactCommand :: duration
  ContainersWait :: duration
  MarkersMax :: int
  MarkerLineMax :: int
  LogTail :: int

definition markersMax :: nat where
  "markersMax = 2 ^ 20"

definition markerLineMax :: nat where
  "markerLineMax = 256"

definition DefaultTiming :: timing where
  "DefaultTiming = \<lparr>
     GraceQuiet = 30 * second, StartLost = 30 * second, StartLostSilent = 30 * minute,
     SystemdSilence = 30 * minute, RebootStall = 15 * minute, RehearsalTTL = 30 * minute,
     ResumeWait = 10 * minute, SettleEvery = 30 * second,
     MaxVerifyAttempts = 3, MaxUnwindAttempts = 3, AutoRecoverTries = 0, AutoRecoverWave = 1,
     Backoff = (2 * minute, 10 * minute), Reminders = (hour, 24 * hour, 24 * hour),
     HungQuiet = 30 * minute, FactCommand = 20 * second, ContainersWait = 5 * minute,
     MarkersMax = int markersMax, MarkerLineMax = int markerLineMax, LogTail = 131072\<rparr>"

text \<open>The zero value of the struct, which stands for \<open>DefaultTiming\<close>.\<close>

definition zero_timing :: timing where
  "zero_timing = \<lparr>
     GraceQuiet = 0, StartLost = 0, StartLostSilent = 0, SystemdSilence = 0, RebootStall = 0,
     RehearsalTTL = 0, ResumeWait = 0, SettleEvery = 0, MaxVerifyAttempts = 0, MaxUnwindAttempts = 0,
     AutoRecoverTries = 0, AutoRecoverWave = 0, Backoff = (0, 0), Reminders = (0, 0, 0),
     HungQuiet = 0, FactCommand = 0, ContainersWait = 0, MarkersMax = 0, MarkerLineMax = 0, LogTail = 0\<rparr>"

subsection \<open>The lists of blocks\<close>

lemma FirstMissing_None_iff:
  "FirstMissing f = None \<longleftrightarrow> DoneMinimal f \<and> DoneFull f \<and> DonePrereboot f"
  by (simp add: FirstMissing_def)

text \<open>The blocks that change packages past the point of no return are in a run or a repair only.\<close>

lemma BlockList_minimal_phase:
  "BlockMinimal \<in> set (BlockList p f) \<Longrightarrow> p = PhaseRun \<or> p = PhaseRecover"
  by (cases p) auto

lemma BlockList_distinct: "distinct (BlockList p f)"
  by (cases p) (auto simp: Let_def)

end
