(* ===== verification/Calendar.thy ===== *)
theory Calendar
  imports Prelude
begin

section \<open>Times as text\<close>

text \<open>
  What \<open>time.Parse\<close> and \<open>Time.Format\<close> do with the layout \<open>2006-01-02T15:04:05Z\<close>, on the proleptic
  Gregorian calendar that Go's \<open>time\<close> uses. Year 1 begins at instant 0. A text of the length of the
  layout has two digits for each field and no fraction of a second, so the reader is the
  fixed one below. A year that does not have four digits is written with more characters (and a
  sign when it is negative), and no reader takes it.
\<close>

definition is_leap :: "int \<Rightarrow> bool" where
  "is_leap y \<longleftrightarrow> y mod 4 = 0 \<and> (y mod 100 \<noteq> 0 \<or> y mod 400 = 0)"

definition year_len :: "int \<Rightarrow> int" where
  "year_len y = (if is_leap y then 366 else 365)"

definition days_before_year :: "int \<Rightarrow> int" where
  "days_before_year y = 365 * (y - 1) + (y - 1) div 4 - (y - 1) div 100 + (y - 1) div 400"

definition month_lens :: "int \<Rightarrow> int list" where
  "month_lens y = [31, if is_leap y then 29 else 28, 31, 30, 31, 30, 31, 31, 30, 31, 30, 31]"

definition days_in :: "int \<Rightarrow> int \<Rightarrow> int" where
  "days_in y m = month_lens y ! nat (m - 1)"

text \<open>Month and day from the day of the year, by walking down the lengths of the months.\<close>

fun walk_months :: "int \<Rightarrow> int \<Rightarrow> int list \<Rightarrow> int \<times> int" where
  "walk_months m d [] = (m, d)"
| "walk_months m d [l] = (m, d)"
| "walk_months m d (l # ls) = (if d < l then (m, d) else walk_months (m + 1) (d - l) ls)"

definition days_before_month :: "int \<Rightarrow> int \<Rightarrow> int" where
  "days_before_month y m = sum_list (take (nat (m - 1)) (month_lens y))"

definition day_number :: "int \<Rightarrow> int \<Rightarrow> int \<Rightarrow> int" where
  "day_number y m d = days_before_year y + days_before_month y m + (d - 1)"

definition year_of_day :: "int \<Rightarrow> int" where
  "year_of_day n =
     (let y = (400 * n) div 146097 + 1 in
      if n < days_before_year y then y - 1
      else if days_before_year (y + 1) \<le> n then y + 1
      else y)"

definition civil_of_day :: "int \<Rightarrow> int \<times> int \<times> int" where
  "civil_of_day n =
     (let y = year_of_day n; (m, d) = walk_months 1 (n - days_before_year y) (month_lens y)
      in (y, m, d + 1))"

subsection \<open>The layout\<close>

definition two_digits :: "int \<Rightarrow> string" where
  "two_digits n = [digit_char (nat (n div 10)), digit_char (nat (n mod 10))]"

text \<open>The year: four digits, more when it does not fit, a sign when it is negative.\<close>

definition year_text :: "int \<Rightarrow> string" where
  "year_text y =
     (let ds = nat_digits (nat \<bar>y\<bar>) in
      (if y < 0 then ''-'' else []) @ replicate (4 - length ds) (CHR ''0'') @ ds)"

text \<open>\<open>t.UTC().Format(timeLayout)\<close>\<close>

definition FormatTime :: "instant \<Rightarrow> string" where
  "FormatTime t =
     (let s = t div second; r = s mod 86400; (y, m, d) = civil_of_day (s div 86400)
      in year_text y @ ''-'' @ two_digits m @ ''-'' @ two_digits d @ ''T'' @ two_digits (r div 3600) @
         '':'' @ two_digits (r mod 3600 div 60) @ '':'' @ two_digits (r mod 60) @ ''Z'')"

text \<open>The six numbers of a text of the shape of the layout.\<close>

definition layout_fields :: "string \<Rightarrow> (int \<times> int \<times> int \<times> int \<times> int \<times> int) option" where
  "layout_fields s =
     (case s of
        [y1, y2, y3, y4, p1, m1, m2, p2, d1, d2, p3, h1, h2, p4, i1, i2, p5, s1, s2, p6] \<Rightarrow>
          if list_all (\<lambda>c. is_digit c) [y1, y2, y3, y4, m1, m2, d1, d2, h1, h2, i1, i2, s1, s2] \<and>
             [p1, p2, p3, p4, p5, p6] = ''--T::Z''
          then Some (digits_val 0 [y1, y2, y3, y4], digits_val 0 [m1, m2], digits_val 0 [d1, d2],
                     digits_val 0 [h1, h2], digits_val 0 [i1, i2], digits_val 0 [s1, s2])
          else None
      | _ \<Rightarrow> None)"

text \<open>\<open>parseTime\<close>: a time of the layout that is on the calendar and is not the zero time.\<close>

definition parseTime :: "string \<Rightarrow> instant option" where
  "parseTime s =
     (case layout_fields s of
        None \<Rightarrow> None
      | Some (y, mo, d, h, mi, se) \<Rightarrow>
          if 1 \<le> mo \<and> mo \<le> 12 \<and> 1 \<le> d \<and> d \<le> days_in y mo \<and> h < 24 \<and> mi < 60 \<and> se < 60
          then (let t = (day_number y mo d * 86400 + h * 3600 + mi * 60 + se) * second
                in if t = 0 then None else Some t)
          else None)"

subsection \<open>The texts of RFC 3339\<close>

text \<open>The digits of \<open>n\<close> characters, and \<open>getnum\<close> with one or two digits.\<close>

definition fixed_number :: "nat \<Rightarrow> string \<Rightarrow> (int \<times> string) option" where
  "fixed_number n s =
     (if n \<le> length s \<and> list_all (\<lambda>c. is_digit c) (take n s) then Some (digits_val 0 (take n s), drop n s) else None)"

definition short_number :: "string \<Rightarrow> (int \<times> string) option" where
  "short_number s =
     (case fixed_number 2 s of Some r \<Rightarrow> Some r | None \<Rightarrow> fixed_number 1 s)"

definition expect :: "char \<Rightarrow> string \<Rightarrow> string option" where
  "expect c s = (case s of x # r \<Rightarrow> if x = c then Some r else None | [] \<Rightarrow> None)"

text \<open>The fraction of a second, which may be there though the layout has none: nanoseconds, digits past the ninth dropped.\<close>

definition fraction :: "string \<Rightarrow> int \<times> string" where
  "fraction s =
     (case s of
        c # r \<Rightarrow>
          (let d = takeWhile (\<lambda>c. is_digit c) r
           in if c \<in> {CHR ''.'', CHR '',''} \<and> d \<noteq> []
              then (digits_val 0 (take 9 (d @ replicate 9 (CHR ''0''))), dropWhile (\<lambda>c. is_digit c) r)
              else (0, s))
      | [] \<Rightarrow> (0, s))"

text \<open>The offset of the zone, in seconds.\<close>

definition zone_offset :: "string \<Rightarrow> int option" where
  "zone_offset s =
     (if s = ''Z'' then Some 0
      else (case s of
              [sg, h1, h2, p, m1, m2] \<Rightarrow>
                (let h = digits_val 0 [h1, h2]; m = digits_val 0 [m1, m2]
                 in if sg \<in> {CHR ''+'', CHR ''-''} \<and> p = CHR '':'' \<and> list_all (\<lambda>c. is_digit c) [h1, h2, m1, m2] \<and>
                       h \<le> 24 \<and> m \<le> 60
                    then Some ((if sg = CHR ''-'' then -1 else 1) * (h * 60 + m) * 60)
                    else None)
            | _ \<Rightarrow> None))"

text \<open>\<open>time.Parse(time.RFC3339, s)\<close>\<close>

definition parse_rfc3339 :: "string \<Rightarrow> instant option" where
  "parse_rfc3339 s =
     (case fixed_number 4 s of None \<Rightarrow> None | Some (y, s1) \<Rightarrow>
     (case expect CHR ''-'' s1 of None \<Rightarrow> None | Some s2 \<Rightarrow>
     (case fixed_number 2 s2 of None \<Rightarrow> None | Some (mo, s3) \<Rightarrow>
     (case expect CHR ''-'' s3 of None \<Rightarrow> None | Some s4 \<Rightarrow>
     (case fixed_number 2 s4 of None \<Rightarrow> None | Some (d, s5) \<Rightarrow>
     (case expect CHR ''T'' s5 of None \<Rightarrow> None | Some s6 \<Rightarrow>
     (case short_number s6 of None \<Rightarrow> None | Some (h, s7) \<Rightarrow>
     (case expect CHR '':'' s7 of None \<Rightarrow> None | Some s8 \<Rightarrow>
     (case fixed_number 2 s8 of None \<Rightarrow> None | Some (mi, s9) \<Rightarrow>
     (case expect CHR '':'' s9 of None \<Rightarrow> None | Some s10 \<Rightarrow>
     (case fixed_number 2 s10 of None \<Rightarrow> None | Some (se, s11) \<Rightarrow>
     (case fraction s11 of (ns, s12) \<Rightarrow>
     (case zone_offset s12 of None \<Rightarrow> None | Some off \<Rightarrow>
        if 1 \<le> mo \<and> mo \<le> 12 \<and> 1 \<le> d \<and> d \<le> days_in y mo \<and> h < 24 \<and> mi < 60 \<and> se < 60
        then Some ((day_number y mo d * 86400 + h * 3600 + mi * 60 + se - off) * second + ns)
        else None)))))))))))))"

subsection \<open>The calendar\<close>

lemma div_pred_int:
  fixes y k :: int
  assumes "0 < k"
  shows "y div k = (y - 1) div k + (if y mod k = 0 then 1 else 0)"
proof (cases "y mod k = 0")
  case True
  have "y - 1 = k * (y div k - 1) + (k - 1)"
    using True mult_div_mod_eq [of k y] by (simp add: algebra_simps)
  then have "(y - 1) div k = y div k - 1"
    by (rule int_div_pos_eq) (use assms in auto)
  with True show ?thesis by simp
next
  case False
  have "y - 1 = k * (y div k) + (y mod k - 1)"
    using mult_div_mod_eq [of k y] by (simp add: algebra_simps)
  moreover have "0 \<le> y mod k - 1" "y mod k - 1 < k"
    using False assms pos_mod_sign [of k y] pos_mod_bound [of k y] by - linarith+
  ultimately have "(y - 1) div k = y div k" by (rule int_div_pos_eq)
  with False show ?thesis by simp
qed

lemma div_bounds_int:
  fixes z k :: int
  assumes "0 < k"
  shows "k * (z div k) \<le> z" "z < k * (z div k) + k"
  using assms mult_div_mod_eq [of k z] pos_mod_sign [of k z] pos_mod_bound [of k z] by - linarith+

lemma leap_count:
  "p100 \<longrightarrow> p4 \<Longrightarrow> p400 \<longrightarrow> p100 \<Longrightarrow>
     365 + (if p4 then 1 else 0) - (if p100 then 1 else 0) + (if p400 then 1 else 0) =
     (if p4 \<and> (\<not> p100 \<or> p400) then 366 else (365 :: int))"
  by (cases p4; cases p100; cases p400) simp_all

lemma days_before_year_Suc: "days_before_year (y + 1) = days_before_year y + year_len y"
proof -
  have 4: "y mod 100 = 0 \<longrightarrow> y mod 4 = 0"
    using mod_mod_cancel [of 4 100 y] by auto
  have 100: "y mod 400 = 0 \<longrightarrow> y mod 100 = 0"
    using mod_mod_cancel [of 100 400 y] by auto
  have "days_before_year (y + 1) = 365 * y + y div 4 - y div 100 + y div 400"
    by (simp add: days_before_year_def)
  also have "\<dots> = 365 * y + ((y - 1) div 4 + (if y mod 4 = 0 then 1 else 0))
      - ((y - 1) div 100 + (if y mod 100 = 0 then 1 else 0))
      + ((y - 1) div 400 + (if y mod 400 = 0 then 1 else 0))"
    unfolding div_pred_int [of 4 y, OF zero_less_numeral, symmetric]
      div_pred_int [of 100 y, OF zero_less_numeral, symmetric]
      div_pred_int [of 400 y, OF zero_less_numeral, symmetric] ..
  also have "\<dots> = days_before_year y + (365 + (if y mod 4 = 0 then 1 else 0)
      - (if y mod 100 = 0 then 1 else 0) + (if y mod 400 = 0 then 1 else 0))"
    unfolding days_before_year_def by algebra
  also have "365 + (if y mod 4 = 0 then 1 else 0) - (if y mod 100 = 0 then 1 else 0)
      + (if y mod 400 = 0 then 1 else 0) = year_len y"
    unfolding year_len_def is_leap_def by (rule leap_count) (fact 4, fact 100)
  finally show ?thesis .
qed

lemma year_len_bounds: "365 \<le> year_len y" "year_len y \<le> 366"
  by (simp_all add: year_len_def)

lemma days_before_year_bounds:
  "400 * days_before_year y \<le> 146097 * (y - 1) + 400"
  "146097 * (y - 1) - 800 \<le> 400 * days_before_year y"
proof -
  define z where "z = y - 1"
  note bounds = div_bounds_int [of 4 z, OF zero_less_numeral] div_bounds_int [of 100 z, OF zero_less_numeral]
    div_bounds_int [of 400 z, OF zero_less_numeral]
  show "400 * days_before_year y \<le> 146097 * (y - 1) + 400"
    unfolding days_before_year_def z_def [symmetric]
    using bounds by (simp add: algebra_simps)
  show "146097 * (y - 1) - 800 \<le> 400 * days_before_year y"
    unfolding days_before_year_def z_def [symmetric]
    using bounds by (simp add: algebra_simps)
qed

lemma year_of_day_spec:
  "days_before_year (year_of_day n) \<le> n \<and> n < days_before_year (year_of_day n + 1)"
proof -
  define y where "y = (400 * n) div 146097 + 1"
  have "146097 * (y - 1) \<le> 400 * n" "400 * n < 146097 * y"
    using div_bounds_int [of 146097 "400 * n"] by (simp_all add: y_def)
  then have "days_before_year (y - 1) \<le> n" "n < days_before_year (y + 2)"
    using days_before_year_bounds [of "y - 1"] days_before_year_bounds [of "y + 2"]
    by (simp_all add: algebra_simps)
  then show ?thesis
    unfolding year_of_day_def Let_def y_def [symmetric] by (auto simp: algebra_simps)
qed

lemma days_before_year_mono: "y \<le> y' \<Longrightarrow> days_before_year y \<le> days_before_year y'"
proof (induction y' rule: int_ge_induct)
  case base
  show ?case by simp
next
  case (step i)
  then show ?case using days_before_year_Suc [of i] year_len_bounds(1) [of i] by linarith
qed

lemma year_of_day_unique:
  assumes "days_before_year y \<le> n" and "n < days_before_year (y + 1)"
  shows "year_of_day n = y"
proof (rule ccontr)
  assume "year_of_day n \<noteq> y"
  then consider "year_of_day n + 1 \<le> y" | "y + 1 \<le> year_of_day n" by linarith
  then show False
  proof cases
    case 1
    from days_before_year_mono [OF 1] year_of_day_spec [of n] assms show ?thesis by linarith
  next
    case 2
    from days_before_year_mono [OF 2] year_of_day_spec [of n] assms show ?thesis by linarith
  qed
qed

lemma walk_months_prefix:
  "k < length ls \<Longrightarrow> 0 \<le> d \<Longrightarrow> d < ls ! k \<Longrightarrow> \<forall>l\<in>set ls. 0 \<le> l \<Longrightarrow>
     walk_months m (sum_list (take k ls) + d) ls = (m + int k, d)"
proof (induction m "sum_list (take k ls) + d" ls arbitrary: k rule: walk_months.induct)
  case (1 m)
  then show ?case by simp
next
  case (2 m l)
  then show ?case by simp
next
  case (3 m l l' ls)
  show ?case
  proof (cases k)
    case 0
    with 3 show ?thesis by simp
  next
    case (Suc j)
    have "0 \<le> sum_list (take j (l' # ls))"
      using "3.prems"(4) by (intro sum_list_nonneg) (meson in_set_takeD list.set_intros(2))
    with 3 Suc show ?thesis by simp
  qed
qed

lemma walk_months_split:
  "walk_months m d ls = (m', d') \<Longrightarrow> ls \<noteq> [] \<Longrightarrow> 0 \<le> d \<Longrightarrow> d < sum_list ls \<Longrightarrow>
     \<exists>k < length ls. m' = m + int k \<and> 0 \<le> d' \<and> d' < ls ! k \<and> d = sum_list (take k ls) + d'"
proof (induction m d ls rule: walk_months.induct)
  case (1 m d)
  then show ?case by simp
next
  case (2 m d l)
  then show ?case by (intro exI [of _ 0]) simp
next
  case (3 m d l l' ls)
  show ?case
  proof (cases "d < l")
    case True
    with 3 show ?thesis by (intro exI [of _ 0]) simp
  next
    case False
    with 3 obtain k where "k < length (l' # ls)" "m' = m + 1 + int k" "0 \<le> d'" "d' < (l' # ls) ! k"
      "d - l = sum_list (take k (l' # ls)) + d'" by auto
    then show ?thesis by (intro exI [of _ "Suc k"]) simp
  qed
qed

lemma month_lens_facts [simp]:
  "length (month_lens y) = 12" "sum_list (month_lens y) = year_len y" "month_lens y \<noteq> []"
  "\<forall>l\<in>set (month_lens y). 0 \<le> l"
  by (simp_all add: month_lens_def year_len_def)

definition valid_date :: "int \<Rightarrow> int \<Rightarrow> int \<Rightarrow> bool" where
  "valid_date y m d \<longleftrightarrow> 1 \<le> m \<and> m \<le> 12 \<and> 1 \<le> d \<and> d \<le> days_in y m"

lemma days_before_month_bound:
  assumes "valid_date y m d"
  shows "0 \<le> days_before_month y m + (d - 1)" and "days_before_month y m + (d - 1) < year_len y"
proof -
  define k where "k = nat (m - 1)"
  have k: "k < 12" "d - 1 < month_lens y ! k"
    using assms by (auto simp: valid_date_def days_in_def k_def)
  have "0 \<le> sum_list (take k (month_lens y))"
    by (rule sum_list_nonneg) (auto dest: in_set_takeD bspec [OF month_lens_facts(4)])
  moreover have "sum_list (take (Suc k) (month_lens y)) + sum_list (drop (Suc k) (month_lens y)) = year_len y"
    by (simp add: sum_list_append [symmetric] del: sum_list_append)
  moreover have "0 \<le> sum_list (drop (Suc k) (month_lens y))"
    by (rule sum_list_nonneg) (auto dest: in_set_dropD bspec [OF month_lens_facts(4)])
  moreover have "sum_list (take (Suc k) (month_lens y)) = sum_list (take k (month_lens y)) + month_lens y ! k"
    using k by (simp add: take_Suc_conv_app_nth)
  ultimately show "0 \<le> days_before_month y m + (d - 1)" and "days_before_month y m + (d - 1) < year_len y"
    using k assms by (auto simp: days_before_month_def valid_date_def k_def [symmetric])
qed

lemma civil_of_day_number:
  assumes "valid_date y m d"
  shows "civil_of_day (day_number y m d) = (y, m, d)"
proof -
  have "year_of_day (day_number y m d) = y"
    using days_before_month_bound [OF assms]
    by (intro year_of_day_unique) (simp_all add: day_number_def days_before_year_Suc)
  moreover have "walk_months 1 (days_before_month y m + (d - 1)) (month_lens y) = (1 + int (nat (m - 1)), d - 1)"
    unfolding days_before_month_def
    by (rule walk_months_prefix) (use assms in \<open>auto simp: valid_date_def days_in_def\<close>)
  ultimately show ?thesis
    using assms by (simp add: civil_of_day_def Let_def day_number_def valid_date_def)
qed

lemma day_number_civil:
  assumes "civil_of_day n = (y, m, d)"
  shows "valid_date y m d" and "day_number y m d = n" and "y = year_of_day n"
proof -
  obtain m' d' where w: "walk_months 1 (n - days_before_year (year_of_day n)) (month_lens (year_of_day n)) = (m', d')"
    by fastforce
  with assms have y: "y = year_of_day n" "m = m'" "d = d' + 1"
    by (auto simp: civil_of_day_def Let_def)
  have "0 \<le> n - days_before_year y" "n - days_before_year y < year_len y"
    using year_of_day_spec [of n] days_before_year_Suc [of y] y by simp_all
  then obtain k where "k < 12" "m' = 1 + int k" "0 \<le> d'" "d' < month_lens y ! k"
    "n - days_before_year y = sum_list (take k (month_lens y)) + d'"
    using walk_months_split [OF w] y by auto
  then show "valid_date y m d" and "day_number y m d = n"
    using y by (simp_all add: valid_date_def day_number_def days_in_def days_before_month_def)
  show "y = year_of_day n" by (rule y)
qed

subsection \<open>Round trips of the layout\<close>

lemma two_digits_val:
  assumes "0 \<le> n" "n < 100"
  shows "\<exists>a b. two_digits n = [a, b] \<and> is_digit a \<and> is_digit b \<and> digits_val 0 [a, b] = n"
proof -
  have "nat (n div 10) < 10" "nat (n mod 10) < 10" using assms by linarith+
  moreover have "n div 10 * 10 + n mod 10 = n" by simp
  ultimately show ?thesis
    using assms by (auto simp: two_digits_def is_digit_digit_char)
qed

lemma two_digits_of_digits:
  assumes "is_digit a" "is_digit b"
  shows "two_digits (digits_val 0 [a, b]) = [a, b]"
proof -
  note r = digit_val_range [OF assms(1)] digit_val_range [OF assms(2)]
  have "(digit_val a * 10 + digit_val b) div 10 = digit_val a"
    "(digit_val a * 10 + digit_val b) mod 10 = digit_val b"
    using r by simp_all
  with assms show ?thesis
    by (simp add: two_digits_def digit_char_digit_val)
qed

lemma digits_val_zeros [simp]: "digits_val 0 (replicate k (CHR ''0'')) = 0"
  by (induction k) (simp_all add: digit_val_def)

lemma digits_val_bounds:
  "\<forall>c\<in>set xs. is_digit c \<Longrightarrow> 0 \<le> digits_val 0 xs \<and> digits_val 0 xs < 10 ^ length xs"
proof (induction xs rule: rev_induct)
  case Nil
  show ?case by simp
next
  case (snoc x xs)
  then have "0 \<le> digits_val 0 xs" "digits_val 0 xs < 10 ^ length xs" "is_digit x" by auto
  with digit_val_range [of x] show ?case by simp
qed

lemma digits_val_inj:
  "length xs = length ys \<Longrightarrow> \<forall>c\<in>set xs \<union> set ys. is_digit c \<Longrightarrow>
     digits_val 0 xs = digits_val 0 ys \<Longrightarrow> xs = ys"
proof (induction xs arbitrary: ys rule: rev_induct)
  case Nil
  then show ?case by simp
next
  case (snoc x xs)
  then obtain zs z where ys: "ys = zs @ [z]" by (cases ys rule: rev_cases) auto
  with snoc.prems have dig: "is_digit x" "is_digit z"
    and eq: "digits_val 0 xs * 10 + digit_val x = digits_val 0 zs * 10 + digit_val z" by auto
  have divs: "(n * 10 + digit_val c) mod 10 = digit_val c" "(n * 10 + digit_val c) div 10 = n"
    if "is_digit c" for n c
    using digit_val_range [OF that] by simp_all
  have "digits_val 0 xs = digits_val 0 zs" "digit_val x = digit_val z"
    using divs [OF dig(1), of "digits_val 0 xs"] divs [OF dig(2), of "digits_val 0 zs"] eq by simp_all
  moreover from this have "x = z"
    using digit_char_digit_val [OF dig(1)] digit_char_digit_val [OF dig(2)] by metis
  moreover have "length xs = length zs" "\<forall>c\<in>set xs \<union> set zs. is_digit c"
    using snoc.prems ys by auto
  ultimately show ?case
    using snoc.IH ys by blast
qed

lemma year_text_val:
  assumes "0 \<le> y" "y \<le> 9999"
  shows "length (year_text y) = 4" and "\<forall>c\<in>set (year_text y). is_digit c"
    and "digits_val 0 (year_text y) = y"
proof -
  have "length (nat_digits (nat y)) \<le> 4"
    using assms by (intro length_nat_digits_le) auto
  then show "length (year_text y) = 4"
    using assms by (simp add: year_text_def Let_def)
  show "\<forall>c\<in>set (year_text y). is_digit c"
    using assms nat_digits_all_digits by (auto simp: year_text_def Let_def)
  show "digits_val 0 (year_text y) = y"
    using assms by (simp add: year_text_def Let_def)
qed

lemma year_text_of_digits:
  assumes "length ds = 4" "\<forall>c\<in>set ds. is_digit c"
  shows "year_text (digits_val 0 ds) = ds"
proof -
  have "0 \<le> digits_val 0 ds" "digits_val 0 ds \<le> 9999"
    using digits_val_bounds [OF assms(2)] assms(1) by simp_all
  note y = year_text_val [OF this]
  show ?thesis
    by (rule digits_val_inj) (use y assms in auto)
qed

lemma clock_split:
  fixes h mi se :: int
  assumes "0 \<le> h" "h < 24" "0 \<le> mi" "mi < 60" "0 \<le> se" "se < 60"
  shows "0 \<le> h * 3600 + mi * 60 + se" "h * 3600 + mi * 60 + se < 86400"
    "(h * 3600 + mi * 60 + se) div 3600 = h" "(h * 3600 + mi * 60 + se) mod 3600 div 60 = mi"
    "(h * 3600 + mi * 60 + se) mod 60 = se"
proof -
  have "h * 3600 + mi * 60 + se = 3600 * h + (mi * 60 + se)" by simp
  then have "(h * 3600 + mi * 60 + se) mod 3600 = mi * 60 + se"
    by (rule int_mod_pos_eq) (use assms in auto)
  moreover have "(mi * 60 + se) div 60 = mi" using assms by simp
  ultimately show "(h * 3600 + mi * 60 + se) mod 3600 div 60 = mi" by (simp only:)
  have "h * 3600 + mi * 60 + se = 60 * (h * 60 + mi) + se" by simp
  then show "(h * 3600 + mi * 60 + se) mod 60 = se"
    by (rule int_mod_pos_eq) (use assms in auto)
qed (use assms in auto)

lemma clock_join:
  fixes r :: int
  assumes "0 \<le> r" "r < 86400"
  shows "0 \<le> r div 3600" "r div 3600 < 24" "0 \<le> r mod 3600 div 60" "r mod 3600 div 60 < 60"
    "0 \<le> r mod 60" "r mod 60 < 60" "r = r div 3600 * 3600 + r mod 3600 div 60 * 60 + r mod 60"
proof -
  have "r mod 3600 mod 60 = r mod 60"
    by (rule mod_mod_cancel) simp
  then have "r mod 3600 div 60 * 60 + r mod 60 = r mod 3600"
    using div_mult_mod_eq [of "r mod 3600" 60] by simp
  then show "r = r div 3600 * 3600 + r mod 3600 div 60 * 60 + r mod 60"
    using div_mult_mod_eq [of r 3600] by (simp only: add.assoc)
  show "r div 3600 < 24"
    using div_bounds_int [of 3600 r] assms by simp
  have "r mod 3600 < 3600" by simp
  then have "60 * (r mod 3600 div 60) < 3600"
    using div_bounds_int(1) [of 60 "r mod 3600", OF zero_less_numeral] by (rule le_less_trans [rotated])
  then show "r mod 3600 div 60 < 60" by simp
qed (use assms in \<open>simp_all add: pos_imp_zdiv_nonneg_iff\<close>)

text \<open>A text of the layout that is on the calendar is the text of its own time.\<close>

lemma FormatTime_layout:
  assumes f: "layout_fields s = Some (y, mo, d, h, mi, se)"
    and v: "valid_date y mo d" "h < 24" "mi < 60" "se < 60"
    and t: "t = (day_number y mo d * 86400 + h * 3600 + mi * 60 + se) * second"
  shows "FormatTime t = s"
proof -
  from f obtain y1 y2 y3 y4 m1 m2 d1 d2 h1 h2 i1 i2 s1 s2 where
    s: "s = [y1, y2, y3, y4, CHR ''-'', m1, m2, CHR ''-'', d1, d2, CHR ''T'', h1, h2, CHR '':'', i1, i2,
             CHR '':'', s1, s2, CHR ''Z'']"
    and dig: "\<forall>c\<in>set [y1, y2, y3, y4]. is_digit c" "is_digit m1" "is_digit m2" "is_digit d1" "is_digit d2"
      "is_digit h1" "is_digit h2" "is_digit i1" "is_digit i2" "is_digit s1" "is_digit s2"
    and n: "y = digits_val 0 [y1, y2, y3, y4]" "mo = digits_val 0 [m1, m2]" "d = digits_val 0 [d1, d2]"
      "h = digits_val 0 [h1, h2]" "mi = digits_val 0 [i1, i2]" "se = digits_val 0 [s1, s2]"
    unfolding layout_fields_def by (auto split: list.splits if_splits simp del: digits_val_simps)
  have pos: "0 \<le> h" "0 \<le> mi" "0 \<le> se"
    using n dig digits_val_bounds [of "[h1, h2]"] digits_val_bounds [of "[i1, i2]"]
      digits_val_bounds [of "[s1, s2]"] by (simp_all del: digits_val_simps)
  define r where "r = h * 3600 + mi * 60 + se"
  have r: "0 \<le> r" "r < 86400" "r div 3600 = h" "r mod 3600 div 60 = mi" "r mod 60 = se"
    using clock_split [OF pos(1) v(2) pos(2) v(3) pos(3) v(4)] by (simp_all add: r_def)
  have "t div second = day_number y mo d * 86400 + r"
    by (simp add: t r_def)
  moreover have "(day_number y mo d * 86400 + r) div 86400 = day_number y mo d"
    "(day_number y mo d * 86400 + r) mod 86400 = r"
    using r(1,2) by simp_all
  ultimately have "FormatTime t = year_text y @ ''-'' @ two_digits mo @ ''-'' @ two_digits d @ ''T'' @
      two_digits h @ '':'' @ two_digits mi @ '':'' @ two_digits se @ ''Z''"
    using r(3-5) v(1) by (simp only: FormatTime_def Let_def civil_of_day_number prod.case)
  moreover have "year_text y = [y1, y2, y3, y4]"
    unfolding n by (rule year_text_of_digits) (use dig in auto)
  moreover have "two_digits mo = [m1, m2]" "two_digits d = [d1, d2]" "two_digits h = [h1, h2]"
    "two_digits mi = [i1, i2]" "two_digits se = [s1, s2]"
    unfolding n using dig by (simp_all only: two_digits_of_digits)
  ultimately show ?thesis
    by (simp add: s)
qed

text \<open>A time that was read is written back as the text it was read from.\<close>

lemma FormatTime_parseTime:
  assumes "parseTime s = Some t"
  shows "FormatTime t = s"
  using assms
  by (auto simp: parseTime_def valid_date_def Let_def intro!: FormatTime_layout split: option.splits prod.splits if_splits)

text \<open>The text of a time whose year has four digits is of the layout, and its numbers are on the calendar.\<close>

lemma layout_FormatTime:
  assumes y: "year_of_day (t div second div 86400) \<in> {0..9999}"
  obtains Y M D h mi se where "layout_fields (FormatTime t) = Some (Y, M, D, h, mi, se)"
    "valid_date Y M D" "h < 24" "mi < 60" "se < 60" "day_number Y M D * 86400 + h * 3600 + mi * 60 + se = t div second"
proof -
  define n where "n = t div second div 86400"
  define r where "r = t div second mod 86400"
  obtain Y M D where c: "civil_of_day n = (Y, M, D)" by (cases "civil_of_day n")
  note civ = day_number_civil [OF c]
  have rr: "0 \<le> r" "r < 86400" by (simp_all add: r_def)
  define h mi se where "h = r div 3600" and "mi = r mod 3600 div 60" and "se = r mod 60"
  have b: "0 \<le> h" "h < 24" "0 \<le> mi" "mi < 60" "0 \<le> se" "se < 60" "r = h * 3600 + mi * 60 + se"
    using clock_join [OF rr] by (simp_all only: h_def mi_def se_def)
  have "days_in Y M \<le> 31" "1 \<le> M" "M \<le> 12" "1 \<le> D" "D \<le> days_in Y M"
    using civ(1) by (auto simp: valid_date_def days_in_def month_lens_def nth_Cons' split: if_splits)
  then obtain m1 m2 d1 d2 where md: "two_digits M = [m1, m2]" "is_digit m1" "is_digit m2"
    "digits_val 0 [m1, m2] = M" "two_digits D = [d1, d2]" "is_digit d1" "is_digit d2" "digits_val 0 [d1, d2] = D"
    using two_digits_val [of M] two_digits_val [of D] by force
  obtain h1 h2 i1 i2 s1 s2 where hms: "two_digits h = [h1, h2]" "is_digit h1" "is_digit h2"
    "digits_val 0 [h1, h2] = h" "two_digits mi = [i1, i2]" "is_digit i1" "is_digit i2" "digits_val 0 [i1, i2] = mi"
    "two_digits se = [s1, s2]" "is_digit s1" "is_digit s2" "digits_val 0 [s1, s2] = se"
    using two_digits_val [of h] two_digits_val [of mi] two_digits_val [of se] b by force
  have Y: "0 \<le> Y" "Y \<le> 9999" using y civ(3) by (auto simp: n_def)
  note yt = year_text_val [OF Y]
  obtain y1 y2 y3 y4 where ys: "year_text Y = [y1, y2, y3, y4]"
    using yt(1) by (auto simp: length_Suc_conv numeral_eq_Suc)
  have "FormatTime t = [y1, y2, y3, y4, CHR ''-'', m1, m2, CHR ''-'', d1, d2, CHR ''T'', h1, h2, CHR '':'',
      i1, i2, CHR '':'', s1, s2, CHR ''Z'']"
    using c ys md hms
    by (simp add: FormatTime_def Let_def n_def [symmetric] r_def [symmetric] h_def [symmetric]
        mi_def [symmetric] se_def [symmetric])
  then have "layout_fields (FormatTime t) = Some (Y, M, D, h, mi, se)"
    using yt ys md hms by (simp add: layout_fields_def del: digits_val_simps)
  moreover have "day_number Y M D * 86400 + h * 3600 + mi * 60 + se = t div second"
    using civ(2) b(7) div_mult_mod_eq [of "t div second" 86400]
    by (simp only: n_def r_def add.assoc)
  ultimately show thesis
    using that b civ(1) by blast
qed

text \<open>
  A time whose year has four digits is read back from its text, cut to the second; the one text
  that no reader takes is that of the zero time.
\<close>

lemma parseTime_FormatTime:
  assumes y: "year_of_day (t div second div 86400) \<in> {0..9999}" and nz: "t div second \<noteq> 0"
  shows "parseTime (FormatTime t) = Some (t div second * second)"
proof -
  obtain Y M D h mi se where "layout_fields (FormatTime t) = Some (Y, M, D, h, mi, se)"
    "valid_date Y M D" "h < 24" "mi < 60" "se < 60" "day_number Y M D * 86400 + h * 3600 + mi * 60 + se = t div second"
    using layout_FormatTime [OF y] .
  then show ?thesis
    using nz by (simp add: parseTime_def valid_date_def Let_def)
qed

text \<open>On a text of the layout the reader of RFC 3339 reads the six numbers of the layout.\<close>

lemma parse_rfc3339_layout:
  assumes "layout_fields s = Some (y, mo, d, h, mi, se)"
  shows "parse_rfc3339 s =
    (if valid_date y mo d \<and> h < 24 \<and> mi < 60 \<and> se < 60
     then Some ((day_number y mo d * 86400 + h * 3600 + mi * 60 + se) * second) else None)"
proof -
  from assms obtain y1 y2 y3 y4 m1 m2 d1 d2 h1 h2 i1 i2 s1 s2 where
    s: "s = [y1, y2, y3, y4, CHR ''-'', m1, m2, CHR ''-'', d1, d2, CHR ''T'', h1, h2, CHR '':'', i1, i2,
             CHR '':'', s1, s2, CHR ''Z'']"
    and dig: "list_all (\<lambda>c. is_digit c) [y1, y2, y3, y4, m1, m2, d1, d2, h1, h2, i1, i2, s1, s2]"
    and n: "y = digits_val 0 [y1, y2, y3, y4]" "mo = digits_val 0 [m1, m2]" "d = digits_val 0 [d1, d2]"
      "h = digits_val 0 [h1, h2]" "mi = digits_val 0 [i1, i2]" "se = digits_val 0 [s1, s2]"
    unfolding layout_fields_def by (auto split: list.splits if_splits simp del: digits_val_simps)
  have four: "take 4 (a # b # c # e # r) = [a, b, c, e]" "drop 4 (a # b # c # e # r) = r" for a b c e :: char and r
    by (simp_all add: numeral_eq_Suc)
  have two: "take 2 (a # b # r) = [a, b]" "drop 2 (a # b # r) = r" for a b :: char and r
    by (simp_all add: numeral_eq_Suc)
  show ?thesis
    using dig
    by (simp add: s n parse_rfc3339_def fixed_number_def short_number_def expect_def fraction_def zone_offset_def four two
        valid_date_def del: digits_val_simps)
qed

subsection \<open>Times as they are written and read\<close>

text \<open>The times whose text is of the layout, and what a reader gets of one: the second it is in.\<close>

definition datable :: "instant \<Rightarrow> bool" where
  "datable t \<longleftrightarrow> year_of_day (t div second div 86400) \<in> {0..9999}"

definition whole_second :: "instant \<Rightarrow> instant" where
  "whole_second t = t div second * second"

lemma layout_plain:
  assumes "layout_fields s = Some x" "c \<in> {CHR '' '', CHR 0x09, CHR 0x0A, CHR 0x0B, CHR 0x0C, CHR 0x0D}"
  shows "c \<notin> set s"
proof -
  have "\<not> is_digit c" using assms(2) by auto
  then show ?thesis
    using assms unfolding layout_fields_def by (auto split: list.splits if_splits)
qed

lemma FormatTime_free:
  "datable t \<Longrightarrow> c \<in> {CHR '' '', CHR 0x09, CHR 0x0A, CHR 0x0B, CHR 0x0C, CHR 0x0D} \<Longrightarrow> c \<notin> set (FormatTime t)"
  using layout_plain unfolding datable_def by (metis layout_FormatTime)

lemma parse_FormatTime:
  assumes "datable t"
  shows "parse_rfc3339 (FormatTime t) = Some (whole_second t)"
proof -
  obtain Y M D h mi se where "layout_fields (FormatTime t) = Some (Y, M, D, h, mi, se)"
    "valid_date Y M D" "h < 24" "mi < 60" "se < 60" "day_number Y M D * 86400 + h * 3600 + mi * 60 + se = t div second"
    using layout_FormatTime assms unfolding datable_def by blast
  then show ?thesis
    by (simp add: parse_rfc3339_layout whole_second_def)
qed

end
