(* ===== verification/OsrunMarker.thy ===== *)
theory OsrunMarker
  imports OsrunVocab Calendar
begin

section \<open>The log of an upgrade: markers, their reader and their writer\<close>

text \<open>
  Models \<open>pkg/osrun/marker.go\<close>. A marker is one line of the log of a run. The schemas say which
  fields each kind of marker has; a field knows which words it may be, how a word is put in a
  marker and how it is taken out. The Go closures of a field are the three functions
  \<open>field_valid\<close>, \<open>field_set\<close> and \<open>field_get\<close> on the name of the field. The lemmas show that writing and
  reading are inverse to each other, that the log can be appended to line by line, and that
  lines that are not markers of the run change nothing but the count of ignored lines.
\<close>

subsection \<open>Markers\<close>

datatype mkind =
    MkQueued | MkRun | MkAttempt | MkStartFailed | MkRebootRequested | MkRebootFailed | MkTakeover | MkAck
  | MkBootSeen | MkUnitStart | MkBlockStart | MkBlockDone | MkBlockSkipped | MkStop | MkUnwound
  | MkRefreshDone | MkRehearsalReady | MkRebootPending | MkRebootNotNeeded | MkVerifyDone | MkUnitEnd

primrec mkind_word :: "mkind \<Rightarrow> string" where
  "mkind_word MkQueued = ''QUEUED''"
| "mkind_word MkRun = ''RUN''"
| "mkind_word MkAttempt = ''ATTEMPT''"
| "mkind_word MkStartFailed = ''START_FAILED''"
| "mkind_word MkRebootRequested = ''REBOOT_REQUESTED''"
| "mkind_word MkRebootFailed = ''REBOOT_FAILED''"
| "mkind_word MkTakeover = ''TAKEOVER''"
| "mkind_word MkAck = ''ACK''"
| "mkind_word MkBootSeen = ''BOOT_SEEN''"
| "mkind_word MkUnitStart = ''UNIT_START''"
| "mkind_word MkBlockStart = ''BLOCK_START''"
| "mkind_word MkBlockDone = ''BLOCK_DONE''"
| "mkind_word MkBlockSkipped = ''BLOCK_SKIPPED''"
| "mkind_word MkStop = ''STOP''"
| "mkind_word MkUnwound = ''UNWOUND''"
| "mkind_word MkRefreshDone = ''REFRESH_DONE''"
| "mkind_word MkRehearsalReady = ''REHEARSAL_READY''"
| "mkind_word MkRebootPending = ''REBOOT_PENDING''"
| "mkind_word MkRebootNotNeeded = ''REBOOT_NOT_NEEDED''"
| "mkind_word MkVerifyDone = ''VERIFY_DONE''"
| "mkind_word MkUnitEnd = ''UNIT_END''"

definition MarkerKinds :: "mkind list" where
  "MarkerKinds =
     [MkQueued, MkRun, MkAttempt, MkStartFailed, MkRebootRequested, MkRebootFailed, MkTakeover, MkAck,
      MkBootSeen, MkUnitStart, MkBlockStart, MkBlockDone, MkBlockSkipped, MkStop, MkUnwound, MkRefreshDone,
      MkRehearsalReady, MkRebootPending, MkRebootNotNeeded, MkVerifyDone, MkUnitEnd]"

interpretation mk: vocabulary mkind_word MarkerKinds
proof
  show "x \<in> set MarkerKinds" for x
    by (cases x) (simp_all add: MarkerKinds_def)
  show "distinct (map mkind_word MarkerKinds)"
    by (simp add: MarkerKinds_def)
  show "plain_word (mkind_word x)" for x
    by (cases x) simp_all
qed

text \<open>The words of \<open>Marker.Result\<close>.\<close>

datatype mk_result =
    ResDiscard | ResAcknowledge | ResOk | ResPartial | ResYes | ResNo | ResStopped

primrec result_word :: "mk_result \<Rightarrow> string" where
  "result_word ResDiscard = ''discard''"
| "result_word ResAcknowledge = ''acknowledge''"
| "result_word ResOk = ''ok''"
| "result_word ResPartial = ''partial''"
| "result_word ResYes = ''yes''"
| "result_word ResNo = ''no''"
| "result_word ResStopped = ''stopped''"

definition Results :: "mk_result list" where
  "Results = [ResDiscard, ResAcknowledge, ResOk, ResPartial, ResYes, ResNo, ResStopped]"

interpretation rs: vocabulary result_word Results
proof
  show "x \<in> set Results" for x
    by (cases x) (simp_all add: Results_def)
  show "distinct (map result_word Results)"
    by (simp add: Results_def)
  show "plain_word (result_word x)" for x
    by (cases x) simp_all
qed

record marker =
  mk_Kind :: mkind
  mk_N :: int
  mk_At :: instant
  mk_RunID :: string
  mk_Hop :: string
  mk_PlanID :: string
  mk_RunKind :: "run_kind option"
  mk_Phase :: "phase option"
  mk_From :: "block option"
  mk_Who :: "who option"
  mk_Boot :: string
  mk_PID :: int
  mk_Index :: int
  mk_ID :: "stop_id option"
  mk_RC :: int
  mk_Class :: "stop_class option"
  mk_PNR :: bool
  mk_Result :: "mk_result option"
  mk_Why :: string
  mk_Kernel :: string

text \<open>\<open>Marker{Kind: k, N: n}\<close>\<close>

definition new_marker :: "mkind \<Rightarrow> int \<Rightarrow> marker" where
  "new_marker k n =
     \<lparr>mk_Kind = k, mk_N = n, mk_At = zero_time, mk_RunID = [], mk_Hop = [], mk_PlanID = [], mk_RunKind = None,
      mk_Phase = None, mk_From = None, mk_Who = None, mk_Boot = [], mk_PID = 0, mk_Index = 0, mk_ID = None,
      mk_RC = 0, mk_Class = None, mk_PNR = False, mk_Result = None, mk_Why = [], mk_Kernel = []\<rparr>"

subsection \<open>Words of a marker\<close>

abbreviation is_lower_hex :: "char \<Rightarrow> bool" where
  "is_lower_hex c \<equiv> is_digit c \<or> (CHR ''a'' \<le> c \<and> c \<le> CHR ''f'')"

definition ValidNonce :: "string \<Rightarrow> bool" where
  "ValidNonce s \<longleftrightarrow> length s = 32 \<and> list_all (\<lambda>c. is_lower_hex c) s"

definition ValidUUID :: "string \<Rightarrow> bool" where
  "ValidUUID s \<longleftrightarrow> length s = 36 \<and>
     list_all (\<lambda>(i, c). if i = 8 \<or> i = 13 \<or> i = 18 \<or> i = 23 then c = CHR ''-'' else is_lower_hex c)
       (enumerate 0 s)"

definition token_char :: "char \<Rightarrow> bool" where
  "token_char c \<longleftrightarrow>
     (CHR ''a'' \<le> c \<and> c \<le> CHR ''z'') \<or> (CHR ''A'' \<le> c \<and> c \<le> CHR ''Z'') \<or> is_digit c \<or>
     c = CHR ''_'' \<or> c = CHR ''.'' \<or> c = CHR '':'' \<or> c = CHR ''+'' \<or> c = CHR ''~'' \<or> c = CHR ''-''"

definition isToken :: "string \<Rightarrow> bool" where
  "isToken s \<longleftrightarrow> length s \<noteq> 0 \<and> length s \<le> 64 \<and> list_all token_char s"

definition smallInt :: "string \<Rightarrow> int \<Rightarrow> int option" where
  "smallInt s mx =
     (if s = [] \<or> length s > 9 \<or> (length s > 1 \<and> hd s = CHR ''0'') then None
      else if \<not> list_all (\<lambda>c. is_digit c) s then None
      else (let n = digits_val 0 s in if n \<le> mx then Some n else None))"

definition dash :: "string \<Rightarrow> string" where
  "dash s = (if s = [] then ''-'' else s)"

definition undash :: "string \<Rightarrow> string" where
  "undash s = (if s = ''-'' then [] else s)"

definition isClassWord :: "string \<Rightarrow> bool" where
  "isClassWord s \<longleftrightarrow> s \<noteq> [] \<and> length s \<le> 32 \<and> list_all (\<lambda>c. (CHR ''a'' \<le> c \<and> c \<le> CHR ''z'') \<or> c = CHR ''_'') s"

subsection \<open>Fields and schemas\<close>

datatype mfield =
    FTime | FPhase | FFrom | FWho | FRunID | FHop | FPlan | FRunKind | FBoot | FPID | FIndex | FBlock
  | FStopID | FRC | FClass | FPNR | FAck | FUnwound | FYesNo | FEnd | FWhy | FKernel

primrec field_valid :: "mfield \<Rightarrow> string \<Rightarrow> bool" where
  "field_valid FTime = (\<lambda>s. parseTime s \<noteq> None)"
| "field_valid FPhase = ValidPhase"
| "field_valid FFrom = (\<lambda>s. s = ''-'' \<or> ValidBlock s)"
| "field_valid FWho = (\<lambda>s. s \<in> set (map who_word Whos))"
| "field_valid FRunID = ValidUUID"
| "field_valid FHop = isToken"
| "field_valid FPlan = (\<lambda>s. s = ''-'' \<or> isToken s)"
| "field_valid FRunKind = (\<lambda>s. s \<in> set (map run_kind_word RunKinds))"
| "field_valid FBoot = (\<lambda>s. s = ''-'' \<or> ValidUUID s)"
| "field_valid FPID = (\<lambda>s. smallInt s 99999999 \<noteq> None)"
| "field_valid FIndex = (\<lambda>s. smallInt s 999 \<noteq> None)"
| "field_valid FBlock = ValidBlock"
| "field_valid FStopID = (\<lambda>s. ValidBlock s \<or> s \<in> set [''driver'', ''list'', ''unwind''])"
| "field_valid FRC = (\<lambda>s. smallInt s 255 \<noteq> None)"
| "field_valid FClass = isClassWord"
| "field_valid FPNR = (\<lambda>s. s \<in> set [''0'', ''1''])"
| "field_valid FAck = (\<lambda>s. s \<in> set [''discard'', ''acknowledge''])"
| "field_valid FUnwound = (\<lambda>s. s \<in> set [''ok'', ''partial''])"
| "field_valid FYesNo = (\<lambda>s. s \<in> set [''yes'', ''no''])"
| "field_valid FEnd = (\<lambda>s. s \<in> set [''ok'', ''stopped''])"
| "field_valid FWhy = isToken"
| "field_valid FKernel = isToken"

text \<open>The class of a stop: a word that the core has no sentence for is \<open>unknown\<close>.\<close>

definition class_of_word :: "string \<Rightarrow> stop_class" where
  "class_of_word s = (case lookup_word class_word Classes s of None \<Rightarrow> ClassUnknown | Some c \<Rightarrow> c)"

definition int_of_word :: "string \<Rightarrow> int \<Rightarrow> int" where
  "int_of_word s mx = (case smallInt s mx of None \<Rightarrow> 0 | Some n \<Rightarrow> n)"

primrec field_set :: "mfield \<Rightarrow> marker \<Rightarrow> string \<Rightarrow> marker" where
  "field_set FTime m s = m\<lparr>mk_At := (case parseTime s of None \<Rightarrow> zero_time | Some t \<Rightarrow> t)\<rparr>"
| "field_set FPhase m s = m\<lparr>mk_Phase := lookup_word phase_word Phases s\<rparr>"
| "field_set FFrom m s = m\<lparr>mk_From := lookup_word block_word BlockIDs (undash s)\<rparr>"
| "field_set FWho m s = m\<lparr>mk_Who := lookup_word who_word Whos s\<rparr>"
| "field_set FRunID m s = m\<lparr>mk_RunID := s\<rparr>"
| "field_set FHop m s = m\<lparr>mk_Hop := s\<rparr>"
| "field_set FPlan m s = m\<lparr>mk_PlanID := undash s\<rparr>"
| "field_set FRunKind m s = m\<lparr>mk_RunKind := lookup_word run_kind_word RunKinds s\<rparr>"
| "field_set FBoot m s = m\<lparr>mk_Boot := undash s\<rparr>"
| "field_set FPID m s = m\<lparr>mk_PID := int_of_word s 99999999\<rparr>"
| "field_set FIndex m s = m\<lparr>mk_Index := int_of_word s 999\<rparr>"
| "field_set FBlock m s = m\<lparr>mk_ID := lookup_word stop_id_word StopIDs s\<rparr>"
| "field_set FStopID m s = m\<lparr>mk_ID := lookup_word stop_id_word StopIDs s\<rparr>"
| "field_set FRC m s = m\<lparr>mk_RC := int_of_word s 255\<rparr>"
| "field_set FClass m s = m\<lparr>mk_Class := Some (class_of_word s)\<rparr>"
| "field_set FPNR m s = m\<lparr>mk_PNR := (s = ''1'')\<rparr>"
| "field_set FAck m s = m\<lparr>mk_Result := lookup_word result_word Results s\<rparr>"
| "field_set FUnwound m s = m\<lparr>mk_Result := lookup_word result_word Results s\<rparr>"
| "field_set FYesNo m s = m\<lparr>mk_Result := lookup_word result_word Results s\<rparr>"
| "field_set FEnd m s = m\<lparr>mk_Result := lookup_word result_word Results s\<rparr>"
| "field_set FWhy m s = m\<lparr>mk_Why := s\<rparr>"
| "field_set FKernel m s = m\<lparr>mk_Kernel := s\<rparr>"

primrec field_get :: "mfield \<Rightarrow> marker \<Rightarrow> string" where
  "field_get FTime m = FormatTime (mk_At m)"
| "field_get FPhase m = opt_word phase_word (mk_Phase m)"
| "field_get FFrom m = dash (opt_word block_word (mk_From m))"
| "field_get FWho m = opt_word who_word (mk_Who m)"
| "field_get FRunID m = mk_RunID m"
| "field_get FHop m = mk_Hop m"
| "field_get FPlan m = dash (mk_PlanID m)"
| "field_get FRunKind m = opt_word run_kind_word (mk_RunKind m)"
| "field_get FBoot m = dash (mk_Boot m)"
| "field_get FPID m = itoa (mk_PID m)"
| "field_get FIndex m = itoa (mk_Index m)"
| "field_get FBlock m = opt_word stop_id_word (mk_ID m)"
| "field_get FStopID m = opt_word stop_id_word (mk_ID m)"
| "field_get FRC m = itoa (mk_RC m)"
| "field_get FClass m = opt_word class_word (mk_Class m)"
| "field_get FPNR m = (if mk_PNR m then ''1'' else ''0'')"
| "field_get FAck m = opt_word result_word (mk_Result m)"
| "field_get FUnwound m = opt_word result_word (mk_Result m)"
| "field_get FYesNo m = opt_word result_word (mk_Result m)"
| "field_get FEnd m = opt_word result_word (mk_Result m)"
| "field_get FWhy m = mk_Why m"
| "field_get FKernel m = mk_Kernel m"

text \<open>A schema: whether the marker belongs to the run (its number is 0), and its fields.\<close>

primrec schemas :: "mkind \<Rightarrow> bool \<times> mfield list" where
  "schemas MkQueued = (True, [FTime])"
| "schemas MkRun = (True, [FRunID, FHop, FPlan, FRunKind, FBoot])"
| "schemas MkAttempt = (False, [FPhase, FFrom, FWho, FTime])"
| "schemas MkStartFailed = (False, [FTime])"
| "schemas MkRebootRequested = (True, [FTime])"
| "schemas MkRebootFailed = (True, [FTime])"
| "schemas MkTakeover = (True, [FTime])"
| "schemas MkAck = (True, [FAck, FTime])"
| "schemas MkBootSeen = (True, [FBoot, FTime])"
| "schemas MkUnitStart = (False, [FPhase, FBoot, FPID, FTime])"
| "schemas MkBlockStart = (False, [FIndex, FBlock, FTime])"
| "schemas MkBlockDone = (False, [FIndex, FBlock, FTime])"
| "schemas MkBlockSkipped = (False, [FIndex, FBlock])"
| "schemas MkStop = (False, [FIndex, FStopID, FRC, FClass, FPNR, FTime])"
| "schemas MkUnwound = (False, [FUnwound, FTime])"
| "schemas MkRefreshDone = (False, [FYesNo, FWhy, FTime])"
| "schemas MkRehearsalReady = (False, [FTime])"
| "schemas MkRebootPending = (False, [FBoot, FKernel, FTime])"
| "schemas MkRebootNotNeeded = (False, [FKernel, FTime])"
| "schemas MkVerifyDone = (False, [FBoot, FTime])"
| "schemas MkUnitEnd = (False, [FEnd, FTime])"

subsection \<open>Reading and writing a line\<close>

definition markerPrefix :: string where
  "markerPrefix = ''CASAOS_OSU_''"

text \<open>The loop over the fields of a schema: the first word that is not valid ends it.\<close>

fun set_fields :: "mfield list \<Rightarrow> string list \<Rightarrow> marker \<Rightarrow> marker option" where
  "set_fields (f # fs) (w # ws) m = (if \<not> field_valid f w then None else set_fields fs ws (field_set f m w))"
| "set_fields _ _ m = Some m"

definition parseMarker :: "string \<Rightarrow> (marker \<times> string) option" where
  "parseMarker line =
     (case cut_prefix markerPrefix line of
        None \<Rightarrow> None
      | Some rest \<Rightarrow>
          if length line > markerLineMax then None
          else (case split_on (CHR '' '') rest of
             kind # nonce # num # ws \<Rightarrow>
               (case lookup_word mkind_word MarkerKinds kind of
                  None \<Rightarrow> None
                | Some k \<Rightarrow>
                    if \<not> ValidNonce nonce then None
                    else (case smallInt num 999 of
                       None \<Rightarrow> None
                     | Some n \<Rightarrow>
                         if fst (schemas k) \<noteq> (n = 0) \<or> length ws \<noteq> length (snd (schemas k)) then None
                         else map_option (\<lambda>m. (m, nonce)) (set_fields (snd (schemas k)) ws (new_marker k n))))
           | _ \<Rightarrow> None))"

datatype line_error = NotAMarker | NotAValidMarker mkind

definition Line :: "marker \<Rightarrow> string \<Rightarrow> line_error + string" where
  "Line m nonce =
     (if \<not> ValidNonce nonce then Inl NotAMarker
      else (let ws = (markerPrefix @ mkind_word (mk_Kind m)) # nonce # itoa (mk_N m) #
                       map (\<lambda>f. field_get f m) (snd (schemas (mk_Kind m)));
                line = join_on (CHR '' '') ws
            in (case parseMarker line of
                  None \<Rightarrow> Inl (NotAValidMarker (mk_Kind m))
                | Some (_, got) \<Rightarrow>
                    if got \<noteq> nonce then Inl (NotAValidMarker (mk_Kind m)) else Inr (line @ [CHR 0x0A]))))"

subsection \<open>Reading a log\<close>

datatype log_error = ErrRead | ErrMarkersTooLarge

text \<open>The loop over the lines after the first one: a line that is no marker of the run is counted.\<close>

fun scan_lines :: "string \<Rightarrow> string list \<Rightarrow> marker list \<times> nat" where
  "scan_lines nonce [] = ([], 0)"
| "scan_lines nonce (l # ls) =
     (let (ms, ignored) = scan_lines nonce ls in
      case parseMarker l of
        None \<Rightarrow> (ms, Suc ignored)
      | Some (m, got) \<Rightarrow>
          if got \<noteq> nonce \<or> mk_Kind m = MkQueued then (ms, Suc ignored) else (m # ms, ignored))"

text \<open>
  The reader of a log. Its argument is all that the \<open>io.Reader\<close> has to give, \<open>None\<close> when reading
  fails. The answer is the nonce, the markers, how many lines were ignored, and the error.
\<close>

definition ParseMarkers :: "string option \<Rightarrow> string \<times> marker list \<times> nat \<times> log_error option" where
  "ParseMarkers r =
     (case r of
        None \<Rightarrow> ([], [], 0, Some ErrRead)
      | Some bytes \<Rightarrow>
          (let large = length bytes > markersMax;
               data = (if large then take markersMax bytes else bytes);
               err = (if large then Some ErrMarkersTooLarge else None);
               parts = split_on (CHR 0x0A) data;
               unfinished = (if last parts \<noteq> [] then 1 else 0);
               lines = butlast parts
           in (case lines of
                 [] \<Rightarrow> ([], [], unfinished, err)
               | l # ls \<Rightarrow>
                   (case parseMarker l of
                      None \<Rightarrow> ([], [], unfinished + length lines, err)
                    | Some (first, nonce) \<Rightarrow>
                        if mk_Kind first \<noteq> MkQueued then ([], [], unfinished + length lines, err)
                        else (let (ms, ignored) = scan_lines nonce ls
                              in (nonce, first # ms, unfinished + ignored, err))))))"

fun BootKnown :: "marker list \<Rightarrow> string \<Rightarrow> bool" where
  "BootKnown ms boot =
     (if boot = [] then False
      else list_ex (\<lambda>m. (mk_Kind m = MkRun \<or> mk_Kind m = MkBootSeen) \<and> mk_Boot m = boot) ms)"

subsection \<open>What a valid word looks like\<close>

lemma char_class_plain:
  "is_lower_hex c \<Longrightarrow> c \<noteq> CHR '' '' \<and> c \<noteq> CHR 0x0A"
  "is_digit c \<Longrightarrow> c \<noteq> CHR '' '' \<and> c \<noteq> CHR 0x0A"
  "token_char c \<Longrightarrow> c \<noteq> CHR '' '' \<and> c \<noteq> CHR 0x0A"
  "CHR ''a'' \<le> c \<Longrightarrow> c \<noteq> CHR '' '' \<and> c \<noteq> CHR 0x0A"
  by (auto simp: token_char_def)

lemma plain_word_list_all:
  assumes "list_all P s" and "\<And>c. P c \<Longrightarrow> c \<noteq> CHR '' '' \<and> c \<noteq> CHR 0x0A" and "s \<noteq> []"
  shows "plain_word s"
  using assms by (auto simp: list_all_iff)

lemma isToken_plain: "isToken s \<Longrightarrow> plain_word s"
  unfolding isToken_def by (rule plain_word_list_all [of token_char]) (auto dest: char_class_plain(3))

lemma ValidNonce_plain: "ValidNonce s \<Longrightarrow> plain_word s"
  unfolding ValidNonce_def
  by (rule plain_word_list_all [of is_lower_hex]) (auto dest: char_class_plain(1))

lemma ValidUUID_plain: "ValidUUID s \<Longrightarrow> plain_word s"
proof -
  assume s: "ValidUUID s"
  have "c = CHR ''-'' \<or> is_lower_hex c" if c: "c \<in> set s" for c
  proof -
    from c obtain i where "i < length s" "s ! i = c" by (auto simp: in_set_conv_nth)
    then have "(i, c) \<in> set (enumerate 0 s)" by (simp add: in_set_enumerate_eq)
    with s show ?thesis by (auto simp: ValidUUID_def list_all_iff split: if_splits)
  qed
  then have "list_all (\<lambda>c. c = CHR ''-'' \<or> is_lower_hex c) s" by (simp add: list_all_iff)
  moreover have "s \<noteq> []" using s by (auto simp: ValidUUID_def)
  ultimately show ?thesis
    by (intro plain_word_list_all [of "\<lambda>c. c = CHR ''-'' \<or> is_lower_hex c"]) (auto dest: char_class_plain(1))
qed

lemma smallInt_plain: "smallInt s mx = Some n \<Longrightarrow> plain_word s"
  by (rule plain_word_list_all [of is_digit])
    (auto simp: smallInt_def Let_def dest: char_class_plain(2) split: if_splits)

lemma isClassWord_plain: "isClassWord s \<Longrightarrow> plain_word s"
  unfolding isClassWord_def
  by (rule plain_word_list_all [of "\<lambda>c. (CHR ''a'' \<le> c \<and> c \<le> CHR ''z'') \<or> c = CHR ''_''"])
    (auto dest: char_class_plain(4))

lemma parseTime_plain:
  assumes "parseTime s = Some t"
  shows "plain_word s"
proof -
  from assms have "layout_fields s \<noteq> None" by (auto simp: parseTime_def split: option.splits)
  then have "list_all (\<lambda>c. is_digit c \<or> c \<in> set ''-T:Z'') s" "s \<noteq> []"
    by (auto simp: layout_fields_def split: list.splits if_splits)
  then show ?thesis
    by (intro plain_word_list_all [of "\<lambda>c. is_digit c \<or> c \<in> set ''-T:Z''"]) (auto dest: char_class_plain(2))
qed

lemma vocab_word_plain:
  "ValidPhase s \<Longrightarrow> plain_word s" "ValidBlock s \<Longrightarrow> plain_word s"
  using ph.plain bl.plain by (auto simp: ValidPhase_def ValidBlock_def)

lemma field_valid_plain: "field_valid f s \<Longrightarrow> plain_word s"
  by (cases f)
    (auto simp: wh.plain rk.plain
       dest: vocab_word_plain isToken_plain ValidUUID_plain smallInt_plain isClassWord_plain parseTime_plain)

subsection \<open>The laws of the fields\<close>

lemma nat_digits_digits_val:
  "s \<noteq> [] \<Longrightarrow> \<forall>c\<in>set s. is_digit c \<Longrightarrow> length s = 1 \<or> hd s \<noteq> CHR ''0'' \<Longrightarrow>
     nat_digits (nat (digits_val 0 s)) = s"
proof (induction s rule: rev_induct)
  case Nil
  then show ?case by simp
next
  case (snoc x xs)
  have x: "is_digit x" using snoc.prems by simp
  note xr = digit_val_range [OF x]
  show ?case
  proof (cases "xs = []")
    case True
    with x xr show ?thesis by (subst nat_digits.simps) (simp add: digit_char_digit_val nat_less_iff)
  next
    case False
    with snoc have hd: "hd xs \<noteq> CHR ''0''" by simp
    from False snoc have IH: "nat_digits (nat (digits_val 0 xs)) = xs" using hd by simp
    have "digits_val 0 xs \<noteq> 0"
    proof
      assume "digits_val 0 xs = 0"
      with IH have "xs = ''0''" by simp
      with hd show False by simp
    qed
    with digits_val_bounds [of xs] snoc.prems have pos: "1 \<le> digits_val 0 xs" by simp
    have "nat (digits_val 0 xs * 10 + digit_val x) = nat (digits_val 0 xs) * 10 + nat (digit_val x)"
      using pos xr by (simp add: nat_add_distrib nat_mult_distrib)
    moreover have "nat (digit_val x) < 10" using xr by linarith
    ultimately have "nat (digits_val 0 xs * 10 + digit_val x) div 10 = nat (digits_val 0 xs)"
      "nat (digits_val 0 xs * 10 + digit_val x) mod 10 = nat (digit_val x)"
      by simp_all
    moreover have "\<not> nat (digits_val 0 xs * 10 + digit_val x) < 10"
      using pos xr by linarith
    ultimately show ?thesis
      by (subst nat_digits.simps) (simp add: IH digit_char_digit_val [OF x])
  qed
qed

lemma itoa_smallInt: "smallInt s mx = Some n \<Longrightarrow> itoa n = s"
proof -
  assume a: "smallInt s mx = Some n"
  then have s: "s \<noteq> []" "\<forall>c\<in>set s. is_digit c" "length s = 1 \<or> hd s \<noteq> CHR ''0''" and n: "n = digits_val 0 s"
    by (cases s; auto simp: smallInt_def Let_def list_all_iff split: if_splits)+
  from digits_val_bounds [OF s(2)] n have "0 \<le> n" by simp
  with nat_digits_digits_val [OF s] n show "itoa n = s" by (simp add: itoa_def)
qed

lemma smallInt_itoa: "smallInt (itoa n) mx = Some k \<Longrightarrow> k = n"
  by (auto simp: smallInt_def itoa_def Let_def split: if_splits)

text \<open>What a word is after it was read and written again: only the class of a stop can change.\<close>

definition field_canon :: "mfield \<Rightarrow> string \<Rightarrow> string" where
  "field_canon f s = (if f = FClass then class_word (class_of_word s) else s)"

text \<open>Which part of a marker a field is.\<close>

primrec field_slot :: "mfield \<Rightarrow> nat" where
  "field_slot FTime = 0"
| "field_slot FPhase = 1"
| "field_slot FFrom = 2"
| "field_slot FWho = 3"
| "field_slot FRunID = 4"
| "field_slot FHop = 5"
| "field_slot FPlan = 6"
| "field_slot FRunKind = 7"
| "field_slot FBoot = 8"
| "field_slot FPID = 9"
| "field_slot FIndex = 10"
| "field_slot FBlock = 11"
| "field_slot FStopID = 11"
| "field_slot FRC = 12"
| "field_slot FClass = 13"
| "field_slot FPNR = 14"
| "field_slot FAck = 15"
| "field_slot FUnwound = 15"
| "field_slot FYesNo = 15"
| "field_slot FEnd = 15"
| "field_slot FWhy = 16"
| "field_slot FKernel = 17"

text \<open>A field of one marker copied to another, as far as a line can carry it.\<close>

primrec field_copy :: "mfield \<Rightarrow> marker \<Rightarrow> marker \<Rightarrow> marker" where
  "field_copy FTime m a = a\<lparr>mk_At := mk_At m div second * second\<rparr>"
| "field_copy FPhase m a = a\<lparr>mk_Phase := mk_Phase m\<rparr>"
| "field_copy FFrom m a = a\<lparr>mk_From := mk_From m\<rparr>"
| "field_copy FWho m a = a\<lparr>mk_Who := mk_Who m\<rparr>"
| "field_copy FRunID m a = a\<lparr>mk_RunID := mk_RunID m\<rparr>"
| "field_copy FHop m a = a\<lparr>mk_Hop := mk_Hop m\<rparr>"
| "field_copy FPlan m a = a\<lparr>mk_PlanID := undash (mk_PlanID m)\<rparr>"
| "field_copy FRunKind m a = a\<lparr>mk_RunKind := mk_RunKind m\<rparr>"
| "field_copy FBoot m a = a\<lparr>mk_Boot := undash (mk_Boot m)\<rparr>"
| "field_copy FPID m a = a\<lparr>mk_PID := mk_PID m\<rparr>"
| "field_copy FIndex m a = a\<lparr>mk_Index := mk_Index m\<rparr>"
| "field_copy FBlock m a = a\<lparr>mk_ID := mk_ID m\<rparr>"
| "field_copy FStopID m a = a\<lparr>mk_ID := mk_ID m\<rparr>"
| "field_copy FRC m a = a\<lparr>mk_RC := mk_RC m\<rparr>"
| "field_copy FClass m a = a\<lparr>mk_Class := mk_Class m\<rparr>"
| "field_copy FPNR m a = a\<lparr>mk_PNR := mk_PNR m\<rparr>"
| "field_copy FAck m a = a\<lparr>mk_Result := mk_Result m\<rparr>"
| "field_copy FUnwound m a = a\<lparr>mk_Result := mk_Result m\<rparr>"
| "field_copy FYesNo m a = a\<lparr>mk_Result := mk_Result m\<rparr>"
| "field_copy FEnd m a = a\<lparr>mk_Result := mk_Result m\<rparr>"
| "field_copy FWhy m a = a\<lparr>mk_Why := mk_Why m\<rparr>"
| "field_copy FKernel m a = a\<lparr>mk_Kernel := mk_Kernel m\<rparr>"

text \<open>The marker that a line carries: the fields of its kind, and nothing of the others.\<close>

definition carried :: "marker \<Rightarrow> marker" where
  "carried m = foldl (\<lambda>a f. field_copy f m a) (new_marker (mk_Kind m) (mk_N m)) (snd (schemas (mk_Kind m)))"

lemma word_in_vocabulary:
  "ValidPhase s \<Longrightarrow> s \<in> phase_word ` set Phases"
  "ValidBlock s \<Longrightarrow> s \<in> block_word ` set BlockIDs"
  "ValidBlock s \<Longrightarrow> s \<in> stop_id_word ` set StopIDs"
  "s \<in> set [''driver'', ''list'', ''unwind''] \<Longrightarrow> s \<in> stop_id_word ` set StopIDs"
  "s \<in> set [''discard'', ''acknowledge''] \<Longrightarrow> s \<in> result_word ` set Results"
  "s \<in> set [''ok'', ''partial''] \<Longrightarrow> s \<in> result_word ` set Results"
  "s \<in> set [''yes'', ''no''] \<Longrightarrow> s \<in> result_word ` set Results"
  "s \<in> set [''ok'', ''stopped''] \<Longrightarrow> s \<in> result_word ` set Results"
  by (auto simp: ValidPhase_def ValidBlock_def StopIDs_def Results_def image_iff)

lemmas opt_word_lookups =
  ph.opt_word_lookup bl.opt_word_lookup wh.opt_word_lookup rk.opt_word_lookup si.opt_word_lookup
  rs.opt_word_lookup

lemmas lookup_opt_words =
  ph.lookup_opt_word bl.lookup_opt_word wh.lookup_opt_word rk.lookup_opt_word si.lookup_opt_word
  rs.lookup_opt_word

lemma dash_undash: "s \<noteq> [] \<Longrightarrow> dash (undash s) = s"
  by (auto simp: dash_def undash_def)

lemma undash_dash [simp]: "undash (dash s) = undash s"
  by (auto simp: dash_def undash_def)

lemma field_get_set:
  assumes "field_valid f s"
  shows "field_get f (field_set f m s) = field_canon f s"
proof (cases f)
  case FFrom
  have "opt_word block_word (lookup_word block_word BlockIDs (undash s)) = undash s"
    using assms FFrom word_in_vocabulary(2) bl.opt_word_lookup
    by (cases "s = ''-''") (auto simp: undash_def opt_word_def)
  with FFrom assms show ?thesis
    using field_valid_plain [OF assms] by (simp add: field_canon_def dash_undash)
next
  case FClass
  then show ?thesis by (simp add: field_canon_def opt_word_def)
next
  case FPNR
  with assms show ?thesis by (auto simp: field_canon_def)
qed (use assms field_valid_plain [OF assms] in
      \<open>auto simp: field_canon_def opt_word_lookups int_of_word_def dash_undash FormatTime_parseTime itoa_smallInt
         word_in_vocabulary simp del: list.set\<close>)

lemma length_year_text: "length (year_text y) = 4 \<Longrightarrow> 0 \<le> y \<and> y \<le> 9999"
proof -
  assume a: "length (year_text y) = 4"
  then have l: "length (nat_digits (nat \<bar>y\<bar>)) \<le> 4" and y: "0 \<le> y"
    by (auto simp: year_text_def Let_def split: if_splits)
  have "int (nat \<bar>y\<bar>) < 10 ^ length (nat_digits (nat \<bar>y\<bar>))"
    using digits_val_bounds [of "nat_digits (nat \<bar>y\<bar>)"] nat_digits_all_digits by fastforce
  also have "\<dots> \<le> 10 ^ 4" by (rule power_increasing) (use l in auto)
  finally show ?thesis using y by simp
qed

lemma length_two_digits: "length (two_digits n) = 2"
  by (simp add: two_digits_def)

lemma length_FormatTime:
  assumes "civil_of_day (t div second div 86400) = (y, m, d)"
  shows "length (FormatTime t) = length (year_text y) + 16"
  unfolding FormatTime_def Let_def assms prod.case length_append length_two_digits by simp

lemma layout_fields_length: "layout_fields s = Some x \<Longrightarrow> length s = 20"
  by (auto simp: layout_fields_def split: list.splits)

lemma parseTime_FormatTime_cut: "parseTime (FormatTime t) = Some u \<Longrightarrow> u = t div second * second"
proof -
  assume a: "parseTime (FormatTime t) = Some u"
  obtain y m d where c: "civil_of_day (t div second div 86400) = (y, m, d)"
    by (cases "civil_of_day (t div second div 86400)")
  have "length (FormatTime t) = 20"
    using a layout_fields_length by (auto simp: parseTime_def split: option.splits)
  then have "length (year_text y) = 4"
    using length_FormatTime [OF c] by simp
  then have "year_of_day (t div second div 86400) \<in> {0..9999}"
    using length_year_text day_number_civil(3) [OF c] by auto
  moreover have "t div second \<noteq> 0"
  proof
    assume z: "t div second = 0"
    have "parseTime (FormatTime t) = parseTime (FormatTime 0)"
      using z by (simp add: FormatTime_def)
    also have "\<dots> = None" by code_simp
    finally show False using a by simp
  qed
  ultimately show "u = t div second * second" using parseTime_FormatTime a by simp
qed

lemma field_set_get:
  assumes "field_valid f (field_get f m)"
  shows "field_set f a (field_get f m) = field_copy f m a"
proof (cases f)
  case FTime
  with assms show ?thesis by (auto dest: parseTime_FormatTime_cut)
next
  case FFrom
  have "block_word b \<noteq> ''-''" for b by (cases b) simp_all
  with FFrom show ?thesis by (auto simp: dash_def undash_def opt_word_def split: option.splits)
next
  case FClass
  with assms show ?thesis
    by (cases "mk_Class m") (auto simp: opt_word_def class_of_word_def isClassWord_def)
qed (use assms in \<open>auto simp: lookup_opt_words int_of_word_def dest: smallInt_itoa\<close>)

lemma field_get_set_other: "field_slot f \<noteq> field_slot g \<Longrightarrow> field_get f (field_set g m s) = field_get f m"
  by (cases f; cases g; simp)

lemma schema_slots_distinct: "distinct (map field_slot (snd (schemas k)))"
  by (cases k) simp_all

lemma field_set_frame [simp]: "mk_Kind (field_set f m s) = mk_Kind m" "mk_N (field_set f m s) = mk_N m"
  by (cases f; simp)+

lemma field_copy_frame [simp]: "mk_Kind (field_copy f m a) = mk_Kind a" "mk_N (field_copy f m a) = mk_N a"
  by (cases f; simp)+

lemma carried_frame [simp]: "mk_Kind (carried m) = mk_Kind m" "mk_N (carried m) = mk_N m"
proof -
  have "mk_Kind (foldl (\<lambda>a f. field_copy f m a) a fs) = mk_Kind a \<and> mk_N (foldl (\<lambda>a f. field_copy f m a) a fs) = mk_N a"
    for a fs
    by (induction fs arbitrary: a) simp_all
  then show "mk_Kind (carried m) = mk_Kind m" "mk_N (carried m) = mk_N m"
    by (simp_all add: carried_def new_marker_def)
qed

subsection \<open>Lists of fields\<close>

lemma set_fields_Some:
  assumes "set_fields fs ws m = Some m'" "length fs = length ws"
  shows "list_all2 field_valid fs ws" and "mk_Kind m' = mk_Kind m" and "mk_N m' = mk_N m"
    and "field_slot g \<notin> field_slot ` set fs \<Longrightarrow> field_get g m' = field_get g m"
  using assms by (induction fs ws m rule: set_fields.induct) (auto simp: field_get_set_other split: if_splits)

lemma set_fields_get:
  "set_fields fs ws m = Some m' \<Longrightarrow> length fs = length ws \<Longrightarrow> distinct (map field_slot fs) \<Longrightarrow>
     map (\<lambda>f. field_get f m') fs = map2 field_canon fs ws"
proof (induction fs ws m rule: set_fields.induct)
  case (1 f fs w ws m)
  then have v: "field_valid f w" and r: "set_fields fs ws (field_set f m w) = Some m'"
    by (auto split: if_splits)
  from 1 v r have "map (\<lambda>f. field_get f m') fs = map2 field_canon fs ws" by simp
  moreover have "field_get f m' = field_get f (field_set f m w)"
    using set_fields_Some(4) [OF r, of f] 1 by simp
  ultimately show ?case using v by (simp add: field_get_set)
qed simp_all

lemma set_fields_of_get:
  "\<forall>f\<in>set fs. field_valid f (field_get f m) \<Longrightarrow>
     set_fields fs (map (\<lambda>f. field_get f m) fs) a = Some (foldl (\<lambda>a f. field_copy f m a) a fs)"
  by (induction fs arbitrary: a) (simp_all add: field_set_get)

lemma class_word_isClassWord: "isClassWord (class_word c)"
  by (cases c) (simp_all add: isClassWord_def)

lemma class_of_class_word [simp]: "class_of_word (class_word c) = c"
  by (simp add: class_of_word_def)

lemma field_canon_valid: "field_valid f s \<Longrightarrow> field_valid f (field_canon f s)"
  by (cases f) (simp_all add: field_canon_def class_word_isClassWord)

lemma field_set_canon: "field_set f m (field_canon f s) = field_set f m s"
  by (cases f) (simp_all add: field_canon_def)

lemma set_fields_canon:
  "set_fields fs ws m = Some m' \<Longrightarrow> length fs = length ws \<Longrightarrow> set_fields fs (map2 field_canon fs ws) m = Some m'"
  by (induction fs ws m rule: set_fields.induct) (auto simp: field_canon_valid field_set_canon split: if_splits)

subsection \<open>Lines\<close>

text \<open>The line of a marker's words.\<close>

definition words_line :: "string \<Rightarrow> string \<Rightarrow> string \<Rightarrow> string list \<Rightarrow> string" where
  "words_line kind nonce num ws = join_on (CHR '' '') ((markerPrefix @ kind) # nonce # num # ws)"

lemma join_on_append_Cons: "join_on c ((p @ w) # ws) = p @ join_on c (w # ws)"
  by (cases ws) simp_all

lemma count_list_eq_0: "count_list w c = 0 \<longleftrightarrow> c \<notin> set w"
  by (induction w) auto

lemma length_split_on: "length (split_on c s) = Suc (count_list s c)"
  by (induction s) (auto split: list.splits)

lemma count_join_on:
  "ws \<noteq> [] \<Longrightarrow> Suc (count_list (join_on c ws) c) = length ws + sum_list (map (\<lambda>w. count_list w c) ws)"
  by (induction c ws rule: join_on.induct) auto

lemma split_join_same_length:
  assumes "ws \<noteq> []" "length (split_on c (join_on c ws)) = length ws"
  shows "split_on c (join_on c ws) = ws"
proof -
  have "sum_list (map (\<lambda>w. count_list w c) ws) = 0"
    using count_join_on [OF assms(1), of c] assms(2) by (simp add: length_split_on)
  then have "\<forall>w\<in>set ws. c \<notin> set w" by (simp add: count_list_eq_0)
  with assms(1) show ?thesis by (rule split_join_on)
qed

definition line_of_words :: "mkind \<Rightarrow> string \<Rightarrow> int \<Rightarrow> string list \<Rightarrow> marker \<Rightarrow> bool" where
  "line_of_words k nonce n ws m \<longleftrightarrow>
     ValidNonce nonce \<and> fst (schemas k) = (n = 0) \<and> length (snd (schemas k)) = length ws \<and>
     set_fields (snd (schemas k)) ws (new_marker k n) = Some m"

lemma parseMarker_words_iff:
  "parseMarker line = Some (m, nonce) \<longleftrightarrow>
     (\<exists>k num n ws. line = words_line (mkind_word k) nonce num ws \<and> length line \<le> markerLineMax \<and>
        split_on (CHR '' '') (join_on (CHR '' '') (mkind_word k # nonce # num # ws)) = mkind_word k # nonce # num # ws \<and>
        smallInt num 999 = Some n \<and> line_of_words k nonce n ws m)"
  (is "_ = ?R")
proof
  assume a: "parseMarker line = Some (m, nonce)"
  then obtain rest k num n ws where
    r: "cut_prefix markerPrefix line = Some rest" "length line \<le> markerLineMax"
    and sp: "split_on (CHR '' '') rest = mkind_word k # nonce # num # ws"
    and x: "smallInt num 999 = Some n" "line_of_words k nonce n ws m"
    by (auto simp: parseMarker_def line_of_words_def mk.lookup_iff
        split: option.splits list.splits if_splits)
  from sp have "rest = join_on (CHR '' '') (mkind_word k # nonce # num # ws)"
    by (metis join_split_on)
  with r have "line = words_line (mkind_word k) nonce num ws"
    by (simp add: words_line_def cut_prefix_Some_iff join_on_append_Cons)
  with r x sp show ?R
    using \<open>rest = _\<close> by auto
next
  assume ?R
  then show "parseMarker line = Some (m, nonce)"
    by (auto simp: parseMarker_def words_line_def join_on_append_Cons line_of_words_def)
qed

lemma list_all2_plain: "list_all2 field_valid fs ws \<Longrightarrow> w \<in> set ws \<Longrightarrow> plain_word w"
  by (induction rule: list_all2_induct) (auto dest: field_valid_plain)

lemma line_words_plain:
  assumes "line_of_words k nonce n ws m" "smallInt num 999 = Some n"
  shows "\<forall>w\<in>set (mkind_word k # nonce # num # ws). plain_word w"
proof -
  from assms(1) have "list_all2 field_valid (snd (schemas k)) ws"
    using set_fields_Some(1) by (auto simp: line_of_words_def)
  with assms show ?thesis
    using mk.plain ValidNonce_plain smallInt_plain list_all2_plain by (auto simp: line_of_words_def)
qed

lemma split_plain_words:
  "\<forall>w\<in>set ws. plain_word w \<Longrightarrow> ws \<noteq> [] \<Longrightarrow> split_on (CHR '' '') (join_on (CHR '' '') ws) = ws"
  by (rule split_join_on) auto

lemma parseMarker_wordsI:
  assumes "line_of_words k nonce n ws m" "smallInt num 999 = Some n"
    "length (words_line (mkind_word k) nonce num ws) \<le> markerLineMax"
  shows "parseMarker (words_line (mkind_word k) nonce num ws) = Some (m, nonce)"
  unfolding parseMarker_words_iff
  using assms split_plain_words [OF line_words_plain [OF assms(1,2)]] by blast

lemma parseMarker_wordsE:
  assumes "parseMarker line = Some (m, nonce)"
  obtains num ws where "line = words_line (mkind_word (mk_Kind m)) nonce num ws" "length line \<le> markerLineMax"
    "smallInt num 999 = Some (mk_N m)" "line_of_words (mk_Kind m) nonce (mk_N m) ws m"
proof -
  from assms obtain k num n ws where *: "line = words_line (mkind_word k) nonce num ws"
    "length line \<le> markerLineMax" "smallInt num 999 = Some n" "line_of_words k nonce n ws m"
    unfolding parseMarker_words_iff by blast
  from *(4) have "mk_Kind m = k" "mk_N m = n"
    using set_fields_Some(2,3) by (auto simp: line_of_words_def new_marker_def)
  with * that show ?thesis by blast
qed

lemma newline_not_in_line: "parseMarker line = Some (m, nonce) \<Longrightarrow> CHR 0x0A \<notin> set line"
proof -
  assume "parseMarker line = Some (m, nonce)"
  then obtain num ws where l: "line = words_line (mkind_word (mk_Kind m)) nonce num ws"
    and w: "line_of_words (mk_Kind m) nonce (mk_N m) ws m" "smallInt num 999 = Some (mk_N m)"
    by (rule parseMarker_wordsE)
  have "set line \<subseteq> insert (CHR '' '') (\<Union> (set ` set ((markerPrefix @ mkind_word (mk_Kind m)) # nonce # num # ws)))"
    unfolding l words_line_def by (rule set_join_on)
  then show ?thesis
    using line_words_plain [OF w] by (auto simp: markerPrefix_def)
qed

lemma Line_words:
  "Line m nonce =
     (if \<not> ValidNonce nonce then Inl NotAMarker
      else (let line = words_line (mkind_word (mk_Kind m)) nonce (itoa (mk_N m))
                         (map (\<lambda>f. field_get f m) (snd (schemas (mk_Kind m))))
            in case parseMarker line of
                 None \<Rightarrow> Inl (NotAValidMarker (mk_Kind m))
               | Some (_, got) \<Rightarrow> if got \<noteq> nonce then Inl (NotAValidMarker (mk_Kind m)) else Inr (line @ [CHR 0x0A])))"
  by (simp only: Line_def words_line_def Let_def)

lemma words_line_inj:
  assumes "words_line k nonce num ws = words_line k' nonce' num' ws'"
    and "split_on (CHR '' '') (join_on (CHR '' '') (k' # nonce' # num' # ws')) = k' # nonce' # num' # ws'"
    and "length ws = length ws'"
  shows "k = k'" "nonce = nonce'" "num = num'" "ws = ws'"
proof -
  from assms(1) have "join_on (CHR '' '') (k # nonce # num # ws) = join_on (CHR '' '') (k' # nonce' # num' # ws')"
    by (simp add: words_line_def join_on_append_Cons)
  then have sp: "split_on (CHR '' '') (join_on (CHR '' '') (k # nonce # num # ws)) = k' # nonce' # num' # ws'"
    using assms(2) by simp
  with assms(3) have "split_on (CHR '' '') (join_on (CHR '' '') (k # nonce # num # ws)) = k # nonce # num # ws"
    by (intro split_join_same_length) auto
  with sp show "k = k'" "nonce = nonce'" "num = num'" "ws = ws'" by simp_all
qed

text \<open>What is written is read back: the fields that the line carries, times cut to the second.\<close>

lemma parseMarker_Line:
  assumes "Line m nonce = Inr l"
  shows "\<exists>line. l = line @ [CHR 0x0A] \<and> CHR 0x0A \<notin> set line \<and> parseMarker line = Some (carried m, nonce)"
proof -
  let ?k = "mk_Kind m" and ?ws = "map (\<lambda>f. field_get f m) (snd (schemas (mk_Kind m)))"
  let ?line = "words_line (mkind_word ?k) nonce (itoa (mk_N m)) ?ws"
  from assms obtain m' where l: "l = ?line @ [CHR 0x0A]" and p: "parseMarker ?line = Some (m', nonce)"
    by (auto simp: Line_words Let_def split: if_splits option.splits)
  from p obtain k num n ws where w: "?line = words_line (mkind_word k) nonce num ws"
    and sp: "split_on (CHR '' '') (join_on (CHR '' '') (mkind_word k # nonce # num # ws)) = mkind_word k # nonce # num # ws"
    and n: "smallInt num 999 = Some n" and lw: "line_of_words k nonce n ws m'"
    unfolding parseMarker_words_iff by blast
  have first: "mkind_word ?k = mkind_word k"
  proof -
    have "split_on (CHR '' '') (mkind_word ?k @ CHR '' '' # join_on (CHR '' '') (nonce # itoa (mk_N m) # ?ws))
      = mkind_word k # nonce # num # ws"
      using w sp by (simp add: words_line_def join_on_append_Cons)
    with split_on_append_sep show ?thesis using mk.plain by (metis list.inject)
  qed
  then have k: "k = ?k" using mk.word_inj by simp
  with lw have "length ?ws = length ws" by (simp add: line_of_words_def)
  note eq = words_line_inj [OF w sp this]
  have N: "n = mk_N m" using n eq(3) smallInt_itoa by blast
  have valid: "list_all2 field_valid (snd (schemas ?k)) ?ws"
    using lw k eq(4) set_fields_Some(1) by (auto simp: line_of_words_def)
  then have "\<forall>f\<in>set (snd (schemas ?k)). field_valid f (field_get f m)"
    by (simp add: list_all2_map2 list_all2_same)
  from set_fields_of_get [OF this, of "new_marker ?k n"] lw k eq(4) N
  have "m' = carried m" by (simp add: line_of_words_def carried_def)
  with l p newline_not_in_line [OF p] show ?thesis by blast
qed

text \<open>
  What is read can be written: every marker of a log has a line that reads back as the same
  marker. Except for a STOP with a class that is not one of the vocabulary, it is the line it
  was read from.
\<close>

lemma length_join_on: "length (join_on c ws) \<le> sum_list (map (\<lambda>w. Suc (length w)) ws)"
  by (induction c ws rule: join_on.induct) auto

lemma vocab_length:
  "length (stop_id_word i) \<le> 9" "length (class_word c) \<le> 16"
proof -
  have "length (block_word b) \<le> 9" for b by (cases b) simp_all
  then show "length (stop_id_word i) \<le> 9" by (cases i) simp_all
  show "length (class_word c) \<le> 16" by (cases c) simp_all
qed

lemma field_length:
  "field_valid FIndex s \<Longrightarrow> length s \<le> 9" "field_valid FRC s \<Longrightarrow> length s \<le> 9"
  "field_valid FStopID s \<Longrightarrow> length s \<le> 9" "field_valid FPNR s \<Longrightarrow> length s \<le> 1"
  "field_valid FTime s \<Longrightarrow> length s \<le> 20"
proof -
  show "field_valid FStopID s \<Longrightarrow> length s \<le> 9"
    using word_in_vocabulary(3,4) vocab_length(1) by auto
  show "field_valid FTime s \<Longrightarrow> length s \<le> 20"
    using layout_fields_length by (auto simp: parseTime_def split: option.splits)
qed (auto simp: smallInt_def split: if_splits)

lemma stop_line_short:
  assumes "line_of_words MkStop nonce n ws m" "smallInt num 999 = Some n"
  shows "length (words_line (mkind_word MkStop) nonce num (map2 field_canon (snd (schemas MkStop)) ws)) \<le> markerLineMax"
proof -
  have valid: "list_all2 field_valid [FIndex, FStopID, FRC, FClass, FPNR, FTime] ws"
    using assms(1) set_fields_Some(1) by (fastforce simp: line_of_words_def)
  then obtain a b c d e f where ws: "ws = [a, b, c, d, e, f]"
    and v: "field_valid FIndex a" "field_valid FStopID b" "field_valid FRC c" "field_valid FPNR e" "field_valid FTime f"
    by (auto simp: list_all2_Cons1 simp del: field_valid.simps)
  have "length num \<le> 9" using assms(2) by (auto simp: smallInt_def split: if_splits)
  moreover have "length nonce = 32" using assms(1) by (simp add: line_of_words_def ValidNonce_def)
  moreover note field_length(1) [OF v(1)] field_length(3) [OF v(2)] field_length(2) [OF v(3)]
    field_length(4) [OF v(4)] field_length(5) [OF v(5)] vocab_length(2) [of "class_of_word d"]
  moreover have "length (words_line ''STOP'' nonce num [a, b, c, class_word (class_of_word d), e, f])
      \<le> sum_list (map (\<lambda>w. Suc (length w)) ((markerPrefix @ ''STOP'') # nonce # num # [a, b, c, class_word (class_of_word d), e, f]))"
    unfolding words_line_def by (rule length_join_on)
  ultimately show ?thesis
    by (simp add: ws field_canon_def markerPrefix_def markerLineMax_def)
qed

lemma map2_canon_id: "length fs = length ws \<Longrightarrow> FClass \<notin> set fs \<Longrightarrow> map2 field_canon fs ws = ws"
  by (induction fs ws rule: list_induct2) (auto simp: field_canon_def)

lemma Line_parseMarker:
  assumes "parseMarker line = Some (m, nonce)"
  shows "\<exists>l. Line m nonce = Inr (l @ [CHR 0x0A]) \<and> parseMarker l = Some (m, nonce) \<and> (mk_Kind m \<noteq> MkStop \<longrightarrow> l = line)"
proof -
  let ?fs = "snd (schemas (mk_Kind m))"
  from assms obtain num ws where line: "line = words_line (mkind_word (mk_Kind m)) nonce num ws"
    and short: "length line \<le> markerLineMax" and n: "smallInt num 999 = Some (mk_N m)"
    and lw: "line_of_words (mk_Kind m) nonce (mk_N m) ws m"
    by (rule parseMarker_wordsE)
  let ?ws = "map2 field_canon ?fs ws"
  have len: "length ?fs = length ws" using lw by (simp add: line_of_words_def)
  have lw': "line_of_words (mk_Kind m) nonce (mk_N m) ?ws m"
    using lw set_fields_canon len by (auto simp: line_of_words_def)
  have same: "mk_Kind m \<noteq> MkStop \<longrightarrow> ?ws = ws"
  proof
    assume "mk_Kind m \<noteq> MkStop"
    then have "FClass \<notin> set ?fs" by (cases "mk_Kind m") simp_all
    with len show "?ws = ws" by (rule map2_canon_id)
  qed
  have "length (words_line (mkind_word (mk_Kind m)) nonce num ?ws) \<le> markerLineMax"
    using short same line stop_line_short [of nonce "mk_N m" ws m num] lw n
    by (cases "mk_Kind m = MkStop") auto
  then have p: "parseMarker (words_line (mkind_word (mk_Kind m)) nonce num ?ws) = Some (m, nonce)"
    by (rule parseMarker_wordsI [OF lw' n])
  moreover have "map (\<lambda>f. field_get f m) ?fs = ?ws"
    using lw len schema_slots_distinct set_fields_get by (auto simp: line_of_words_def)
  moreover have "itoa (mk_N m) = num" using n by (rule itoa_smallInt)
  moreover have "ValidNonce nonce" using lw by (simp add: line_of_words_def)
  ultimately have "Line m nonce = Inr (words_line (mkind_word (mk_Kind m)) nonce num ?ws @ [CHR 0x0A])"
    by (simp add: Line_words Let_def)
  moreover have "mk_Kind m \<noteq> MkStop \<longrightarrow> words_line (mkind_word (mk_Kind m)) nonce num ?ws = line"
    using same line by simp
  ultimately show ?thesis using p by (intro exI conjI)
qed

subsection \<open>Logs\<close>

abbreviation newline :: char where
  "newline \<equiv> CHR 0x0A"

text \<open>A log whose last line is whole ends with a newline: it is the lines before its last newline.\<close>

lemma split_on_snoc_sep: "split_on c (xs @ c # ys) = split_on c xs @ split_on c ys"
proof (induction xs)
  case Nil
  show ?case by simp
next
  case (Cons x xs)
  then show ?case by (cases "split_on c xs") auto
qed

lemma split_whole_append:
  assumes "a \<noteq> []" "last a = c"
  shows "\<exists>la. la \<noteq> [] \<and> split_on c a = la @ [[]] \<and> (\<forall>b. split_on c (a @ b) = la @ split_on c b)"
proof -
  from assms obtain a' where a: "a = a' @ [c]" by (metis append_butlast_last_id)
  show ?thesis
    by (rule exI [of _ "split_on c a'"]) (simp add: a split_on_snoc_sep)
qed

lemma scan_lines_append:
  "scan_lines nonce (xs @ ys) =
     (fst (scan_lines nonce xs) @ fst (scan_lines nonce ys), snd (scan_lines nonce xs) + snd (scan_lines nonce ys))"
  by (induction xs) (auto simp: Let_def split: option.splits prod.splits)

lemma scan_lines_count: "length (fst (scan_lines nonce ls)) + snd (scan_lines nonce ls) = length ls"
  by (induction ls) (auto simp: Let_def split: option.splits prod.splits)

text \<open>The reader on the lines of a log that is not too long.\<close>

definition read_lines :: "string list \<Rightarrow> nat \<Rightarrow> string \<times> marker list \<times> nat \<times> log_error option" where
  "read_lines ls unfinished =
     (case ls of
        [] \<Rightarrow> ([], [], unfinished, None)
      | l # rest \<Rightarrow>
          (case parseMarker l of
             None \<Rightarrow> ([], [], unfinished + length ls, None)
           | Some (first, nonce) \<Rightarrow>
               if mk_Kind first \<noteq> MkQueued then ([], [], unfinished + length ls, None)
               else (nonce, first # fst (scan_lines nonce rest), unfinished + snd (scan_lines nonce rest), None)))"

lemma ParseMarkers_read_lines:
  "length bytes \<le> markersMax \<Longrightarrow>
     ParseMarkers (Some bytes) =
       read_lines (butlast (split_on newline bytes)) (if last (split_on newline bytes) \<noteq> [] then 1 else 0)"
  by (auto simp: ParseMarkers_def read_lines_def Let_def split: list.splits option.splits prod.splits)

lemma read_lines_no_error: "snd (snd (snd (read_lines ls u))) = None"
  by (auto simp: read_lines_def split: list.splits option.splits)

lemma read_lines_count: "read_lines ls u = (nonce, ms, ig, err) \<Longrightarrow> length ms + ig = length ls + u"
  using scan_lines_count
  by (auto simp: read_lines_def split: list.splits option.splits prod.splits if_splits)

lemma read_lines_Some:
  assumes "read_lines ls u = (nonce, ms, ig, err)" "ms \<noteq> []"
  obtains l rest first where "ls = l # rest" "parseMarker l = Some (first, nonce)" "mk_Kind first = MkQueued"
    "ms = first # fst (scan_lines nonce rest)" "ig = u + snd (scan_lines nonce rest)"
  using assms by (auto simp: read_lines_def split: list.splits option.splits prod.splits if_splits)

lemma read_lines_extend:
  assumes "read_lines ls u = (nonce, ms, ig, err)" "ms \<noteq> []"
  shows "read_lines (ls @ extra) u =
    (nonce, ms @ fst (scan_lines nonce extra), ig + snd (scan_lines nonce extra), None)"
  using assms
  by (elim read_lines_Some) (simp_all add: read_lines_def scan_lines_append)

text \<open>
  A line of a log that is not a marker of the run: it has not the shape of one, it carries the
  nonce of another, or it is a second QUEUED line.
\<close>

definition foreign_line :: "string \<Rightarrow> string \<Rightarrow> bool" where
  "foreign_line nonce l =
     (case parseMarker l of None \<Rightarrow> True | Some (m, got) \<Rightarrow> got \<noteq> nonce \<or> mk_Kind m = MkQueued)"

lemma scan_foreign_line: "foreign_line nonce l \<Longrightarrow> scan_lines nonce [l] = ([], 1)"
  by (auto simp: foreign_line_def split: option.splits)

lemma read_lines_insert:
  assumes "read_lines (la @ lb) u = (nonce, ms, ig, err)" "ms \<noteq> []" "la \<noteq> []" "foreign_line nonce j"
  shows "read_lines (la @ j # lb) u = (nonce, ms, Suc ig, None)"
proof -
  from assms(3) obtain l rest where la: "la = l # rest" by (cases la) auto
  with assms(1,2) show ?thesis
    using scan_lines_append [of nonce "rest" "[j] @ lb"] scan_lines_append [of nonce "[j]" lb]
      scan_foreign_line [OF assms(4)]
    by (elim read_lines_Some) (auto simp: read_lines_def scan_lines_append simp del: scan_lines.simps)
qed

subsection \<open>Properties of the log\<close>

text \<open>
  (C21) A line that the core writes for a marker is one whole line of the log, and the reader takes
  it for the same marker: every field that the kind carries, the time cut to the second, and
  nothing of the fields that the kind does not have.
\<close>

theorem marker_write_read:
  assumes "Line m nonce = Inr l"
  shows "\<exists>line. l = line @ [newline] \<and> newline \<notin> set line \<and> parseMarker line = Some (carried m, nonce)"
  using assms by (rule parseMarker_Line)

definition example_nonce :: string where
  "example_nonce = ''0123456789abcdef0123456789abcdef''"

definition example_stop :: marker where
  "example_stop = (new_marker MkStop 1)\<lparr>mk_Index := 6, mk_ID := Some (StopBlock BlockMinimal), mk_RC := 100,
     mk_Class := Some ClassAptFailed, mk_PNR := True, mk_At := 63871200000 * second\<rparr>"

lemma example_stop_line:
  "Line example_stop example_nonce =
     Inr (''CASAOS_OSU_STOP 0123456789abcdef0123456789abcdef 1 6 minimal 100 apt_failed 1 2024-12-31T00:00:00Z'' @ [newline])"
  by code_simp

lemma example_stop_carried: "carried example_stop = example_stop"
  by code_simp

theorem marker_write_read_witness:
  "\<exists>line. ''CASAOS_OSU_STOP 0123456789abcdef0123456789abcdef 1 6 minimal 100 apt_failed 1 2024-12-31T00:00:00Z'' @ [newline]
       = line @ [newline] \<and> newline \<notin> set line \<and> parseMarker line = Some (example_stop, example_nonce)"
  using marker_write_read [OF example_stop_line] unfolding example_stop_carried .

text \<open>
  Every marker that the reader takes can be written again: the writer accepts it, and the line it
  writes is read as the same marker. It is the very line that was read, except that a STOP whose
  class is not a word of the vocabulary is written with the class it was taken for.
\<close>

theorem marker_read_write:
  assumes "parseMarker line = Some (m, nonce)"
  shows "\<exists>l. Line m nonce = Inr (l @ [newline]) \<and> parseMarker l = Some (m, nonce) \<and> (mk_Kind m \<noteq> MkStop \<longrightarrow> l = line)"
  using assms by (rule Line_parseMarker)

definition example_odd_class :: string where
  "example_odd_class = ''CASAOS_OSU_STOP 0123456789abcdef0123456789abcdef 1 6 minimal 100 odd_word 1 2024-12-31T00:00:00Z''"

lemma example_odd_class_parse:
  "parseMarker example_odd_class = Some (example_stop\<lparr>mk_Class := Some ClassUnknown\<rparr>, example_nonce)"
  by code_simp

theorem marker_read_write_witness:
  "\<exists>l. Line (example_stop\<lparr>mk_Class := Some ClassUnknown\<rparr>) example_nonce = Inr (l @ [newline]) \<and>
     parseMarker l = Some (example_stop\<lparr>mk_Class := Some ClassUnknown\<rparr>, example_nonce)"
  using marker_read_write [OF example_odd_class_parse] by blast

text \<open>
  The log is appended to one marker at a time: when the reader takes a run from a log whose last
  line is whole, and the line of a marker (not a second QUEUED one) with the nonce of the run is
  put behind it, the reader takes the same markers and that one more, and ignores nothing more.
\<close>

theorem log_append_marker:
  assumes "ParseMarkers (Some bytes) = (nonce, ms, ignored, None)" and "ms \<noteq> []"
    and "bytes \<noteq> []" and "last bytes = newline"
    and "Line m nonce = Inr l" and "mk_Kind m \<noteq> MkQueued" and "length (bytes @ l) \<le> markersMax"
  shows "ParseMarkers (Some (bytes @ l)) = (nonce, ms @ [carried m], ignored, None)"
proof -
  obtain line where l: "l = line @ [newline]" "newline \<notin> set line" "parseMarker line = Some (carried m, nonce)"
    using parseMarker_Line [OF assms(5)] by blast
  obtain la where la: "split_on newline bytes = la @ [[]]" "\<And>b. split_on newline (bytes @ b) = la @ split_on newline b"
    using split_whole_append [OF assms(3,4)] by blast
  have r: "read_lines la 0 = (nonce, ms, ignored, None)"
    using ParseMarkers_read_lines [of bytes] assms(1,7) la(1) by (simp add: butlast_append)
  have "ParseMarkers (Some (bytes @ l)) = read_lines (la @ [line]) 0"
    using ParseMarkers_read_lines [of "bytes @ l"] assms(7) la(2) [of l] l(1) split_on_append_sep [OF l(2), of "[]"]
    by (simp add: butlast_append)
  also have "\<dots> = (nonce, ms @ [carried m], ignored, None)"
    using read_lines_extend [OF r assms(2), of "[line]"] l(3) assms(6) by simp
  finally show ?thesis .
qed

definition example_queued :: string where
  "example_queued = ''CASAOS_OSU_QUEUED 0123456789abcdef0123456789abcdef 0 2024-12-31T00:00:00Z'' @ [newline]"

definition example_queued_marker :: marker where
  "example_queued_marker = (new_marker MkQueued 0)\<lparr>mk_At := 63871200000 * second\<rparr>"

lemma short_log: "length bytes < 100000 \<Longrightarrow> length bytes \<le> markersMax"
  by (simp add: markersMax_def)

lemma example_queued_parse:
  "ParseMarkers (Some example_queued) = (example_nonce, [example_queued_marker], 0, None)"
proof -
  have "length example_queued \<le> markersMax"
    by (rule short_log) (simp add: example_queued_def)
  moreover have "read_lines (butlast (split_on newline example_queued))
      (if last (split_on newline example_queued) \<noteq> [] then 1 else 0) = (example_nonce, [example_queued_marker], 0, None)"
    by code_simp
  ultimately show ?thesis by (simp only: ParseMarkers_read_lines)
qed

theorem log_append_marker_witness:
  "\<exists>l. Line example_stop example_nonce = Inr l \<and>
     ParseMarkers (Some (example_queued @ l)) = (example_nonce, [example_queued_marker, example_stop], 0, None)"
proof -
  have "ParseMarkers (Some (example_queued @
      (''CASAOS_OSU_STOP 0123456789abcdef0123456789abcdef 1 6 minimal 100 apt_failed 1 2024-12-31T00:00:00Z'' @ [newline])))
      = (example_nonce, [example_queued_marker] @ [carried example_stop], 0, None)"
  proof (rule log_append_marker [OF example_queued_parse _ _ _ example_stop_line])
    show "length (example_queued @
      ''CASAOS_OSU_STOP 0123456789abcdef0123456789abcdef 1 6 minimal 100 apt_failed 1 2024-12-31T00:00:00Z'' @ [newline])
      \<le> markersMax"
      by (rule short_log) (simp add: example_queued_def)
  qed (simp_all add: example_queued_def example_stop_def new_marker_def)
  then show ?thesis
    using example_stop_line by (auto simp: example_stop_carried)
qed

text \<open>
  What is not a marker of the run cannot tell its story: a line of any bytes that has not the exact
  shape of a marker, or carries another nonce, or is a second QUEUED line, put anywhere behind
  the first line of a log, leaves the nonce and the markers as they were, and is counted once.
\<close>

theorem log_foreign_line:
  assumes "ParseMarkers (Some (a @ b)) = (nonce, ms, ignored, None)" and "ms \<noteq> []"
    and "a \<noteq> []" and "last a = newline"
    and "newline \<notin> set j" and "foreign_line nonce j"
    and "length (a @ j @ newline # b) \<le> markersMax"
  shows "ParseMarkers (Some (a @ j @ newline # b)) = (nonce, ms, Suc ignored, None)"
proof -
  obtain la where la: "la \<noteq> []" "\<And>b. split_on newline (a @ b) = la @ split_on newline b"
    using split_whole_append [OF assms(3,4)] by blast
  let ?lb = "butlast (split_on newline b)" and ?u = "if last (split_on newline b) \<noteq> [] then 1 else 0 :: nat"
  have "read_lines (la @ ?lb) ?u = (nonce, ms, ignored, None)"
    using ParseMarkers_read_lines [of "a @ b"] assms(1,7) la(2) [of b] by (simp add: butlast_append)
  then have "read_lines (la @ j # ?lb) ?u = (nonce, ms, Suc ignored, None)"
    using assms(2) la(1) assms(6) by (rule read_lines_insert)
  moreover have "split_on newline (a @ j @ newline # b) = la @ j # split_on newline b"
    using la(2) split_on_append_sep [OF assms(5)] by simp
  ultimately show ?thesis
    using ParseMarkers_read_lines [OF assms(7)] by (simp add: butlast_append)
qed

definition example_apt_line :: string where
  "example_apt_line = ''Setting up base-files (12.4+deb12u5) ...''"

theorem log_foreign_line_witness:
  "foreign_line example_nonce example_apt_line \<and>
   ParseMarkers (Some (example_queued @ example_apt_line @ newline # [])) = (example_nonce, [example_queued_marker], 1, None)"
proof
  show f: "foreign_line example_nonce example_apt_line" by code_simp
  have p: "ParseMarkers (Some (example_queued @ [])) = (example_nonce, [example_queued_marker], 0, None)"
    using example_queued_parse by simp
  have "ParseMarkers (Some (example_queued @ example_apt_line @ newline # [])) = (example_nonce, [example_queued_marker], Suc 0, None)"
  proof (rule log_foreign_line [OF p _ _ _ _ f])
    show "length (example_queued @ example_apt_line @ [newline]) \<le> markersMax"
      by (rule short_log) (simp add: example_queued_def example_apt_line_def)
  qed (simp_all add: example_queued_def example_apt_line_def)
  then show "ParseMarkers (Some (example_queued @ example_apt_line @ newline # [])) = (example_nonce, [example_queued_marker], 1, None)"
    by simp
qed

text \<open>
  Whatever the bytes are, the reader answers, every line is either a marker or counted, a run is
  taken only from a log whose first line is the core's QUEUED line with a nonce of the right
  shape, and no marker behind it is a QUEUED one.
\<close>

theorem log_read_total:
  "case ParseMarkers (Some bytes) of (nonce, ms, ignored, err) \<Rightarrow>
     length ms + ignored =
       (let parts = split_on newline (take markersMax bytes)
        in length (butlast parts) + (if last parts \<noteq> [] then 1 else 0)) \<and>
     (err = (if length bytes > markersMax then Some ErrMarkersTooLarge else None)) \<and>
     (ms = [] \<and> nonce = [] \<or>
      (ms \<noteq> [] \<and> ValidNonce nonce \<and> mk_Kind (hd ms) = MkQueued \<and> mk_N (hd ms) = 0 \<and>
       list_all (\<lambda>m. mk_Kind m \<noteq> MkQueued) (tl ms)))"
proof -
  let ?data = "take markersMax bytes"
  let ?ls = "butlast (split_on newline ?data)" and ?u = "if last (split_on newline ?data) \<noteq> [] then 1 else 0 :: nat"
  obtain nonce ms ig where r: "read_lines ?ls ?u = (nonce, ms, ig, None)"
    using read_lines_no_error [of ?ls ?u] by (metis prod_cases4 snd_conv)
  have P: "ParseMarkers (Some bytes) =
      (nonce, ms, ig, if length bytes > markersMax then Some ErrMarkersTooLarge else None)"
  proof -
    have data: "(if length bytes > markersMax then take markersMax bytes else bytes) = ?data" by simp
    show ?thesis
      using r unfolding ParseMarkers_def option.case Let_def data read_lines_def
      by (cases ?ls) (auto split: option.splits prod.splits if_splits simp del: length_butlast)
  qed
  have count: "length ms + ig = length ?ls + ?u"
    using r by (rule read_lines_count)
  have shape: "ms = [] \<and> nonce = [] \<or>
      (ms \<noteq> [] \<and> ValidNonce nonce \<and> mk_Kind (hd ms) = MkQueued \<and> mk_N (hd ms) = 0 \<and>
       list_all (\<lambda>m. mk_Kind m \<noteq> MkQueued) (tl ms))"
  proof (cases "ms = []")
    case True
    with r show ?thesis
      by (auto simp: read_lines_def split: list.splits option.splits prod.splits if_splits)
  next
    case False
    with r obtain l rest first where x: "parseMarker l = Some (first, nonce)" "mk_Kind first = MkQueued"
      "ms = first # fst (scan_lines nonce rest)" by (elim read_lines_Some)
    from x(1,2) have "ValidNonce nonce" "mk_N first = 0"
      by (elim parseMarker_wordsE, auto simp: line_of_words_def)+
    moreover have "list_all (\<lambda>m. mk_Kind m \<noteq> MkQueued) (fst (scan_lines nonce rest))"
      by (induction rest) (auto simp: Let_def split: option.splits prod.splits)
    ultimately show ?thesis using x by simp
  qed
  show ?thesis
    unfolding P Let_def prod.case using count shape by blast
qed

end
