(* ===== verification/OsrunReduce.thy ===== *)
theory OsrunReduce
  imports OsrunMarker
begin

section \<open>The reducer: the state of a run from its log and its files\<close>

text \<open>
  Models \<open>pkg/osrun/reduce.go\<close> and the table of classes of \<open>pkg/osrun/action.go\<close>. The reducer folds the
  markers into a view of the run (\<open>scan\<close>), and decides the state of the run from the view, the files,
  what systemd says, the boot and the clock (\<open>decide\<close>). Pointers of the Go structs are options; the
  pointer to the attempt of the latest result is its place in the list of attempts, so that it
  sees what is later written to that attempt. A method of \<open>ctx\<close> that reads \<open>c.a\<close> without asking whether
  it is nil takes the attempt as an argument.
\<close>

subsection \<open>Classes of stop\<close>

record behavior =
  Resumable_class :: bool
  Wave :: int

definition ClassBehavior :: "stop_class option \<Rightarrow> behavior" where
  "ClassBehavior class =
     (case class of
        None \<Rightarrow> \<lparr>Resumable_class = False, Wave = 0\<rparr>
      | Some c \<Rightarrow>
          if c \<in> {ClassBusy, ClassNetwork} then \<lparr>Resumable_class = True, Wave = 1\<rparr>
          else if c \<in> {ClassAptFailed, ClassDpkgBroken, ClassUnknown} then \<lparr>Resumable_class = True, Wave = 2\<rparr>
          else if c \<in> {ClassDisk, ClassBarrierKernel, ClassBarrierInitrd, ClassBarrierGrub, ClassBarrierSSHD,
                        ClassBarrierResolver, ClassBarrierOther, ClassIdentity, ClassTools, ClassAbort}
               then \<lparr>Resumable_class = True, Wave = 0\<rparr>
          else \<lparr>Resumable_class = False, Wave = 0\<rparr>)"

definition Retryable :: "stop_class option \<Rightarrow> int \<Rightarrow> bool" where
  "Retryable class wave \<longleftrightarrow> (let w = Wave (ClassBehavior class) in w \<noteq> 0 \<and> wave \<ge> w)"

subsection \<open>Input and state\<close>

record unit_sight =
  u_Active :: bool
  u_Answered :: bool
  u_SilentSince :: instant

record boot =
  b_Now :: string
  b_OK :: bool

record barrier_check =
  bc_Code :: string
  bc_OK :: bool
  bc_Severity :: string

record barrier =
  bar_OK :: bool
  bar_Checks :: "barrier_check list"

record verify_result =
  vr_Errors :: int
  vr_Warnings :: int

record input =
  in_Markers :: "marker list"
  in_Ignored :: nat
  in_Files :: files
  in_Unit :: unit_sight
  in_Boot :: boot
  in_Now :: instant
  in_LastActivity :: instant
  in_Barrier :: "barrier option"
  in_Verify :: "verify_result option"
  in_Ready :: bool
  in_BootSeenAt :: instant
  in_Reminded :: int
  in_Damaged :: bool
  in_Timing :: timing

record block_ref =
  br_Index :: int
  br_ID :: "stop_id option"

definition no_block :: block_ref where
  "no_block = \<lparr>br_Index = 0, br_ID = None\<rparr>"

record run_state =
  st_Name :: state_name
  st_Reason :: reason
  st_Cause :: cause
  st_Class :: "stop_class option"
  st_Phase :: "phase option"
  st_Attempt :: int
  st_Block :: block_ref
  st_RC :: int
  st_Kind :: "run_kind option"
  st_RunID :: string
  st_Hop :: string
  st_PlanID :: string
  st_PNR :: bool
  st_Reversible :: bool
  st_Busy :: bool
  st_HalfUpgraded :: bool
  st_Resumable :: bool
  st_Abortable :: bool
  st_RebootBlocked :: bool
  st_BootUnknown :: bool
  st_Stalled :: bool
  st_Closed :: bool
  st_Since :: instant
  st_ExpiresAt :: "instant option"

text \<open>\<open>State{Name: name}\<close>\<close>

definition blank_state :: "state_name \<Rightarrow> run_state" where
  "blank_state name =
     \<lparr>st_Name = name, st_Reason = NoReason, st_Cause = NoCause, st_Class = None, st_Phase = None, st_Attempt = 0,
      st_Block = no_block, st_RC = 0, st_Kind = None, st_RunID = [], st_Hop = [], st_PlanID = [], st_PNR = False,
      st_Reversible = False, st_Busy = False, st_HalfUpgraded = False, st_Resumable = False, st_Abortable = False,
      st_RebootBlocked = False, st_BootUnknown = False, st_Stalled = False, st_Closed = False,
      st_Since = zero_time, st_ExpiresAt = None\<rparr>"

definition busyOf :: "state_name \<Rightarrow> bool \<Rightarrow> bool" where
  "busyOf name pnr =
     (if name \<in> {StateIdle, StateRefreshed, StateRehearsalDone, StateSucceeded, StateSucceededWithFindings,
                  StateManualDone} then False
      else if name = StateFailed then pnr
      else True)"

subsection \<open>The view of a log\<close>

record attempt_view =
  av_N :: int
  av_Phase :: phase
  av_From :: "block option"
  av_Who :: "who option"
  av_At :: instant
  av_StartFailed :: bool
  av_Started :: bool
  av_StartAt :: instant
  av_StartBoot :: string
  av_Ended :: bool
  av_EndAt :: instant
  av_Block :: block_ref
  av_LastStart :: "stop_id option"
  av_Stop :: "marker option"
  av_Unwound :: "mk_result option"
  av_Result :: "marker option"
  av_events :: nat

definition new_attempt :: "int \<Rightarrow> phase \<Rightarrow> block option \<Rightarrow> who option \<Rightarrow> instant \<Rightarrow> attempt_view" where
  "new_attempt n p from who at =
     \<lparr>av_N = n, av_Phase = p, av_From = from, av_Who = who, av_At = at, av_StartFailed = False, av_Started = False,
      av_StartAt = zero_time, av_StartBoot = [], av_Ended = False, av_EndAt = zero_time, av_Block = no_block,
      av_LastStart = None, av_Stop = None, av_Unwound = None, av_Result = None, av_events = 0\<rparr>"

definition attempt_open :: "attempt_view \<Rightarrow> bool" where
  "attempt_open a \<longleftrightarrow> \<not> av_Ended a"

definition maxBlockEvents :: nat where
  "maxBlockEvents = 64"

record view =
  vw_valid :: bool
  vw_queued :: instant
  vw_run :: "marker option"
  vw_attempt :: "attempt_view list"
  vw_m :: "marker option"
  vw_mAttempt :: "nat option"
  vw_reqAt :: instant
  vw_rehearsalReady :: bool
  vw_takeover :: bool
  vw_acked :: bool
  vw_sealed :: bool
  vw_lastAt :: instant

definition empty_view :: view where
  "empty_view =
     \<lparr>vw_valid = False, vw_queued = zero_time, vw_run = None, vw_attempt = [], vw_m = None, vw_mAttempt = None,
      vw_reqAt = zero_time, vw_rehearsalReady = False, vw_takeover = False, vw_acked = False, vw_sealed = False,
      vw_lastAt = zero_time\<rparr>"

definition view_last :: "view \<Rightarrow> attempt_view option" where
  "view_last v = (if vw_attempt v = [] then None else Some (last (vw_attempt v)))"

definition view_count :: "view \<Rightarrow> phase \<Rightarrow> int" where
  "view_count v p = int (length (filter (\<lambda>a. av_Phase a = p) (vw_attempt v)))"

definition phaseFits :: "run_kind option \<Rightarrow> phase \<Rightarrow> bool \<Rightarrow> bool" where
  "phaseFits kind p first =
     (case kind of
        Some RunRefresh \<Rightarrow> p = PhaseRefresh \<and> first \<or> p = PhaseUnwind \<and> \<not> first
      | Some RunRehearsal \<Rightarrow> p = PhaseRehearse \<and> first \<or> p = PhaseUnwind \<and> \<not> first
      | Some RunHop \<Rightarrow>
          p = PhaseRun \<and> first \<or> \<not> first \<and> (p = PhaseRecover \<or> p = PhaseVerify \<or> p = PhaseUnwind)
      | None \<Rightarrow> False)"

definition touch :: "view \<Rightarrow> instant \<Rightarrow> view" where
  "touch v t = (if t > vw_lastAt v then v\<lparr>vw_lastAt := t\<rparr> else v)"

definition resultOfPhase :: "mkind \<Rightarrow> phase \<Rightarrow> bool" where
  "resultOfPhase kind p =
     (case kind of
        MkRefreshDone \<Rightarrow> p = PhaseRefresh
      | MkRehearsalReady \<Rightarrow> p = PhaseRehearse
      | MkRebootPending \<Rightarrow> p = PhaseRun \<or> p = PhaseRecover
      | MkRebootNotNeeded \<Rightarrow> p = PhaseRun \<or> p = PhaseRecover
      | MkVerifyDone \<Rightarrow> p = PhaseVerify
      | _ \<Rightarrow> False)"

definition sealedBy :: "run_state \<Rightarrow> bool" where
  "sealedBy s =
     (if st_Name s \<in> {StateSucceeded, StateSucceededWithFindings} then st_Phase s = Some PhaseVerify
      else if st_Name s \<in> {StateRefreshed, StateRehearsalDone} then True
      else if st_Name s = StateFailed then \<not> st_PNR s \<and> st_Reason s \<noteq> ReasonStart
      else False)"

subsection \<open>A reading of the run\<close>

record ctx =
  cx_v :: view
  cx_in :: input
  cx_tm :: timing
  cx_a :: "attempt_view option"
  cx_pnr :: bool
  cx_la :: instant

definition timingOf :: "input \<Rightarrow> timing" where
  "timingOf i = (if in_Timing i = zero_timing then DefaultTiming else in_Timing i)"

definition newCtxFrom :: "view \<Rightarrow> input \<Rightarrow> timing \<Rightarrow> ctx" where
  "newCtxFrom v i tm =
     (let la0 = in_LastActivity i;
          la1 = (if vw_lastAt v > la0 then vw_lastAt v else la0);
          la2 = (if la1 > in_Now i then in_Now i else la1)
      in \<lparr>cx_v = v, cx_in = i, cx_tm = tm, cx_a = view_last v, cx_pnr = PNR (in_Files i), cx_la = la2\<rparr>)"

definition age :: "ctx \<Rightarrow> instant \<Rightarrow> duration" where
  "age c t = (let d = time_sub (in_Now (cx_in c)) t in if d > 0 then d else 0)"

text \<open>\<open>c.v.run\<close>, which is never nil where it is read: \<open>decide\<close> has looked.\<close>

definition run_of :: "ctx \<Rightarrow> marker" where
  "run_of c = (case vw_run (cx_v c) of Some r \<Rightarrow> r | None \<Rightarrow> new_marker MkRun 0)"

definition st :: "ctx \<Rightarrow> state_name \<Rightarrow> instant \<Rightarrow> run_state" where
  "st c name since =
     (let r = run_of c;
          s = (blank_state name)\<lparr>st_Kind := mk_RunKind r, st_RunID := mk_RunID r, st_Hop := mk_Hop r,
                 st_PlanID := mk_PlanID r, st_PNR := cx_pnr c, st_Reversible := \<not> cx_pnr c,
                 st_HalfUpgraded := cx_pnr c \<and> \<not> DonePrereboot (in_Files (cx_in c)), st_Since := since\<rparr>;
          s' = (case cx_a c of None \<Rightarrow> s | Some a \<Rightarrow> s\<lparr>st_Phase := Some (av_Phase a), st_Attempt := av_N a\<rparr>)
      in s'\<lparr>st_Busy := busyOf name (cx_pnr c)\<rparr>)"

definition stopped :: "run_state \<Rightarrow> marker \<Rightarrow> stop_class option \<Rightarrow> run_state" where
  "stopped s stop class =
     s\<lparr>st_Class := class, st_RC := mk_RC stop, st_Block := \<lparr>br_Index = mk_Index stop, br_ID = mk_ID stop\<rparr>\<rparr>"

definition attention :: "ctx \<Rightarrow> reason \<Rightarrow> run_state" where
  "attention c reason = (st c StateNeedsAttention (cx_la c))\<lparr>st_Reason := reason\<rparr>"

text \<open>The reason of a failure that is a class of stop.\<close>

definition reason_of :: "stop_class option \<Rightarrow> reason" where
  "reason_of class = (case class of None \<Rightarrow> NoReason | Some c \<Rightarrow> OfClass c)"

definition systemdSilent :: "ctx \<Rightarrow> bool" where
  "systemdSilent c =
     (if u_Answered (in_Unit (cx_in c)) \<or> age c (cx_la c) < SystemdSilence (cx_tm c) then False
      else (let since = u_SilentSince (in_Unit (cx_in c))
            in since = zero_time \<or> age c since \<ge> SystemdSilence (cx_tm c)))"

definition silentForLong :: "ctx \<Rightarrow> bool" where
  "silentForLong c =
     (if u_Answered (in_Unit (cx_in c)) then False
      else (let since = u_SilentSince (in_Unit (cx_in c))
            in if since \<noteq> zero_time then age c since \<ge> SystemdSilence (cx_tm c)
               else age c (cx_la c) \<ge> SystemdSilence (cx_tm c)))"

definition spokeLately :: "ctx \<Rightarrow> bool" where
  "spokeLately c =
     list_ex (\<lambda>sign. let d = time_sub (in_Now (cx_in c)) sign
                     in sign \<noteq> zero_time \<and> d < GraceQuiet (cx_tm c) \<and> d > - GraceQuiet (cx_tm c))
       [in_LastActivity (cx_in c), vw_lastAt (cx_v c)]"

definition active :: "ctx \<Rightarrow> bool" where
  "active c =
     (case cx_a c of
        None \<Rightarrow> False
      | Some a \<Rightarrow>
          if \<not> attempt_open a then False
          else if u_Active (in_Unit (cx_in c)) then True
          else if av_StartFailed a then False
          else \<not> u_Answered (in_Unit (cx_in c)) \<or> av_Started a \<and> spokeLately c)"

definition startLost :: "ctx \<Rightarrow> attempt_view \<Rightarrow> bool" where
  "startLost c a =
     (if av_StartFailed a then True
      else (let ag = age c (av_At a)
            in u_Answered (in_Unit (cx_in c)) \<and> \<not> u_Active (in_Unit (cx_in c)) \<and> ag \<ge> StartLost (cx_tm c) \<or>
               ag \<ge> StartLostSilent (cx_tm c)))"

definition inFlight :: "ctx \<Rightarrow> bool" where
  "inFlight c =
     (case cx_a c of None \<Rightarrow> False | Some a \<Rightarrow> \<not> av_Started a \<and> \<not> av_StartFailed a \<and> \<not> startLost c a)"

definition pastAbort :: "stop_id option \<Rightarrow> bool" where
  "pastAbort i \<longleftrightarrow>
     i \<in> Some ` StopBlock ` {BlockMinimal, BlockFull, BlockPrereboot, BlockAfter, BlockForward, BlockRUpgrade, BlockRDone}"

primrec running_name :: "phase \<Rightarrow> state_name" where
  "running_name PhaseRefresh = StateRefreshing"
| "running_name PhaseRehearse = StateRehearsing"
| "running_name PhaseRun = StateRunning"
| "running_name PhaseRecover = StateRecovering"
| "running_name PhaseVerify = StateVerifying"
| "running_name PhaseUnwind = StateUnwinding"

definition running :: "ctx \<Rightarrow> attempt_view \<Rightarrow> run_state" where
  "running c a =
     (let name = running_name (av_Phase a);
          since = (if av_Started a then av_StartAt a else av_At a);
          s = (st c name since)\<lparr>st_Block := av_Block a\<rparr>
      in if name \<in> {StateRefreshing, StateRehearsing, StateRunning}
         then s\<lparr>st_Abortable := \<not> cx_pnr c \<and> \<not> pastAbort (av_LastStart a) \<and> av_Stop a = None \<and>
                  av_Result a = None \<and> av_Unwound a = None\<rparr>
         else s)"

text \<open>The class of a stop as the run takes it.\<close>

definition stopClass :: "ctx \<Rightarrow> marker \<Rightarrow> stop_class option" where
  "stopClass c stop = (if mk_Class stop = Some ClassPlan \<and> cx_pnr c then Some ClassGuard else mk_Class stop)"

definition interrupted :: "ctx \<Rightarrow> attempt_view \<Rightarrow> cause \<Rightarrow> bool \<Rightarrow> run_state" where
  "interrupted c a cause bootUnknown =
     (if av_Phase a = PhaseUnwind \<and> view_count (cx_v c) PhaseUnwind \<ge> MaxUnwindAttempts (cx_tm c)
      then attention c ReasonUnwindPartial
      else (let s = (st c StateInterrupted (cx_la c))\<lparr>st_Cause := cause, st_BootUnknown := bootUnknown,
                       st_Resumable := cx_pnr c\<rparr>
            in case av_Stop a of
                 None \<Rightarrow> s
               | Some stop \<Rightarrow>
                   if av_Phase a \<noteq> PhaseUnwind
                   then (let class = stopClass c stop; s' = stopped s stop class
                         in if cx_pnr c \<and> av_Phase a \<noteq> PhaseVerify
                            then s'\<lparr>st_Resumable := Resumable_class (ClassBehavior class)\<rparr> else s')
                   else s))"

definition notStarted :: "ctx \<Rightarrow> attempt_view \<Rightarrow> run_state" where
  "notStarted c a =
     (if av_Phase a = PhaseUnwind then interrupted c a CauseKilled False
      else (st c StateFailed (av_At a))\<lparr>st_Reason := ReasonStart, st_Resumable := cx_pnr c\<rparr>)"

definition canFinishFromFiles :: "ctx \<Rightarrow> attempt_view \<Rightarrow> bool" where
  "canFinishFromFiles c a \<longleftrightarrow>
     (av_Phase a = PhaseRun \<or> av_Phase a = PhaseRecover) \<and> av_Stop a = None \<and> DonePrereboot (in_Files (cx_in c))"

definition lost :: "ctx \<Rightarrow> attempt_view \<Rightarrow> run_state" where
  "lost c a =
     (let unknown = (\<not> b_OK (in_Boot (cx_in c)) \<or> av_StartBoot a = []);
          cause = (if \<not> unknown \<and> av_StartBoot a \<noteq> b_Now (in_Boot (cx_in c)) then CausePower else CauseKilled)
      in interrupted c a cause unknown)"

definition stoppedBefore :: "ctx \<Rightarrow> attempt_view \<Rightarrow> marker \<Rightarrow> run_state" where
  "stoppedBefore c a stop =
     (let class = mk_Class stop;
          failed = stopped ((st c StateFailed (av_EndAt a))\<lparr>st_Reason := reason_of class\<rparr>) stop class
      in if av_Unwound a = Some ResOk then failed
         else if av_Unwound a = Some ResPartial then attention c ReasonUnwindPartial
         else if class = Some ClassIntegrity then failed
         else interrupted c a CauseKilled False)"

definition autoTries :: "ctx \<Rightarrow> int" where
  "autoTries c =
     foldl (\<lambda>n a. if av_Phase a \<noteq> PhaseRecover then n else if av_Who a = Some WhoOwner then 0 else n + 1)
       0 (vw_attempt (cx_v c))"

definition stoppedAfter :: "ctx \<Rightarrow> attempt_view \<Rightarrow> marker \<Rightarrow> run_state" where
  "stoppedAfter c a stop =
     (let class = (if mk_Class stop = Some ClassPlan then Some ClassGuard else mk_Class stop)
      in if av_Phase a = PhaseVerify
         then (stopped (st c StateFailed (av_EndAt a)) stop class)\<lparr>st_Reason := ReasonVerify, st_Resumable := True\<rparr>
         else (let resumable = Resumable_class (ClassBehavior class)
               in if AutoRecoverTries (cx_tm c) > 0 \<and> autoTries c \<ge> AutoRecoverTries (cx_tm c) \<and>
                     Retryable class (AutoRecoverWave (cx_tm c))
                  then (stopped (st c StateFailed (av_EndAt a)) stop class)
                         \<lparr>st_Reason := ReasonHalf, st_Resumable := resumable\<rparr>
                  else (stopped (st c StateStoppedAtWaypoint (av_EndAt a)) stop class)\<lparr>st_Resumable := resumable\<rparr>))"

text \<open>The latest stop before the point of no return, from the last attempt back.\<close>

definition last_early_stop :: "attempt_view list \<Rightarrow> marker option" where
  "last_early_stop as = List.find (\<lambda>m. \<not> mk_PNR m) (List.map_filter av_Stop (rev as))"

definition unwoundOK :: "ctx \<Rightarrow> attempt_view \<Rightarrow> run_state" where
  "unwoundOK c a =
     (let v = cx_v c; as = vw_attempt v
      in if mk_RunKind (run_of c) = Some RunRehearsal \<and> vw_rehearsalReady v
         then st c StateRehearsalDone (av_EndAt a)
         else (let s = st c StateFailed (av_EndAt a)
               in case last_early_stop as of
                    Some stop \<Rightarrow> stopped (s\<lparr>st_Reason := reason_of (mk_Class stop)\<rparr>) stop (mk_Class stop)
                  | None \<Rightarrow>
                      if AbortFlag (in_Files (cx_in c)) then s\<lparr>st_Reason := OfClass ClassAbort\<rparr>
                      else if length as \<ge> 2 \<and>
                              (let prior = as ! (length as - 2)
                               in av_StartBoot prior \<noteq> [] \<and> av_StartBoot a \<noteq> [] \<and> av_StartBoot prior \<noteq> av_StartBoot a)
                           then s\<lparr>st_Reason := ReasonInterruptedPower\<rparr>
                           else s\<lparr>st_Reason := ReasonInterruptedKilled\<rparr>))"

definition unwound :: "ctx \<Rightarrow> attempt_view \<Rightarrow> run_state" where
  "unwound c a =
     (case av_Stop a of
        Some stop \<Rightarrow>
          if cx_pnr c then stoppedAfter c a stop
          else if av_Unwound a = Some ResOk then unwoundOK c a
          else if av_Unwound a = Some ResPartial then attention c ReasonUnwindPartial
          else interrupted c a CauseKilled False
      | None \<Rightarrow>
          if av_Unwound a = Some ResOk then unwoundOK c a
          else if av_Unwound a = Some ResPartial then attention c ReasonUnwindPartial
          else interrupted c a CauseKilled False)"

record result =
  re_kind :: mkind
  re_boot :: string
  re_yes :: bool
  re_at :: instant
  re_attempt :: "attempt_view option"

definition checkBegan :: "ctx \<Rightarrow> bool" where
  "checkBegan c = list_ex (\<lambda>a. av_Phase a = PhaseVerify \<and> av_Started a) (vw_attempt (cx_v c))"

text \<open>\<open>c.v.mAttempt\<close>, the attempt that the latest result belongs to.\<close>

definition mAttempt :: "view \<Rightarrow> attempt_view option" where
  "mAttempt v =
     (case vw_mAttempt v of
        None \<Rightarrow> None
      | Some i \<Rightarrow> if i < length (vw_attempt v) then Some (vw_attempt v ! i) else None)"

definition files_result :: "ctx \<Rightarrow> result option" where
  "files_result c =
     (let f = in_Files (cx_in c)
      in if DoneAfter f
         then Some \<lparr>re_kind = MkVerifyDone, re_boot = [], re_yes = False, re_at = cx_la c, re_attempt = None\<rparr>
         else if DonePrereboot f \<and> BootIDFile f \<noteq> []
         then Some \<lparr>re_kind = MkRebootPending,
                    re_boot = (if \<not> ValidUUID (BootIDFile f) then [] else BootIDFile f),
                    re_yes = False, re_at = cx_la c, re_attempt = None\<rparr>
         else if DonePrereboot f
         then Some \<lparr>re_kind = MkRebootNotNeeded, re_boot = [], re_yes = False, re_at = cx_la c, re_attempt = None\<rparr>
         else None)"

definition result_of :: "ctx \<Rightarrow> result option" where
  "result_of c =
     (let f = in_Files (cx_in c)
      in if DoneAfter f \<and> \<not> checkBegan c then None
         else (case vw_m (cx_v c) of
                 None \<Rightarrow> files_result c
               | Some m \<Rightarrow>
                   if \<not> (DoneAfter f \<and> mk_Kind m \<noteq> MkVerifyDone)
                   then Some \<lparr>re_kind = mk_Kind m, re_boot = mk_Boot m, re_yes = (mk_Result m = Some ResYes),
                              re_at = mk_At m, re_attempt = mAttempt (cx_v c)\<rparr>
                   else files_result c))"

definition waiting :: "ctx \<Rightarrow> result \<Rightarrow> run_state" where
  "waiting c r =
     (let unknown = (\<not> b_OK (in_Boot (cx_in c)) \<or> re_boot r = [])
      in if \<not> unknown \<and> b_Now (in_Boot (cx_in c)) \<noteq> re_boot r then st c StateResuming (re_at r)
         else (let req = vw_reqAt (cx_v c);
                   s0 = (if req = zero_time then st c StateAwaitingReboot (re_at r)
                         else if age c req < RebootStall (cx_tm c) then st c StateRebooting req
                         else (st c StateRebootStalled req)\<lparr>st_Stalled := True\<rparr>);
                   s1 = s0\<lparr>st_BootUnknown := unknown\<rparr>
               in if st_Name s1 \<noteq> StateRebooting \<and> mk_RunKind (run_of c) = Some RunHop
                  then s1\<lparr>st_RebootBlocked :=
                         (case in_Barrier (cx_in c) of
                            None \<Rightarrow> True
                          | Some b \<Rightarrow> \<not> bar_OK b \<or> \<not> DonePrereboot (in_Files (cx_in c)))\<rparr>
                  else s1))"

definition verdict :: "ctx \<Rightarrow> result \<Rightarrow> run_state" where
  "verdict c r =
     (case in_Verify (cx_in c) of
        None \<Rightarrow> st c StateVerifying (re_at r)
      | Some vr \<Rightarrow>
          if vr_Errors vr > 0
          then (st c StateFailed (re_at r))\<lparr>st_Reason := ReasonVerify, st_Resumable := True\<rparr>
          else if vr_Warnings vr > 0
          then (st c StateSucceededWithFindings (re_at r))\<lparr>st_Resumable := True\<rparr>
          else st c StateSucceeded (re_at r))"

definition byResult :: "ctx \<Rightarrow> attempt_view \<Rightarrow> run_state" where
  "byResult c a =
     (case result_of c of
        None \<Rightarrow>
          if av_Phase a = PhaseVerify then interrupted c a CauseKilled False
          else attention c ReasonRunDamaged
      | Some r \<Rightarrow>
          if re_kind r = MkRefreshDone
          then (let unknown = (\<not> b_OK (in_Boot (cx_in c)) \<or>
                               (case re_attempt r of None \<Rightarrow> True | Some ra \<Rightarrow> av_StartBoot ra = []));
                    same = (case re_attempt r of None \<Rightarrow> False | Some ra \<Rightarrow> b_Now (in_Boot (cx_in c)) = av_StartBoot ra)
                in if re_yes r \<and> (unknown \<or> same)
                   then (st c StateRebootFirst (re_at r))\<lparr>st_BootUnknown := unknown\<rparr>
                   else st c StateRefreshed (re_at r))
          else if re_kind r = MkRehearsalReady
          then (st c StateRehearsed (re_at r))\<lparr>st_ExpiresAt := Some (re_at r + RehearsalTTL (cx_tm c))\<rparr>
          else if re_kind r = MkRebootPending then waiting c r
          else if re_kind r = MkRebootNotNeeded then st c StateResuming (re_at r)
          else if \<not> DoneAfter (in_Files (cx_in c)) then attention c ReasonRunDamaged
          else verdict c r)"

text \<open>The state of an attempt whose unit is running, or is being started; \<open>None\<close> when it is neither.\<close>

definition live :: "ctx \<Rightarrow> attempt_view \<Rightarrow> run_state option" where
  "live c a =
     (if \<not> attempt_open a then None
      else if systemdSilent c then Some (attention c ReasonSystemdSilent)
      else if \<not> av_Started a \<and> \<not> u_Active (in_Unit (cx_in c)) \<and> age c (av_At a) \<ge> StartLostSilent (cx_tm c) then None
      else if active c then Some (running c a)
      else if inFlight c
      then (if av_Phase a = PhaseVerify
            then (case result_of c of
                    Some r \<Rightarrow>
                      if re_kind r = MkRebootPending \<or> re_kind r = MkRebootNotNeeded then Some (byResult c a)
                      else Some (running c a)
                  | None \<Rightarrow> Some (running c a))
            else Some (running c a))
      else None)"

definition settled :: "ctx \<Rightarrow> attempt_view \<Rightarrow> run_state" where
  "settled c a =
     (if av_Started a \<and> av_Phase a = PhaseVerify \<and> av_Stop a = None \<and> DoneAfter (in_Files (cx_in c)) then byResult c a
      else if \<not> av_Started a then notStarted c a
      else if \<not> av_Ended a
      then (if canFinishFromFiles c a \<or>
               av_Result a \<noteq> None \<and> (av_Phase a = PhaseRefresh \<or> av_Phase a = PhaseRehearse)
            then byResult c a else lost c a)
      else if av_Phase a = PhaseUnwind then unwound c a
      else (case av_Stop a of
              Some stop \<Rightarrow>
                if \<not> cx_pnr c \<and> av_Phase a \<noteq> PhaseVerify then stoppedBefore c a stop else stoppedAfter c a stop
            | None \<Rightarrow> byResult c a))"

definition decide_ctx :: "ctx \<Rightarrow> run_state" where
  "decide_ctx c =
     (let v = cx_v c
      in if vw_acked v then (st c StateIdle (vw_lastAt v))\<lparr>st_Closed := True\<rparr>
         else if vw_takeover v
         then (if DoneAfter (in_Files (cx_in c)) then st c StateManualDone (cx_la c) else st c StateManual (cx_la c))
         else if in_Damaged (cx_in c) then attention c ReasonRunDamaged
         else (case cx_a c of
                 None \<Rightarrow>
                   if cx_pnr c \<or> u_Active (in_Unit (cx_in c)) then attention c ReasonRunDamaged
                   else if age c (vw_queued v) \<ge> StartLost (cx_tm c)
                   then (st c StateFailed (vw_queued v))\<lparr>st_Reason := ReasonStart\<rparr>
                   else st c StateIdle (vw_queued v)
               | Some a \<Rightarrow>
                   (case live c a of
                      Some s \<Rightarrow> s
                    | None \<Rightarrow>
                        (let s = settled c a
                         in if st_Busy s \<and> st_Name s \<noteq> StateRebooting \<and> st_Name s \<noteq> StateNeedsAttention \<and> silentForLong c
                            then attention c ReasonSystemdSilent else s))))"

definition decide :: "view \<Rightarrow> input \<Rightarrow> timing \<Rightarrow> run_state" where
  "decide v i tm =
     (if \<not> vw_valid v \<or> vw_run v = None
      then (let pnr = PNR (in_Files i)
            in if pnr \<or> u_Active (in_Unit i) \<or> in_Damaged i
               then (blank_state StateNeedsAttention)\<lparr>st_Reason := ReasonRunDamaged, st_PNR := pnr,
                      st_Reversible := \<not> pnr, st_Busy := True,
                      st_HalfUpgraded := pnr \<and> \<not> DonePrereboot (in_Files i)\<rparr>
               else (blank_state StateIdle)\<lparr>st_PNR := pnr, st_Reversible := \<not> pnr\<rparr>)
      else decide_ctx (newCtxFrom v i tm))"

subsection \<open>Folding the markers\<close>

text \<open>A change of the latest attempt, which the Go code makes through the pointer to it.\<close>

definition set_last :: "view \<Rightarrow> attempt_view \<Rightarrow> view" where
  "set_last v a = v\<lparr>vw_attempt := butlast (vw_attempt v) @ [a]\<rparr>"

definition addUnitMarker :: "view \<Rightarrow> attempt_view \<Rightarrow> marker \<Rightarrow> input \<Rightarrow> timing \<Rightarrow> view" where
  "addUnitMarker v a m i tm =
     (if mk_Kind m \<in> {MkBlockStart, MkBlockDone, MkBlockSkipped}
      then (let a1 = a\<lparr>av_events := Suc (av_events a)\<rparr>
            in if av_events a1 > maxBlockEvents then set_last v a1
               else (let ref = \<lparr>br_Index = mk_Index m, br_ID = mk_ID m\<rparr>;
                         a2 = (if mk_Kind m = MkBlockStart then a1\<lparr>av_Block := ref, av_LastStart := mk_ID m\<rparr>
                               else if av_Block a1 = ref then a1\<lparr>av_Block := no_block\<rparr> else a1)
                     in touch (set_last v a2) (mk_At m)))
      else if mk_Kind m = MkStop
      then touch (set_last v (if av_Stop a = None \<and> av_Result a = None then a\<lparr>av_Stop := Some m\<rparr> else a)) (mk_At m)
      else if mk_Kind m = MkUnwound
      then touch (set_last v
             (if av_Unwound a = None \<and>
                 (av_Phase a = PhaseUnwind \<or> (case av_Stop a of None \<Rightarrow> False | Some s \<Rightarrow> \<not> mk_PNR s))
              then a\<lparr>av_Unwound := mk_Result m\<rparr> else a)) (mk_At m)
      else if mk_Kind m \<in> {MkRefreshDone, MkRehearsalReady, MkRebootPending, MkRebootNotNeeded, MkVerifyDone}
      then (if av_Stop a \<noteq> None \<or> av_Result a \<noteq> None \<or> \<not> resultOfPhase (mk_Kind m) (av_Phase a) then v
            else touch ((set_last v (a\<lparr>av_Result := Some m\<rparr>))
                   \<lparr>vw_m := Some m, vw_mAttempt := Some (length (vw_attempt v) - 1), vw_reqAt := zero_time,
                    vw_rehearsalReady := vw_rehearsalReady v \<or> mk_Kind m = MkRehearsalReady\<rparr>) (mk_At m))
      else if mk_Kind m = MkUnitEnd
      then (let v1 = touch (set_last v (a\<lparr>av_Ended := True, av_EndAt := mk_At m\<rparr>)) (mk_At m);
                v2 = v1\<lparr>vw_sealed := sealedBy (decide v1 i tm)\<rparr>
            in touch v2 (mk_At m))
      else v)"

definition add :: "view \<Rightarrow> marker \<Rightarrow> input \<Rightarrow> timing \<Rightarrow> view" where
  "add v m i tm =
     (if mk_Kind m \<in> {MkQueued, MkRun, MkBootSeen} then v
      else if mk_Kind m = MkTakeover then v\<lparr>vw_takeover := True, vw_sealed := True\<rparr>
      else if mk_Kind m = MkRebootRequested then v\<lparr>vw_reqAt := mk_At m\<rparr>
      else if mk_Kind m = MkRebootFailed then v\<lparr>vw_reqAt := zero_time\<rparr>
      else if mk_Kind m = MkAttempt
      then (case mk_Phase m of
              None \<Rightarrow> v
            | Some p \<Rightarrow>
                if mk_N m = int (length (vw_attempt v)) + 1 \<and>
                   phaseFits (case vw_run v of None \<Rightarrow> None | Some r \<Rightarrow> mk_RunKind r) p (vw_attempt v = [])
                then touch (v\<lparr>vw_attempt := vw_attempt v @ [new_attempt (mk_N m) p (mk_From m) (mk_Who m) (mk_At m)]\<rparr>)
                       (mk_At m)
                else v)
      else if mk_Kind m = MkStartFailed
      then (case view_last v of
              None \<Rightarrow> v
            | Some a \<Rightarrow>
                if mk_N m = av_N a \<and> \<not> av_Started a \<and> \<not> av_StartFailed a
                then set_last v (a\<lparr>av_StartFailed := True\<rparr>) else v)
      else if mk_Kind m = MkUnitStart
      then (case view_last v of
              None \<Rightarrow> v
            | Some a \<Rightarrow>
                if mk_N m = av_N a \<and> \<not> av_Started a \<and> mk_Phase m = Some (av_Phase a)
                then touch (set_last v (a\<lparr>av_Started := True, av_StartFailed := False, av_StartAt := mk_At m,
                              av_StartBoot := mk_Boot m\<rparr>)) (mk_At m)
                else v)
      else (case view_last v of
              None \<Rightarrow> v
            | Some a \<Rightarrow>
                if mk_N m \<noteq> av_N a \<or> \<not> av_Started a \<or> av_Ended a then v else addUnitMarker v a m i tm))"

text \<open>One marker of the loop of \<open>scan\<close>.\<close>

definition scan_step :: "input \<Rightarrow> timing \<Rightarrow> view \<Rightarrow> marker \<Rightarrow> view" where
  "scan_step i tm v m =
     (if vw_run v = None then (if mk_Kind m = MkRun then v\<lparr>vw_run := Some m\<rparr> else v)
      else if mk_Kind m = MkAck then v\<lparr>vw_acked := True\<rparr>
      else if vw_sealed v then v
      else add v m i tm)"

definition scan :: "input \<Rightarrow> timing \<Rightarrow> view" where
  "scan i tm =
     (case in_Markers i of
        [] \<Rightarrow> empty_view
      | q # ms \<Rightarrow>
          if mk_Kind q \<noteq> MkQueued \<or> mk_N q \<noteq> 0 then empty_view
          else foldl (scan_step i tm) (empty_view\<lparr>vw_valid := True, vw_queued := mk_At q\<rparr>) ms)"

definition newCtx :: "input \<Rightarrow> ctx" where
  "newCtx i = (let tm = timingOf i in newCtxFrom (scan i tm) i tm)"

definition Reduce :: "input \<Rightarrow> run_state" where
  "Reduce i = (let tm = timingOf i in decide (scan i tm) i tm)"

definition NextAttempt :: "input \<Rightarrow> int" where
  "NextAttempt i = int (length (vw_attempt (scan i (timingOf i)))) + 1"

end
