(* ===== verification/OsrunAction.thy ===== *)
theory OsrunAction
  imports OsrunReduce
begin

section \<open>What to do next about a run, and what the owner may do\<close>

text \<open>
  Models the rest of \<open>pkg/osrun/action.go\<close>: the one thing the core does next (\<open>NextAction\<close>), the buttons
  that are valid for a state (\<open>ActionsFor\<close>), the typed word (\<open>NeedsAckWord\<close>), the reminders, the hint for a
  failure and the shape of an attempt to launch.
\<close>

subsection \<open>Actions\<close>

datatype do_kind =
    DoNone | DoUnwind | DoLaunchVerify | DoLaunchRecover | DoJudge | DoBarrier | DoRemind | DoCleanup | DoAlert

record action =
  ac_Kind :: do_kind
  ac_Phase :: "phase option"
  ac_From :: "block option"
  ac_Who :: "who option"
  ac_N :: int

definition just :: "do_kind \<Rightarrow> action" where
  "just k = \<lparr>ac_Kind = k, ac_Phase = None, ac_From = None, ac_Who = None, ac_N = 0\<rparr>"

text \<open>The buttons: each state switches some on, and they are listed in the order of \<open>ActionNames\<close>.\<close>

definition want :: "run_state \<Rightarrow> button \<Rightarrow> bool" where
  "want s b =
     (if st_Name s \<in> {StateRefreshing, StateRehearsing, StateRunning} then b = ActionAbort \<and> st_Abortable s
      else if st_Name s = StateRebootFirst then b = ActionReboot \<or> b = ActionAcknowledge
      else if st_Name s \<in> {StateRefreshed, StateRehearsalDone, StateSucceeded, StateManual, StateManualDone}
      then b = ActionAcknowledge
      else if st_Name s = StateSucceededWithFindings then b = ActionAcknowledge \<or> b = ActionResume \<and> st_Resumable s
      else if st_Name s = StateRehearsed then b = ActionDiscard
      else if st_Name s = StateFailed
      then b = ActionAcknowledge \<and> (\<not> st_PNR s \<or> st_Reason s \<noteq> ReasonStart) \<or>
           b = ActionDiscard \<and> \<not> st_PNR s \<or>
           b = ActionResume \<and> st_PNR s \<and> st_Resumable s \<or>
           b = ActionTakeover \<and> st_PNR s
      else if st_Name s \<in> {StateAwaitingReboot, StateRebootStalled}
      then b = ActionReboot \<and> \<not> st_RebootBlocked s \<or> b = ActionTakeover
      else if st_Name s \<in> {StateInterrupted, StateStoppedAtWaypoint}
      then (let forward = (st_Name s = StateStoppedAtWaypoint \<or> st_PNR s)
            in b = ActionResume \<and> forward \<and> st_Resumable s \<or> b = ActionTakeover \<and> forward \<or>
               b = ActionAcknowledge \<and> forward)
      else if st_Name s = StateNeedsAttention
      then b = ActionTakeover \<and> st_Reason s \<noteq> ReasonSystemdSilent \<or> b = ActionAcknowledge
      else False)"

definition ActionsFor :: "run_state \<Rightarrow> button list" where
  "ActionsFor s = filter (want s) ActionNames"

definition NeedsAckWord :: "run_state \<Rightarrow> bool" where
  "NeedsAckWord s \<longleftrightarrow>
     (st_HalfUpgraded s \<or> st_Name s = StateNeedsAttention \<or> st_Name s = StateManual) \<and>
     ActionAcknowledge \<in> set (ActionsFor s)"

text \<open>Go's integer division truncates; here both sides are not negative.\<close>

definition remindersDue :: "duration \<Rightarrow> duration \<times> duration \<times> duration \<Rightarrow> int" where
  "remindersDue waited r =
     (case r of (r0, r1, r2) \<Rightarrow>
        if waited < r0 then 0
        else if waited < r1 then 1
        else if r2 \<le> 0 then 2
        else 2 + (waited - r1) div r2)"

subsection \<open>The next action\<close>

definition canLaunch :: "ctx \<Rightarrow> bool" where
  "canLaunch c \<longleftrightarrow> u_Answered (in_Unit (cx_in c)) \<and> \<not> u_Active (in_Unit (cx_in c)) \<and> \<not> inFlight c"

definition resumeWaited :: "ctx \<Rightarrow> bool" where
  "resumeWaited c =
     (let seen = in_BootSeenAt (cx_in c);
          from = (if seen = zero_time
                  then (case result_of c of
                          Some r \<Rightarrow> if re_kind r = MkRebootNotNeeded then re_at r else seen
                        | None \<Rightarrow> seen)
                  else seen)
      in from \<noteq> zero_time \<and> age c from \<ge> ResumeWait (cx_tm c))"

definition rehearsalMachineRestarted :: "ctx \<Rightarrow> bool" where
  "rehearsalMachineRestarted c =
     (case List.find (\<lambda>a. av_Phase a = PhaseRehearse \<and> av_Started a \<and> av_StartBoot a \<noteq> []) (vw_attempt (cx_v c)) of
        Some a \<Rightarrow> b_OK (in_Boot (cx_in c)) \<and> b_Now (in_Boot (cx_in c)) \<noteq> av_StartBoot a
      | None \<Rightarrow> False)"

definition relaunchVerify :: "ctx \<Rightarrow> action" where
  "relaunchVerify c =
     (if \<not> canLaunch c then just DoNone
      else if view_count (cx_v c) PhaseVerify \<ge> MaxVerifyAttempts (cx_tm c) then just DoAlert
      else (just DoLaunchVerify)\<lparr>ac_Phase := Some PhaseVerify, ac_Who := Some WhoAuto\<rparr>)"

definition backoff_of :: "timing \<Rightarrow> int \<Rightarrow> duration" where
  "backoff_of tm tries = (if min tries 1 = 0 then fst (Backoff tm) else snd (Backoff tm))"

definition afterStop :: "ctx \<Rightarrow> run_state \<Rightarrow> action" where
  "afterStop c s =
     (if \<not> canLaunch c then just DoNone
      else (let class = (if st_Class s = None then Some ClassUnknown else st_Class s);
                tries = autoTries c
            in if AutoRecoverTries (cx_tm c) \<le> 0 \<or> tries \<ge> AutoRecoverTries (cx_tm c) \<or>
                  \<not> Retryable class (AutoRecoverWave (cx_tm c))
               then just DoAlert
               else if age c (cx_la c) < backoff_of (cx_tm c) tries then just DoNone
               else (case FirstMissing (in_Files (cx_in c)) of
                       None \<Rightarrow> just DoAlert
                     | Some from \<Rightarrow> (just DoLaunchRecover)\<lparr>ac_Phase := Some PhaseRecover, ac_From := Some from,
                                      ac_Who := Some WhoAuto\<rparr>)))"

definition unwind_action :: action where
  "unwind_action = (just DoUnwind)\<lparr>ac_Phase := Some PhaseUnwind, ac_Who := Some WhoAuto\<rparr>"

definition afterInterruption :: "ctx \<Rightarrow> run_state \<Rightarrow> action" where
  "afterInterruption c s =
     (case cx_a c of
        None \<Rightarrow> just DoNone
      | Some a \<Rightarrow>
          if \<not> canLaunch c then just DoNone
          else if av_Phase a = PhaseVerify then relaunchVerify c
          else if \<not> st_PNR s
          then (if view_count (cx_v c) PhaseUnwind \<ge> MaxUnwindAttempts (cx_tm c) then just DoAlert else unwind_action)
          else afterStop c s)"

definition nextAction :: "run_state \<Rightarrow> input \<Rightarrow> action" where
  "nextAction s i =
     (let c = newCtx i; tm = cx_tm c
      in if vw_run (cx_v c) = None \<or> \<not> vw_valid (cx_v c) then just DoNone
         else if st_Closed s then just DoCleanup
         else if st_Name s = StateInterrupted then afterInterruption c s
         else if st_Name s = StateRehearsed
         then (if canLaunch c \<and>
                  ((case st_ExpiresAt s of Some e \<Rightarrow> \<not> in_Now i < e | None \<Rightarrow> False) \<or> rehearsalMachineRestarted c)
               then unwind_action else just DoNone)
         else if st_Name s = StateResuming
         then (if canLaunch c \<and> (in_Ready i \<or> resumeWaited c) then relaunchVerify c else just DoNone)
         else if st_Name s = StateFailed
         then (if st_PNR s \<and> st_Reason s = ReasonStart
               then (case cx_a c of
                       Some a \<Rightarrow> if av_Phase a = PhaseVerify then relaunchVerify c else afterStop c s
                     | None \<Rightarrow> afterStop c s)
               else just DoNone)
         else if st_Name s = StateStoppedAtWaypoint then afterStop c s
         else if st_Name s = StateVerifying
         then (if u_Answered (in_Unit i) \<and> \<not> active c \<and> \<not> inFlight c then just DoJudge else just DoNone)
         else if st_Name s \<in> {StateAwaitingReboot, StateRebootStalled}
         then (let due = remindersDue (age c (st_Since s)) (Reminders tm)
               in if due > in_Reminded i then (just DoRemind)\<lparr>ac_N := due\<rparr> else just DoBarrier)
         else if st_Name s = StateRebootFirst
         then (let due = remindersDue (age c (st_Since s)) (Reminders tm)
               in if due > in_Reminded i then (just DoRemind)\<lparr>ac_N := due\<rparr> else just DoNone)
         else just DoNone)"

definition NextAction :: "run_state \<Rightarrow> input \<Rightarrow> action" where
  "NextAction s i =
     (let act = nextAction s i
      in if ac_Kind act = DoUnwind \<and> PNR (in_Files i) then just DoNone else act)"

subsection \<open>The shape of an attempt\<close>

record attempt =
  at_RunID :: string
  at_Nonce :: string
  at_Phase :: string
  at_N :: int

datatype attempt_error = BadRunID | BadNonce | BadPhase | BadNumber

definition Validate :: "attempt \<Rightarrow> attempt_error option" where
  "Validate a =
     (if \<not> ValidUUID (at_RunID a) then Some BadRunID
      else if \<not> ValidNonce (at_Nonce a) then Some BadNonce
      else if \<not> ValidPhase (at_Phase a) then Some BadPhase
      else if at_N a < 1 \<or> at_N a > 999 then Some BadNumber
      else None)"

end
