(* ===== verification/OsrunReduceFacts.thy ===== *)
theory OsrunReduceFacts
  imports OsrunAction
begin

section \<open>Facts about the reducer\<close>

text \<open>
  The lemmas that the properties of the reducer rest on: what every state carries (its point of no
  return, its flags), which states each branch of the decision can give, and the invariant of
  the view that the fold over the markers keeps.
\<close>

named_theorems sound_intros \<open>every branch of the decision gives a state of the reading\<close>
named_theorems branch_defs \<open>the branches of the decision\<close>

subsection \<open>What every state of a reading carries\<close>

lemma st_fields [simp]:
  "st_Name (st c n t) = n" "st_PNR (st c n t) = cx_pnr c" "st_Reversible (st c n t) = (\<not> cx_pnr c)"
  "st_Busy (st c n t) = busyOf n (cx_pnr c)" "st_Closed (st c n t) = False"
  "st_HalfUpgraded (st c n t) = (cx_pnr c \<and> \<not> DonePrereboot (in_Files (cx_in c)))"
  "st_Kind (st c n t) = mk_RunKind (run_of c)" "st_Since (st c n t) = t"
  "st_Phase (st c n t) = map_option av_Phase (cx_a c)" "st_Reason (st c n t) = NoReason"
  "st_Class (st c n t) = None" "st_Resumable (st c n t) = False" "st_Abortable (st c n t) = False"
  "st_RebootBlocked (st c n t) = False"
  by (simp_all add: st_def Let_def blank_state_def split: option.split)

lemma stopped_fields [simp]:
  "st_Name (stopped s m k) = st_Name s" "st_PNR (stopped s m k) = st_PNR s"
  "st_Reversible (stopped s m k) = st_Reversible s" "st_Busy (stopped s m k) = st_Busy s"
  "st_Closed (stopped s m k) = st_Closed s" "st_HalfUpgraded (stopped s m k) = st_HalfUpgraded s"
  "st_Kind (stopped s m k) = st_Kind s" "st_Reason (stopped s m k) = st_Reason s"
  "st_Phase (stopped s m k) = st_Phase s" "st_Abortable (stopped s m k) = st_Abortable s"
  "st_RebootBlocked (stopped s m k) = st_RebootBlocked s" "st_Class (stopped s m k) = k"
  by (simp_all add: stopped_def)

lemma attention_fields [simp]:
  "st_Name (attention c r) = StateNeedsAttention" "st_PNR (attention c r) = cx_pnr c"
  "st_Reversible (attention c r) = (\<not> cx_pnr c)" "st_Busy (attention c r)" "\<not> st_Closed (attention c r)"
  "st_HalfUpgraded (attention c r) = (cx_pnr c \<and> \<not> DonePrereboot (in_Files (cx_in c)))"
  "st_Kind (attention c r) = mk_RunKind (run_of c)" "st_Reason (attention c r) = r"
  "\<not> st_Abortable (attention c r)" "\<not> st_RebootBlocked (attention c r)"
  by (simp_all add: attention_def busyOf_def)

text \<open>A state that says of the machine what the reading says of it.\<close>

definition sound :: "ctx \<Rightarrow> run_state \<Rightarrow> bool" where
  "sound c s \<longleftrightarrow>
     st_PNR s = cx_pnr c \<and> st_Reversible s = (\<not> cx_pnr c) \<and> st_Busy s = busyOf (st_Name s) (cx_pnr c) \<and>
     st_HalfUpgraded s = (cx_pnr c \<and> \<not> DonePrereboot (in_Files (cx_in c))) \<and> st_Kind s = mk_RunKind (run_of c) \<and>
     (st_Abortable s \<longrightarrow> \<not> cx_pnr c \<and> st_Name s \<in> {StateRefreshing, StateRehearsing, StateRunning}) \<and>
     (st_Closed s \<longrightarrow> st_Name s = StateIdle)"

lemma sound_st [sound_intros]: "sound c (st c n t)"
  by (simp add: sound_def)

lemma sound_attention [sound_intros]: "sound c (attention c r)"
  by (simp add: sound_def busyOf_def)

lemma sound_stopped [sound_intros]: "sound c s \<Longrightarrow> sound c (stopped s m k)"
  by (simp add: sound_def)

lemma sound_update [sound_intros]:
  "sound c s \<Longrightarrow> sound c (s\<lparr>st_Reason := x1\<rparr>)" "sound c s \<Longrightarrow> sound c (s\<lparr>st_Cause := x2\<rparr>)"
  "sound c s \<Longrightarrow> sound c (s\<lparr>st_BootUnknown := x3\<rparr>)" "sound c s \<Longrightarrow> sound c (s\<lparr>st_Resumable := x4\<rparr>)"
  "sound c s \<Longrightarrow> sound c (s\<lparr>st_Block := x5\<rparr>)" "sound c s \<Longrightarrow> sound c (s\<lparr>st_Stalled := x6\<rparr>)"
  "sound c s \<Longrightarrow> sound c (s\<lparr>st_RebootBlocked := x7\<rparr>)" "sound c s \<Longrightarrow> sound c (s\<lparr>st_ExpiresAt := x8\<rparr>)"
  "sound c (st c StateIdle t) \<Longrightarrow> sound c ((st c StateIdle t)\<lparr>st_Closed := x9\<rparr>)"
  by (simp_all add: sound_def)

lemma sound_interrupted [sound_intros]: "sound c (interrupted c a k u)"
  by (auto simp: interrupted_def Let_def intro!: sound_intros split: option.split)

lemma sound_running [sound_intros]: "sound c (running c a)"
  by (auto simp: running_def Let_def sound_def)

lemma sound_stoppedBefore [sound_intros]: "sound c (stoppedBefore c a m)"
  by (auto simp: stoppedBefore_def Let_def intro!: sound_intros)

lemma sound_stoppedAfter [sound_intros]: "sound c (stoppedAfter c a m)"
  by (auto simp: stoppedAfter_def Let_def intro!: sound_intros)

lemma sound_unwoundOK [sound_intros]: "sound c (unwoundOK c a)"
  by (auto simp: unwoundOK_def Let_def intro!: sound_intros split: option.split)

lemma sound_unwound [sound_intros]: "sound c (unwound c a)"
  by (auto simp: unwound_def intro!: sound_intros split: option.split)

lemma sound_waiting [sound_intros]: "sound c (waiting c r)"
  by (auto simp: waiting_def Let_def intro!: sound_intros)

lemma sound_verdict [sound_intros]: "sound c (verdict c r)"
  by (auto simp: verdict_def intro!: sound_intros split: option.split)

lemma sound_byResult [sound_intros]: "sound c (byResult c a)"
  by (auto simp: byResult_def Let_def intro!: sound_intros split: option.split)

lemma sound_settled [sound_intros]: "sound c (settled c a)"
  by (auto simp: settled_def notStarted_def lost_def Let_def intro!: sound_intros split: option.split)

lemma sound_live: "live c a = Some s \<Longrightarrow> sound c s"
  by (auto simp: live_def split: if_splits option.splits intro!: sound_intros)

lemma sound_decide_ctx: "sound c (decide_ctx c)"
  by (auto simp: decide_ctx_def Let_def intro!: sound_intros dest: sound_live split: option.split)

end
