(* ===== verification/OsrunView.thy ===== *)
theory OsrunView
  imports OsrunReduceFacts
begin

section \<open>The invariant of the view of a log\<close>

text \<open>
  The markers of a log are written by two programs and can be in any order; the fold of \<open>scan\<close> takes only
  those that fit. This theory states what the fold keeps, whatever the markers are (\<open>view_ok\<close>): the
  attempts are numbered from 1 without a gap, each phase is one that the kind of the run can have in that
  place, what is said of an attempt comes after it began, and the latest result is the result of one
  of the attempts, in a phase that gives that result.
\<close>

subsection \<open>Changes of a view\<close>

lemma touch_fields [simp]:
  "vw_attempt (touch v t) = vw_attempt v" "vw_run (touch v t) = vw_run v" "vw_valid (touch v t) = vw_valid v"
  "vw_m (touch v t) = vw_m v" "vw_mAttempt (touch v t) = vw_mAttempt v" "vw_acked (touch v t) = vw_acked v"
  "vw_sealed (touch v t) = vw_sealed v" "vw_takeover (touch v t) = vw_takeover v"
  "vw_rehearsalReady (touch v t) = vw_rehearsalReady v" "vw_queued (touch v t) = vw_queued v"
  by (simp_all add: touch_def)

lemma set_last_fields [simp]:
  "vw_attempt (set_last v a) = butlast (vw_attempt v) @ [a]" "vw_run (set_last v a) = vw_run v"
  "vw_valid (set_last v a) = vw_valid v" "vw_m (set_last v a) = vw_m v" "vw_acked (set_last v a) = vw_acked v"
  "vw_mAttempt (set_last v a) = vw_mAttempt v" "vw_sealed (set_last v a) = vw_sealed v"
  "vw_takeover (set_last v a) = vw_takeover v" "vw_rehearsalReady (set_last v a) = vw_rehearsalReady v"
  "vw_queued (set_last v a) = vw_queued v"
  by (simp_all add: set_last_def)

lemma touch_touch [simp]: "touch (touch v t) t = touch v t"
  by (simp add: touch_def)

lemma view_last_cong: "vw_attempt v = vw_attempt w \<Longrightarrow> view_last v = view_last w"
  by (simp add: view_last_def)

lemma view_last_touch [simp]: "view_last (touch v t) = view_last v"
  by (rule view_last_cong) simp

lemma view_last_set_last [simp]: "view_last (set_last v a) = Some a"
  by (simp add: view_last_def)

lemma view_last_SomeD:
  assumes "view_last v = Some a"
  shows "vw_attempt v = butlast (vw_attempt v) @ [a]" "vw_attempt v \<noteq> []" "last (vw_attempt v) = a"
  using assms by (auto simp: view_last_def split: if_splits)

subsection \<open>What holds of every attempt\<close>

definition attempt_ok :: "attempt_view \<Rightarrow> bool" where
  "attempt_ok a \<longleftrightarrow>
     (av_Started a \<or> \<not> av_Ended a \<and> av_Stop a = None \<and> av_Unwound a = None \<and> av_Result a = None \<and>
        av_LastStart a = None \<and> av_StartBoot a = []) \<and>
     (\<not> av_Started a \<or> \<not> av_StartFailed a) \<and>
     (case av_Result a of None \<Rightarrow> True | Some m \<Rightarrow> resultOfPhase (mk_Kind m) (av_Phase a))"

definition run_kind_of :: "view \<Rightarrow> run_kind option" where
  "run_kind_of v = (case vw_run v of None \<Rightarrow> None | Some r \<Rightarrow> mk_RunKind r)"

definition numbered :: "run_kind option \<Rightarrow> attempt_view list \<Rightarrow> bool" where
  "numbered k as \<longleftrightarrow>
     (\<forall>i<length as. av_N (as ! i) = int i + 1 \<and> phaseFits k (av_Phase (as ! i)) (i = 0) \<and> attempt_ok (as ! i))"

definition result_placed :: "view \<Rightarrow> bool" where
  "result_placed v \<longleftrightarrow>
     (case vw_m v of
        None \<Rightarrow> vw_mAttempt v = None
      | Some m \<Rightarrow> \<exists>i<length (vw_attempt v). vw_mAttempt v = Some i \<and> av_Result (vw_attempt v ! i) = Some m)"

definition view_ok :: "view \<Rightarrow> bool" where
  "view_ok v \<longleftrightarrow>
     numbered (run_kind_of v) (vw_attempt v) \<and> result_placed v \<and>
     (vw_rehearsalReady v \<longrightarrow> run_kind_of v = Some RunRehearsal) \<and> (vw_takeover v \<longrightarrow> vw_sealed v)"

lemma numbered_Nil [simp]: "numbered k []"
  by (simp add: numbered_def)

lemma numbered_snoc:
  "numbered k (as @ [a]) \<longleftrightarrow>
     numbered k as \<and> av_N a = int (length as) + 1 \<and> phaseFits k (av_Phase a) (as = []) \<and> attempt_ok a"
  by (auto simp: numbered_def nth_append less_Suc_eq)

lemma numbered_last_change:
  assumes "numbered k as" "as \<noteq> []" "av_N a = av_N (last as)" "av_Phase a = av_Phase (last as)" "attempt_ok a"
  shows "numbered k (butlast as @ [a])"
proof -
  have "as = butlast as @ [last as]" using assms(2) by simp
  then have "numbered k (butlast as @ [last as])" using assms(1) by simp
  then show ?thesis using assms(3-5) by (simp add: numbered_snoc)
qed

lemma numbered_last_ok:
  assumes "numbered k (vw_attempt v)" "view_last v = Some a"
  shows "attempt_ok a"
proof -
  have "numbered k (butlast (vw_attempt v) @ [a])"
    using assms view_last_SomeD(1) by metis
  then show ?thesis by (simp add: numbered_snoc)
qed

lemma run_kind_of_cong: "vw_run v = vw_run w \<Longrightarrow> run_kind_of v = run_kind_of w"
  by (simp add: run_kind_of_def)

text \<open>A change of the latest attempt that keeps its number, its phase and its result keeps the invariant.\<close>

lemma result_placed_set_last:
  assumes "result_placed v" "view_last v = Some a" "av_Result a = None \<or> av_Result a' = av_Result a"
  shows "result_placed (set_last v a')"
proof (cases "vw_m v")
  case None
  then show ?thesis using assms by (simp add: result_placed_def)
next
  case (Some m)
  then obtain i where i: "i < length (vw_attempt v)" "vw_mAttempt v = Some i" "av_Result (vw_attempt v ! i) = Some m"
    using assms by (auto simp: result_placed_def)
  note last = view_last_SomeD [OF assms(2)]
  have "av_Result ((butlast (vw_attempt v) @ [a']) ! i) = Some m"
  proof (cases "i < length (butlast (vw_attempt v))")
    case True
    then show ?thesis using i(3) by (simp add: nth_append nth_butlast)
  next
    case False
    then have "i = length (vw_attempt v) - 1" using i(1) by simp
    then have "vw_attempt v ! i = a" using last by (simp add: last_conv_nth)
    then show ?thesis using i(3) assms(3) False \<open>i = length (vw_attempt v) - 1\<close> by (auto simp: nth_append)
  qed
  then show ?thesis using Some i(1,2) last(2) by (auto simp: result_placed_def)
qed

lemma view_ok_set_last:
  assumes "view_ok v" "view_last v = Some a" "av_N a' = av_N a" "av_Phase a' = av_Phase a" "attempt_ok a'"
    and "av_Result a = None \<or> av_Result a' = av_Result a"
  shows "view_ok (set_last v a')"
proof -
  note last = view_last_SomeD [OF assms(2)]
  have "numbered (run_kind_of v) (butlast (vw_attempt v) @ [a'])"
    using assms last by (intro numbered_last_change) (simp_all add: view_ok_def)
  then show ?thesis
    using assms result_placed_set_last [OF _ assms(2,6)] by (simp add: view_ok_def run_kind_of_cong [of "set_last v a'" v])
qed

lemma view_ok_cong:
  assumes "vw_run v = vw_run w" "vw_attempt v = vw_attempt w" "vw_m v = vw_m w" "vw_mAttempt v = vw_mAttempt w"
    and "vw_rehearsalReady v = vw_rehearsalReady w" "vw_takeover v \<longrightarrow> vw_sealed v" "vw_takeover w \<longrightarrow> vw_sealed w"
  shows "view_ok v = view_ok w"
  using assms by (simp add: view_ok_def result_placed_def run_kind_of_def cong: option.case_cong)

lemma view_ok_touch [simp]: "view_ok (touch v t) = view_ok v"
  by (simp add: view_ok_def result_placed_def run_kind_of_def split: option.split)

subsection \<open>Every marker keeps the invariant\<close>

lemma attempt_ok_new: "attempt_ok (new_attempt n p f w t)"
  by (simp add: attempt_ok_def new_attempt_def)

lemma new_attempt_fields [simp]:
  "av_N (new_attempt n p f w t) = n" "av_Phase (new_attempt n p f w t) = p" "\<not> av_Ended (new_attempt n p f w t)"
  "\<not> av_Started (new_attempt n p f w t)"
  by (simp_all add: new_attempt_def)

text \<open>The changes that a marker of the unit makes to an attempt that has begun.\<close>

definition unit_change :: "attempt_view \<Rightarrow> attempt_view \<Rightarrow> bool" where
  "unit_change a a' \<longleftrightarrow>
     av_N a' = av_N a \<and> av_Phase a' = av_Phase a \<and> av_Started a' = av_Started a \<and> av_StartFailed a' = av_StartFailed a \<and>
     (av_Result a = None \<or> av_Result a' = av_Result a) \<and>
     (case av_Result a' of None \<Rightarrow> True | Some m \<Rightarrow> av_Result a = Some m \<or> resultOfPhase (mk_Kind m) (av_Phase a))"

lemma view_ok_unit_change:
  assumes "view_ok v" "view_last v = Some a" "av_Started a" "unit_change a a'"
  shows "view_ok (set_last v a')"
proof (rule view_ok_set_last [OF assms(1,2)])
  have "attempt_ok a" using assms numbered_last_ok by (auto simp: view_ok_def)
  then show "attempt_ok a'" using assms(3,4) by (auto simp: attempt_ok_def unit_change_def split: option.splits)
qed (use assms(4) in \<open>auto simp: unit_change_def\<close>)

lemma view_ok_result:
  assumes "view_ok v" "view_last v = Some a" "av_Started a" "av_Result a = None" "resultOfPhase (mk_Kind m) (av_Phase a)"
  shows "view_ok ((set_last v (a\<lparr>av_Result := Some m\<rparr>))
           \<lparr>vw_m := Some m, vw_mAttempt := Some (length (vw_attempt v) - 1), vw_reqAt := zero_time,
            vw_rehearsalReady := vw_rehearsalReady v \<or> mk_Kind m = MkRehearsalReady\<rparr>)"
proof -
  let ?w = "set_last v (a\<lparr>av_Result := Some m\<rparr>)"
  have w: "view_ok ?w"
    by (rule view_ok_unit_change [OF assms(1-3)]) (use assms(4,5) in \<open>simp add: unit_change_def\<close>)
  have kind: "mk_Kind m = MkRehearsalReady \<Longrightarrow> run_kind_of v = Some RunRehearsal"
  proof -
    assume "mk_Kind m = MkRehearsalReady"
    then have "av_Phase a = PhaseRehearse" using assms(5) by (simp add: resultOfPhase_def)
    moreover have "numbered (run_kind_of v) (butlast (vw_attempt v) @ [a])"
      using assms(1,2) view_last_SomeD(1) unfolding view_ok_def by metis
    ultimately show ?thesis by (auto simp: numbered_snoc phaseFits_def split: option.splits run_kind.splits)
  qed
  have "vw_attempt v \<noteq> []" by (rule view_last_SomeD(2) [OF assms(2)])
  then show ?thesis
    using w kind by (auto simp: view_ok_def result_placed_def run_kind_of_def nth_append)
qed

lemma view_ok_addUnitMarker:
  assumes "view_ok v" "view_last v = Some a" "av_Started a" "\<not> vw_sealed v"
  shows "view_ok (addUnitMarker v a m i tm)"
proof -
  have free: "\<not> vw_takeover v" using assms(1,4) by (simp add: view_ok_def)
  have change: "view_ok (set_last v a')" if "unit_change a a'" for a'
    by (rule view_ok_unit_change [OF assms(1-3) that])
  have seal: "view_ok (w\<lparr>vw_sealed := b\<rparr>) = view_ok w" if "\<not> vw_takeover w" for w b
    using that by (intro view_ok_cong) simp_all
  have keep: "unit_change a (a\<lparr>av_events := n\<rparr>)" "unit_change a (a\<lparr>av_events := n, av_Block := r\<rparr>)"
    "unit_change a (a\<lparr>av_events := n, av_Block := r, av_LastStart := l\<rparr>)" "unit_change a (a\<lparr>av_Stop := x\<rparr>)"
    "unit_change a a" "unit_change a (a\<lparr>av_Unwound := u\<rparr>)" "unit_change a (a\<lparr>av_Ended := e, av_EndAt := t\<rparr>)" for n r l x u e t
    by (simp_all add: unit_change_def split: option.split)
  note kept = keep [THEN change]
  show ?thesis
    using assms free view_ok_result [OF assms(1-3), of m]
    by (cases "mk_Kind m") (simp_all add: addUnitMarker_def Let_def seal kept)
qed

lemma view_ok_add:
  assumes "view_ok v" "vw_run v \<noteq> None" "\<not> vw_sealed v"
  shows "view_ok (add v m i tm)"
proof -
  have ok: "attempt_ok a" if "view_last v = Some a" for a
    using assms(1) that numbered_last_ok by (auto simp: view_ok_def)
  have req: "view_ok (v\<lparr>vw_reqAt := t\<rparr>)" for t
    using assms by (subst view_ok_cong [of _ v]) (simp_all add: view_ok_def)
  have take: "view_ok (v\<lparr>vw_takeover := True, vw_sealed := True\<rparr>)"
    using assms by (subst view_ok_cong [of _ v]) (simp_all add: view_ok_def)
  have new: "view_ok (v\<lparr>vw_attempt := vw_attempt v @ [new_attempt (int (length (vw_attempt v)) + 1) p f w t]\<rparr>)"
    if "phaseFits (run_kind_of v) p (vw_attempt v = [])" for p f w t
    using assms that
    by (auto simp: view_ok_def run_kind_of_def numbered_snoc attempt_ok_new result_placed_def nth_append split: option.splits)
  have failed: "view_ok (set_last v (a\<lparr>av_StartFailed := True\<rparr>))" if "view_last v = Some a" "\<not> av_Started a" for a
    using ok [OF that(1)] that assms by (intro view_ok_set_last [OF assms(1) that(1)]) (auto simp: attempt_ok_def)
  have started: "view_ok (set_last v (a\<lparr>av_Started := True, av_StartFailed := False, av_StartAt := t, av_StartBoot := b\<rparr>))"
    if "view_last v = Some a" "\<not> av_Started a" for a t b
    using ok [OF that(1)] that assms by (intro view_ok_set_last [OF assms(1) that(1)]) (auto simp: attempt_ok_def)
  show ?thesis
    using assms(1,3)
    by (cases "mk_Kind m")
      (simp_all add: add_def req take new failed started view_ok_addUnitMarker run_kind_of_def [symmetric] split: option.split)
qed

lemma view_ok_no_run:
  assumes "view_ok v" "vw_run v = None"
  shows "vw_attempt v = []" "vw_m v = None" "vw_mAttempt v = None" "\<not> vw_rehearsalReady v"
proof -
  have kind: "run_kind_of v = None" using assms(2) by (simp add: run_kind_of_def)
  show none: "vw_attempt v = []"
    using assms(1) kind by (fastforce simp: view_ok_def numbered_def phaseFits_def)
  show "vw_m v = None" "vw_mAttempt v = None"
    using assms(1) none by (auto simp: view_ok_def result_placed_def split: option.splits)
  show "\<not> vw_rehearsalReady v" using assms(1) kind by (simp add: view_ok_def)
qed

lemma view_ok_scan_step:
  assumes "view_ok v"
  shows "view_ok (scan_step i tm v m)"
proof (cases "vw_run v")
  case None
  note bare = view_ok_no_run [OF assms None]
  have "view_ok (v\<lparr>vw_run := Some m\<rparr>)"
    using assms bare by (simp add: view_ok_def result_placed_def run_kind_of_def)
  then show ?thesis using assms None by (simp add: scan_step_def)
next
  case (Some r)
  have "view_ok (v\<lparr>vw_acked := True\<rparr>)"
    using assms by (subst view_ok_cong [of _ v]) (simp_all add: view_ok_def)
  then show ?thesis using assms Some by (simp add: scan_step_def view_ok_add)
qed

lemma view_ok_fold: "view_ok v \<Longrightarrow> view_ok (foldl (scan_step i tm) v ms)"
  by (induction ms arbitrary: v) (simp_all add: view_ok_scan_step)

lemma view_ok_empty: "view_ok empty_view" "view_ok (empty_view\<lparr>vw_valid := b, vw_queued := t\<rparr>)"
  by (simp_all add: view_ok_def empty_view_def result_placed_def)

theorem scan_ok: "view_ok (scan i tm)"
  by (simp add: scan_def view_ok_empty view_ok_fold split: list.split)

text \<open>What the invariant says of a run by its kind.\<close>

lemma view_ok_phase:
  assumes "view_ok v" "a \<in> set (vw_attempt v)"
  shows "\<exists>first. phaseFits (run_kind_of v) (av_Phase a) first" "attempt_ok a"
  using assms by (auto simp: view_ok_def numbered_def in_set_conv_nth)

lemma view_last_mem: "view_last v = Some a \<Longrightarrow> a \<in> set (vw_attempt v)"
  by (auto simp: view_last_def split: if_splits)

lemma view_ok_result_kind:
  assumes "view_ok v" "vw_m v = Some m"
  shows "\<exists>a \<in> set (vw_attempt v). mAttempt v = Some a \<and> av_Result a = Some m \<and> resultOfPhase (mk_Kind m) (av_Phase a)"
proof -
  obtain i where i: "i < length (vw_attempt v)" "vw_mAttempt v = Some i" "av_Result (vw_attempt v ! i) = Some m"
    using assms by (auto simp: view_ok_def result_placed_def)
  have mem: "vw_attempt v ! i \<in> set (vw_attempt v)" using i(1) by simp
  have "resultOfPhase (mk_Kind m) (av_Phase (vw_attempt v ! i))"
    using view_ok_phase(2) [OF assms(1) mem] i(3) by (simp add: attempt_ok_def)
  then show ?thesis using i mem by (intro bexI [of _ "vw_attempt v ! i"]) (simp_all add: mAttempt_def)
qed

lemma hop_result_kind:
  assumes "view_ok v" "vw_m v = Some m" "run_kind_of v = Some RunHop"
  shows "mk_Kind m \<in> {MkRebootPending, MkRebootNotNeeded, MkVerifyDone}"
proof -
  obtain a where a: "a \<in> set (vw_attempt v)" "resultOfPhase (mk_Kind m) (av_Phase a)"
    using view_ok_result_kind [OF assms(1,2)] by blast
  obtain first where "phaseFits (Some RunHop) (av_Phase a) first"
    using view_ok_phase(1) [OF assms(1) a(1)] assms(3) by auto
  then show ?thesis using a(2) by (cases "mk_Kind m") (auto simp: resultOfPhase_def phaseFits_def)
qed

text \<open>What no marker takes back: the log that is read, the run that it names, and the owner's closing it.\<close>

lemma scan_step_keeps:
  "vw_valid (scan_step i tm v m) = vw_valid v" "vw_run v \<noteq> None \<Longrightarrow> vw_run (scan_step i tm v m) = vw_run v"
  "vw_acked v \<Longrightarrow> vw_acked (scan_step i tm v m)"
  by (cases "mk_Kind m"; simp add: scan_step_def add_def addUnitMarker_def Let_def split: option.split)+

lemma scan_fold_keeps:
  "vw_valid (foldl (scan_step i tm) v ms) = vw_valid v"
  "vw_run v \<noteq> None \<Longrightarrow> vw_run (foldl (scan_step i tm) v ms) = vw_run v"
  "vw_acked v \<Longrightarrow> vw_acked (foldl (scan_step i tm) v ms)"
  by (induction ms arbitrary: v) (simp_all add: scan_step_keeps)

end
