(* ===== verification/OsrunSeal.thy ===== *)
theory OsrunSeal
  imports OsrunView
begin

section \<open>A run that the log has decided stays decided\<close>

text \<open>
  A run that ended is sealed: from the end of the unit that decided it, only the owner's closing it is
  read. The fold asks the decision itself whether a state is final (\<open>sealedBy\<close>), with the files and the
  clock of today; this theory shows that the seal and the decision agree at every point of the fold
  (\<open>seal_ok\<close>), and so that no marker that is written after it moves the run.
\<close>

subsection \<open>What the decision does not read\<close>

text \<open>
  The decision reads neither the list of markers (it has their view) nor the seal, and of the time of
  a request to restart it makes only one of the states of a machine that waits for its restart.
\<close>

definition reread :: "marker list \<Rightarrow> int \<Rightarrow> bool \<Rightarrow> instant \<Rightarrow> ctx \<Rightarrow> ctx" where
  "reread ms n b t c = c\<lparr>cx_in := (cx_in c)\<lparr>in_Markers := ms, in_Reminded := n\<rparr>, cx_v := (cx_v c)\<lparr>vw_sealed := b, vw_reqAt := t\<rparr>\<rparr>"

named_theorems unread \<open>what does not depend on the markers, the seal and the request to restart\<close>

lemma reread_fields [unread]:
  "cx_tm (reread ms n b t c) = cx_tm c" "cx_a (reread ms n b t c) = cx_a c"
  "cx_pnr (reread ms n b t c) = cx_pnr c" "cx_la (reread ms n b t c) = cx_la c"
  "in_Files (cx_in (reread ms n b t c)) = in_Files (cx_in c)" "in_Unit (cx_in (reread ms n b t c)) = in_Unit (cx_in c)"
  "in_Boot (cx_in (reread ms n b t c)) = in_Boot (cx_in c)" "in_Now (cx_in (reread ms n b t c)) = in_Now (cx_in c)"
  "in_LastActivity (cx_in (reread ms n b t c)) = in_LastActivity (cx_in c)"
  "in_Barrier (cx_in (reread ms n b t c)) = in_Barrier (cx_in c)" "in_Verify (cx_in (reread ms n b t c)) = in_Verify (cx_in c)"
  "in_Damaged (cx_in (reread ms n b t c)) = in_Damaged (cx_in c)"
  "vw_attempt (cx_v (reread ms n b t c)) = vw_attempt (cx_v c)" "vw_run (cx_v (reread ms n b t c)) = vw_run (cx_v c)"
  "vw_m (cx_v (reread ms n b t c)) = vw_m (cx_v c)" "vw_mAttempt (cx_v (reread ms n b t c)) = vw_mAttempt (cx_v c)"
  "vw_rehearsalReady (cx_v (reread ms n b t c)) = vw_rehearsalReady (cx_v c)"
  "vw_takeover (cx_v (reread ms n b t c)) = vw_takeover (cx_v c)" "vw_acked (cx_v (reread ms n b t c)) = vw_acked (cx_v c)"
  "vw_reqAt (cx_v (reread ms n b t c)) = t"
  "vw_lastAt (cx_v (reread ms n b t c)) = vw_lastAt (cx_v c)" "vw_queued (cx_v (reread ms n b t c)) = vw_queued (cx_v c)"
  by (simp_all add: reread_def)

lemma unread_base [unread]:
  "run_of (reread ms n b t c) = run_of c" "age (reread ms n b t c) x = age c x"
  "view_count (cx_v (reread ms n b t c)) p = view_count (cx_v c) p" "mAttempt (cx_v (reread ms n b t c)) = mAttempt (cx_v c)"
  by (simp_all add: run_of_def age_def view_count_def mAttempt_def unread Let_def split: option.split)

lemma unread_st [unread]: "st (reread ms n b t c) name x = st c name x" "attention (reread ms n b t c) r = attention c r"
  by (simp_all add: st_def attention_def unread Let_def split: option.split)

lemma unread_signs [unread]:
  "systemdSilent (reread ms n b t c) = systemdSilent c" "silentForLong (reread ms n b t c) = silentForLong c"
  "spokeLately (reread ms n b t c) = spokeLately c" "startLost (reread ms n b t c) a = startLost c a"
  by (simp_all add: systemdSilent_def silentForLong_def spokeLately_def startLost_def unread Let_def)

lemma unread_active [unread]:
  "active (reread ms n b t c) = active c" "inFlight (reread ms n b t c) = inFlight c"
  "stopClass (reread ms n b t c) m = stopClass c m" "autoTries (reread ms n b t c) = autoTries c"
  "checkBegan (reread ms n b t c) = checkBegan c" "canFinishFromFiles (reread ms n b t c) a = canFinishFromFiles c a"
  by (simp_all add: active_def inFlight_def stopClass_def autoTries_def checkBegan_def canFinishFromFiles_def unread
      Let_def split: option.split)

lemma unread_ends [unread]:
  "interrupted (reread ms n b t c) a k u = interrupted c a k u" "running (reread ms n b t c) a = running c a"
  "stoppedAfter (reread ms n b t c) a m = stoppedAfter c a m" "unwoundOK (reread ms n b t c) a = unwoundOK c a"
  by (simp_all add: interrupted_def running_def stoppedAfter_def unwoundOK_def unread Let_def split: option.split)

lemma unread_results [unread]:
  "files_result (reread ms n b t c) = files_result c" "result_of (reread ms n b t c) = result_of c"
  "verdict (reread ms n b t c) r = verdict c r"
  by (simp_all add: files_result_def result_of_def verdict_def unread Let_def split: option.split)

lemma unread_branches [unread]:
  "stoppedBefore (reread ms n b t c) a m = stoppedBefore c a m" "unwound (reread ms n b t c) a = unwound c a"
  "lost (reread ms n b t c) a = lost c a" "notStarted (reread ms n b t c) a = notStarted c a"
  by (simp_all add: stoppedBefore_def unwound_def lost_def notStarted_def unread Let_def split: option.split)

lemma byResult_reread:
  "byResult (reread ms n b t c) a = byResult c a \<or>
   (\<exists>r. byResult c a = waiting c r \<and> byResult (reread ms n b t c) a = waiting (reread ms n b t c) r)"
proof (cases "result_of c")
  case (Some r)
  then show ?thesis by (cases "re_attempt r") (auto simp: byResult_def unread Let_def)
qed (simp add: byResult_def unread)

lemma settled_reread:
  "settled (reread ms n b t c) a = settled c a \<or>
   (\<exists>r. settled c a = waiting c r \<and> settled (reread ms n b t c) a = waiting (reread ms n b t c) r)"
  using byResult_reread [of ms n b t c a] by (simp add: settled_def unread split: option.split)

text \<open>With the request where it was, nothing changes.\<close>

abbreviation reseal :: "marker list \<Rightarrow> int \<Rightarrow> bool \<Rightarrow> ctx \<Rightarrow> ctx" where
  "reseal ms n b c \<equiv> reread ms n b (vw_reqAt (cx_v c)) c"

lemma waiting_reseal [unread]: "waiting (reseal ms n b c) r = waiting c r"
  by (cases "in_Barrier (cx_in c)") (auto simp: waiting_def unread Let_def)

lemma branches_reseal [unread]:
  "byResult (reseal ms n b c) a = byResult c a" "settled (reseal ms n b c) a = settled c a"
  using byResult_reread [of ms n b "vw_reqAt (cx_v c)" c a] settled_reread [of ms n b "vw_reqAt (cx_v c)" c a]
  by (auto simp: unread)

lemma decide_ctx_reseal: "decide_ctx (reseal ms n b c) = decide_ctx c"
proof -
  have "live (reseal ms n b c) a = live c a" for a
    by (simp add: live_def unread split: option.split)
  then show ?thesis by (simp add: decide_ctx_def unread Let_def split: option.split)
qed

lemma newCtxFrom_reseal:
  "newCtxFrom (v\<lparr>vw_sealed := b\<rparr>) (i\<lparr>in_Markers := ms, in_Reminded := n\<rparr>) tm = reseal ms n b (newCtxFrom v i tm)"
  "newCtxFrom (v\<lparr>vw_reqAt := t\<rparr>) i tm = reread (in_Markers i) (in_Reminded i) (vw_sealed v) t (newCtxFrom v i tm)"
  by (simp_all add: newCtxFrom_def reread_def view_last_def Let_def)

lemma decide_reseal: "decide (v\<lparr>vw_sealed := b\<rparr>) (i\<lparr>in_Markers := ms, in_Reminded := n\<rparr>) tm = decide v i tm"
  by (simp add: decide_def newCtxFrom_reseal decide_ctx_reseal Let_def)

lemma decide_markers: "decide v (i\<lparr>in_Markers := ms\<rparr>) tm = decide v i tm"
  using decide_reseal [where v = v and b = "vw_sealed v" and i = i and n = "in_Reminded i"] by simp

lemma decide_reminded: "decide v (i\<lparr>in_Reminded := n\<rparr>) tm = decide v i tm"
  using decide_reseal [where v = v and b = "vw_sealed v" and i = i and ms = "in_Markers i"] by simp

lemma decide_seal: "decide (v\<lparr>vw_sealed := b\<rparr>) i tm = decide v i tm"
  using decide_reseal [where i = i and ms = "in_Markers i" and n = "in_Reminded i"] by simp

lemma scan_step_markers: "scan_step (i\<lparr>in_Markers := ms\<rparr>) tm v m = scan_step i tm v m"
  by (simp add: scan_step_def add_def addUnitMarker_def decide_markers Let_def split: option.split)

lemma scan_reminded: "scan (i\<lparr>in_Reminded := n\<rparr>) tm = scan i tm"
proof -
  have "scan_step (i\<lparr>in_Reminded := n\<rparr>) tm = scan_step i tm"
    by (intro ext) (simp add: scan_step_def add_def addUnitMarker_def decide_reminded Let_def split: option.split)
  then show ?thesis by (simp add: scan_def split: list.split)
qed

lemma scan_append:
  assumes "in_Markers i \<noteq> []"
  shows "scan (i\<lparr>in_Markers := in_Markers i @ ms\<rparr>) tm =
           (if vw_valid (scan i tm) then foldl (scan_step i tm) (scan i tm) ms else empty_view)"
proof -
  have step: "scan_step (i\<lparr>in_Markers := x\<rparr>) tm = scan_step i tm" for x
    by (intro ext) (rule scan_step_markers)
  show ?thesis
    using assms by (cases "in_Markers i") (simp_all add: scan_def step scan_fold_keeps, simp add: empty_view_def)
qed

lemma waiting_names: "st_Name (waiting c r) \<in> {StateResuming, StateAwaitingReboot, StateRebooting, StateRebootStalled}"
  by (simp add: waiting_def Let_def)

lemma waiting_unsealed [simp]: "\<not> sealedBy (waiting c r)"
  using waiting_names [of c r] by (auto simp: sealedBy_def)

lemma attention_unsealed [simp]: "\<not> sealedBy (attention c r)"
  by (simp add: sealedBy_def)

lemma sealedBy_reread:
  assumes "case cx_a c of None \<Rightarrow> True | Some a \<Rightarrow> av_Ended a"
  shows "sealedBy (decide_ctx (reread ms n b t c)) = sealedBy (decide_ctx c)"
proof (cases "cx_a c")
  case None
  then show ?thesis by (simp add: decide_ctx_def unread Let_def)
next
  case (Some a)
  then have dead: "live c a = None" "live (reread ms n b t c) a = None"
    using assms by (simp_all add: live_def attempt_open_def)
  show ?thesis
    using settled_reread [of ms n b t c a] Some dead by (auto simp: decide_ctx_def unread Let_def)
qed

subsection \<open>The seal at every point of the fold\<close>

definition last_ended :: "view \<Rightarrow> bool" where
  "last_ended v \<longleftrightarrow> (case view_last v of None \<Rightarrow> False | Some a \<Rightarrow> av_Ended a)"

definition seal_ok :: "input \<Rightarrow> timing \<Rightarrow> view \<Rightarrow> bool" where
  "seal_ok i tm v \<longleftrightarrow>
     (vw_sealed v \<longrightarrow> vw_takeover v \<or> last_ended v) \<and>
     (last_ended v \<and> \<not> vw_acked v \<and> \<not> vw_takeover v \<longrightarrow> vw_sealed v = sealedBy (decide v i tm))"

lemma last_ended_simps [simp]:
  "last_ended (touch v t) = last_ended v" "last_ended (set_last v a) = av_Ended a"
  "last_ended (v\<lparr>vw_sealed := b\<rparr>) = last_ended v" "last_ended (v\<lparr>vw_acked := b\<rparr>) = last_ended v"
  "last_ended (v\<lparr>vw_takeover := b\<rparr>) = last_ended v" "last_ended (v\<lparr>vw_reqAt := x\<rparr>) = last_ended v"
  "last_ended (v\<lparr>vw_m := y\<rparr>) = last_ended v" "last_ended (v\<lparr>vw_mAttempt := z\<rparr>) = last_ended v"
  "last_ended (v\<lparr>vw_rehearsalReady := b\<rparr>) = last_ended v" "last_ended (v\<lparr>vw_run := r\<rparr>) = last_ended v"
  "\<not> last_ended (v\<lparr>vw_attempt := as @ [new_attempt n p f w t]\<rparr>)"
  by (simp_all add: last_ended_def view_last_def)

text \<open>A view whose latest attempt has not ended has no seal to check.\<close>

lemma seal_ok_open: "\<not> last_ended v \<Longrightarrow> \<not> vw_sealed v \<Longrightarrow> seal_ok i tm v"
  by (simp add: seal_ok_def)

lemma seal_ok_addUnitMarker:
  assumes "view_last v = Some a" "\<not> av_Ended a" "\<not> vw_sealed v"
  shows "seal_ok i tm (addUnitMarker v a m i tm)"
proof -
  have v: "\<not> last_ended v" using assms by (simp add: last_ended_def)
  define w where "w = touch (set_last v (a\<lparr>av_Ended := True, av_EndAt := mk_At m\<rparr>)) (mk_At m)"
  have tw: "touch (w\<lparr>vw_sealed := x\<rparr>) (mk_At m) = w\<lparr>vw_sealed := x\<rparr>" for x
    by (simp add: w_def touch_def)
  have "seal_ok i tm (w\<lparr>vw_sealed := sealedBy (decide w i tm)\<rparr>)"
    by (simp add: seal_ok_def decide_seal) (simp add: w_def)
  then have "seal_ok i tm (addUnitMarker v a m i tm)" if "mk_Kind m = MkUnitEnd"
    using that by (simp add: addUnitMarker_def Let_def w_def [symmetric] tw)
  moreover have "seal_ok i tm (addUnitMarker v a m i tm)" if "mk_Kind m \<noteq> MkUnitEnd"
    using that v assms(2,3) by (intro seal_ok_open; cases "mk_Kind m") (simp_all add: addUnitMarker_def Let_def)
  ultimately show ?thesis by blast
qed

lemma seal_ok_request:
  assumes "seal_ok i tm v"
  shows "seal_ok i tm (v\<lparr>vw_reqAt := t\<rparr>)"
proof -
  have "sealedBy (decide (v\<lparr>vw_reqAt := t\<rparr>) i tm) = sealedBy (decide v i tm)" if "last_ended v"
  proof -
    have "case cx_a (newCtxFrom v i tm) of None \<Rightarrow> True | Some a \<Rightarrow> av_Ended a"
      using that by (simp add: newCtxFrom_def last_ended_def Let_def split: option.splits)
    then show ?thesis by (simp add: decide_def newCtxFrom_reseal(2) sealedBy_reread)
  qed
  then show ?thesis using assms by (auto simp: seal_ok_def)
qed

lemma seal_ok_add:
  assumes "seal_ok i tm v" "view_ok v" "\<not> vw_sealed v"
  shows "seal_ok i tm (add v m i tm)"
proof -
  have begun: "av_Started a \<or> \<not> av_Ended a" if "view_last v = Some a" for a
    using assms(2) that numbered_last_ok by (auto simp: view_ok_def attempt_ok_def)
  have open_set: "seal_ok i tm (set_last v a')" "seal_ok i tm (touch (set_last v a') x)" if "\<not> av_Ended a'" for a' x
    using that assms(3) by (auto intro!: seal_ok_open)
  have new: "seal_ok i tm (touch (v\<lparr>vw_attempt := vw_attempt v @ [new_attempt n p f w t]\<rparr>) x)" for n p f w t x
    using assms(3) by (intro seal_ok_open) simp_all
  have take: "seal_ok i tm (v\<lparr>vw_takeover := True, vw_sealed := True\<rparr>)"
    by (simp add: seal_ok_def)
  show ?thesis
    using assms
    by (cases "mk_Kind m")
      (auto simp: add_def take new seal_ok_request seal_ok_addUnitMarker dest: begun intro!: open_set split: option.split)
qed

lemma seal_ok_scan_step:
  assumes "seal_ok i tm v" "view_ok v"
  shows "seal_ok i tm (scan_step i tm v m)"
proof (cases "vw_run v")
  case None
  then have "\<not> last_ended v" using view_ok_no_run(1) [OF assms(2)] by (simp add: last_ended_def view_last_def)
  then show ?thesis using None assms by (auto simp: scan_step_def seal_ok_def)
next
  case (Some r)
  then show ?thesis using assms by (auto simp: scan_step_def seal_ok_add) (simp add: seal_ok_def)
qed

lemma seal_ok_fold: "seal_ok i tm v \<Longrightarrow> view_ok v \<Longrightarrow> seal_ok i tm (foldl (scan_step i tm) v ms)"
  by (induction ms arbitrary: v) (simp_all add: seal_ok_scan_step view_ok_scan_step)

lemma scan_seal_ok: "seal_ok i tm (scan i tm)"
proof -
  have "seal_ok i tm empty_view" "seal_ok i tm (empty_view\<lparr>vw_valid := b, vw_queued := t\<rparr>)" for b t
    by (simp_all add: seal_ok_def empty_view_def last_ended_def view_last_def)
  then show ?thesis by (simp add: scan_def seal_ok_fold view_ok_empty split: list.split)
qed

end
