(* ===== verification/OsrunSafety.thy ===== *)
theory OsrunSafety
  imports OsrunSeal
begin

section \<open>What the state of a run promises\<close>

text \<open>
  The properties of \<open>Reduce\<close>: what every state says of the machine, where the machine must be left
  alone, what a success rests on, which states are final, and what the buttons need. The helper lemmas
  say which states each branch of the decision can give.
\<close>

subsection \<open>The names that each branch gives\<close>

lemma interrupted_name: "st_Name (interrupted c a k u) \<in> {StateInterrupted, StateNeedsAttention}"
  by (simp add: interrupted_def Let_def split: option.split)

lemma stoppedAfter_name: "st_Name (stoppedAfter c a m) \<in> {StateFailed, StateStoppedAtWaypoint}"
  by (simp add: stoppedAfter_def Let_def)

lemma stoppedBefore_name:
  "st_Name (stoppedBefore c a m) \<in> {StateFailed, StateInterrupted, StateNeedsAttention}"
  using interrupted_name [of c a CauseKilled False] by (auto simp: stoppedBefore_def Let_def)

lemma unwoundOK_name:
  "st_Name (unwoundOK c a) = StateFailed \<or>
   st_Name (unwoundOK c a) = StateRehearsalDone \<and> mk_RunKind (run_of c) = Some RunRehearsal"
  by (auto simp: unwoundOK_def Let_def split: option.split)

lemma running_state_name: "st_Name (running c a) = running_name (av_Phase a)"
  by (simp add: running_def Let_def)

lemma running_name_running:
  "running_name p \<in> {StateRefreshing, StateRehearsing, StateRunning, StateRecovering, StateVerifying, StateUnwinding}"
  by (cases p) simp_all

definition ended_name :: "ctx \<Rightarrow> state_name \<Rightarrow> bool" where
  "ended_name c n \<longleftrightarrow>
     n \<in> {StateFailed, StateStoppedAtWaypoint, StateInterrupted, StateNeedsAttention} \<or>
     n = StateRehearsalDone \<and> mk_RunKind (run_of c) = Some RunRehearsal"

lemma ended_name_simps [simp]:
  "ended_name c StateFailed" "ended_name c StateStoppedAtWaypoint" "ended_name c StateInterrupted"
  "ended_name c StateNeedsAttention"
  by (simp_all add: ended_name_def)

lemma ended_names:
  "ended_name c (st_Name (interrupted c a k u))" "ended_name c (st_Name (stoppedAfter c a m))"
  "ended_name c (st_Name (stoppedBefore c a m))" "ended_name c (st_Name (unwoundOK c a))"
  using interrupted_name [of c a k u] stoppedAfter_name [of c a m] stoppedBefore_name [of c a m] unwoundOK_name [of c a]
  by (auto simp: ended_name_def)

lemma unwound_name: "ended_name c (st_Name (unwound c a))"
  by (simp add: unwound_def ended_names split: option.split)

lemma settled_cases:
  "settled c a = byResult c a \<or> ended_name c (st_Name (settled c a))"
  by (simp add: settled_def notStarted_def lost_def Let_def ended_names unwound_name split: option.split)

text \<open>The shapes that the state of a run that is neither closed nor taken over can have.\<close>

lemma decide_ctx_cases [consumes 2, case_names attention none running result ended]:
  assumes "\<not> vw_acked (cx_v c)" "\<not> vw_takeover (cx_v c)"
  obtains r where "decide_ctx c = attention c r"
  | "cx_a c = None" "\<not> cx_pnr c" "\<not> u_Active (in_Unit (cx_in c))" "st_Name (decide_ctx c) \<in> {StateFailed, StateIdle}"
  | a where "cx_a c = Some a" "decide_ctx c = running c a" "live c a = Some (running c a)"
  | a where "cx_a c = Some a" "decide_ctx c = byResult c a" "\<not> in_Damaged (cx_in c)"
      "live c a = None \<or> live c a = Some (byResult c a)"
  | a where "cx_a c = Some a" "live c a = None" "decide_ctx c = settled c a" "ended_name c (st_Name (decide_ctx c))"
proof (cases "in_Damaged (cx_in c)")
  case True
  then show thesis using assms that(1) by (simp add: decide_ctx_def)
next
  case sane: False
  show thesis
  proof (cases "cx_a c")
    case None
    then show thesis
      using assms sane that(1,2)
      by (cases "cx_pnr c \<or> u_Active (in_Unit (cx_in c))") (auto simp: decide_ctx_def Let_def)
  next
    case (Some a)
    show thesis
    proof (cases "live c a")
      case None
      then show thesis
        using assms sane Some settled_cases [of c a] that(1,4,5)
        by (simp add: decide_ctx_def Let_def split: if_splits) metis+
    next
      case live: (Some s)
      then have "s = attention c ReasonSystemdSilent \<or> s = running c a \<or> s = byResult c a"
        by (auto simp: live_def split: if_splits option.splits)
      then show thesis using assms sane Some live that(1,3,4) by (auto simp: decide_ctx_def)
    qed
  qed
qed

subsection \<open>A reading of a machine, for the examples\<close>

definition no_files :: files where
  "no_files = \<lparr>Begun = False, DoneMinimal = False, DoneFull = False, DonePrereboot = False, DoneAfter = False,
               DoneTimers = False, AptOrig = False, AbortFlag = False, BootIDFile = []\<rparr>"

definition boot_a :: string where "boot_a = ''11111111-1111-4111-8111-111111111111''"
definition boot_b :: string where "boot_b = ''22222222-2222-4222-8222-222222222222''"

text \<open>The times of the examples are minutes of one morning.\<close>

abbreviation example_time :: "int \<Rightarrow> instant" where
  "example_time k \<equiv> (63871200000 + 60 * k) * second"

definition reading :: "marker list \<Rightarrow> files \<Rightarrow> bool \<Rightarrow> input" where
  "reading ms f on =
     \<lparr>in_Markers = ms, in_Ignored = 0, in_Files = f,
      in_Unit = \<lparr>u_Active = on, u_Answered = True, u_SilentSince = zero_time\<rparr>,
      in_Boot = \<lparr>b_Now = boot_a, b_OK = True\<rparr>, in_Now = example_time 600, in_LastActivity = zero_time,
      in_Barrier = None, in_Verify = None, in_Ready = False, in_BootSeenAt = zero_time, in_Reminded = 0,
      in_Damaged = False, in_Timing = zero_timing\<rparr>"

abbreviation of_attempt :: "mkind \<Rightarrow> int \<Rightarrow> int \<Rightarrow> marker" where
  "of_attempt k n t \<equiv> (new_marker k n)\<lparr>mk_At := example_time t\<rparr>"

definition log_of :: "run_kind \<Rightarrow> phase \<Rightarrow> marker list" where
  "log_of k p =
     [of_attempt MkQueued 0 0, (of_attempt MkRun 0 0)\<lparr>mk_RunKind := Some k\<rparr>,
      (of_attempt MkAttempt 1 1)\<lparr>mk_Phase := Some p, mk_Who := Some WhoOwner\<rparr>,
      (of_attempt MkUnitStart 1 2)\<lparr>mk_Phase := Some p, mk_Boot := boot_a\<rparr>]"

definition refreshed_log :: "marker list" where
  "refreshed_log =
     log_of RunRefresh PhaseRefresh @
       [(of_attempt MkRefreshDone 1 3)\<lparr>mk_Result := Some ResNo\<rparr>, (of_attempt MkUnitEnd 1 4)\<lparr>mk_Result := Some ResOk\<rparr>]"

text \<open>The definitions that a concrete reading is worked out with, from the innermost out.\<close>

lemmas scan_eval = scan_def scan_step_def add_def addUnitMarker_def empty_view_def phaseFits_def touch_def set_last_def
  view_last_def new_attempt_def maxBlockEvents_def resultOfPhase_def sealedBy_def

lemmas decide_eval = decide_def decide_ctx_def newCtxFrom_def live_def settled_def active_def attempt_open_def
  systemdSilent_def silentForLong_def age_def running_def pastAbort_def inFlight_def startLost_def notStarted_def
  spokeLately_def byResult_def result_of_def files_result_def checkBegan_def mAttempt_def waiting_def verdict_def
  st_def run_of_def blank_state_def attention_def interrupted_def lost_def unwound_def unwoundOK_def stoppedBefore_def
  stoppedAfter_def stopped_def canFinishFromFiles_def no_block_def busyOf_def view_count_def autoTries_def

lemmas example_eval = reading_def log_of_def refreshed_log_def no_files_def new_marker_def boot_a_def boot_b_def PNR_def timingOf_def
  DefaultTiming_def zero_timing_def time_defs

lemmas reduce_eval = Reduce_def scan_eval decide_eval example_eval Let_def

subsection \<open>Every state is consistent\<close>

text \<open>
  Whatever the markers, the files and the machine are, the state says of the point of no return what the
  files say, is reversible exactly when it is not passed, keeps the machine busy exactly as the table
  of states says, is half upgraded when the point was passed and the last block before the
  restart is not done, is idle when it is closed, and can be called off only before the point.
\<close>

theorem reduce_consistent:
  "st_PNR (Reduce i) = PNR (in_Files i) \<and> st_Reversible (Reduce i) = (\<not> PNR (in_Files i)) \<and>
   st_Busy (Reduce i) = busyOf (st_Name (Reduce i)) (PNR (in_Files i)) \<and>
   st_HalfUpgraded (Reduce i) = (PNR (in_Files i) \<and> \<not> DonePrereboot (in_Files i)) \<and>
   (st_Closed (Reduce i) \<longrightarrow> st_Name (Reduce i) = StateIdle) \<and>
   (st_Abortable (Reduce i) \<longrightarrow>
      \<not> PNR (in_Files i) \<and> st_Name (Reduce i) \<in> {StateRefreshing, StateRehearsing, StateRunning})"
proof -
  let ?tm = "timingOf i"
  let ?c = "newCtxFrom (scan i ?tm) i ?tm"
  have files: "cx_pnr ?c = PNR (in_Files i)" "cx_in ?c = i"
    by (simp_all add: newCtxFrom_def Let_def)
  show ?thesis
    using sound_decide_ctx [of ?c]
    by (simp add: Reduce_def decide_def Let_def sound_def files blank_state_def busyOf_def)
qed

theorem reduce_consistent_witness:
  "st_Abortable (Reduce (reading (log_of RunHop PhaseRun) no_files True)) \<and>
   \<not> PNR no_files \<and> st_Name (Reduce (reading (log_of RunHop PhaseRun) no_files True)) = StateRunning"
proof -
  let ?i = "reading (log_of RunHop PhaseRun) no_files True"
  have "st_Abortable (Reduce ?i)" "st_Name (Reduce ?i) = StateRunning"
    by (simp_all add: reduce_eval)
  moreover have "in_Files ?i = no_files" by (simp add: reading_def)
  ultimately show ?thesis using reduce_consistent [of ?i] by simp
qed

subsection \<open>The reading of a run that the log places\<close>

text \<open>A run is placed when its log begins with the line that queues it and holds the line of the run.\<close>

definition placed :: "input \<Rightarrow> bool" where
  "placed i \<longleftrightarrow> vw_valid (cx_v (newCtx i)) \<and> vw_run (cx_v (newCtx i)) \<noteq> None"

definition closed_or_taken :: "input \<Rightarrow> bool" where
  "closed_or_taken i \<longleftrightarrow> vw_acked (cx_v (newCtx i)) \<or> vw_takeover (cx_v (newCtx i))"

definition kind_of :: "input \<Rightarrow> run_kind option" where
  "kind_of i = run_kind_of (cx_v (newCtx i))"

lemma newCtx_fields [simp]:
  "cx_in (newCtx i) = i" "cx_tm (newCtx i) = timingOf i" "cx_pnr (newCtx i) = PNR (in_Files i)"
  "cx_a (newCtx i) = view_last (cx_v (newCtx i))" "cx_v (newCtx i) = scan i (timingOf i)"
  by (simp_all add: newCtx_def newCtxFrom_def Let_def)

lemma placed_iff: "placed i \<longleftrightarrow> vw_valid (scan i (timingOf i)) \<and> vw_run (scan i (timingOf i)) \<noteq> None"
  by (simp add: placed_def)

lemma newCtx_fold: "newCtxFrom (scan i (timingOf i)) i (timingOf i) = newCtx i"
  by (simp add: newCtx_def Let_def)

lemma Reduce_placed: "placed i \<Longrightarrow> Reduce i = decide_ctx (newCtx i)"
  by (auto simp: placed_iff Reduce_def decide_def Let_def newCtx_fold)

lemma Reduce_unplaced:
  "\<not> placed i \<Longrightarrow>
     Reduce i = (if PNR (in_Files i) \<or> u_Active (in_Unit i) \<or> in_Damaged i
                 then (blank_state StateNeedsAttention)\<lparr>st_Reason := ReasonRunDamaged, st_PNR := PNR (in_Files i),
                        st_Reversible := \<not> PNR (in_Files i), st_Busy := True,
                        st_HalfUpgraded := PNR (in_Files i) \<and> \<not> DonePrereboot (in_Files i)\<rparr>
                 else (blank_state StateIdle)\<lparr>st_PNR := PNR (in_Files i), st_Reversible := \<not> PNR (in_Files i)\<rparr>)"
  by (auto simp: placed_iff Reduce_def decide_def Let_def)

lemma kind_of_run: "placed i \<Longrightarrow> mk_RunKind (run_of (newCtx i)) = kind_of i"
  by (auto simp: placed_def kind_of_def run_kind_of_def run_of_def)

lemma busy_Reduce: "st_Busy (Reduce i) = busyOf (st_Name (Reduce i)) (PNR (in_Files i))"
proof (cases "placed i")
  case True
  then show ?thesis using sound_decide_ctx [of "newCtx i"] by (simp add: Reduce_placed sound_def)
qed (simp add: Reduce_unplaced blank_state_def busyOf_def)

lemma view_ok_newCtx: "view_ok (cx_v (newCtx i))"
  by (simp add: scan_ok)

subsection \<open>What the results give\<close>

lemma verdict_names:
  "st_Name (verdict c r) \<in> {StateVerifying, StateFailed, StateSucceededWithFindings, StateSucceeded}"
  by (simp add: verdict_def split: option.split)

text \<open>A success needs the files, a check that began, and a verdict without an error.\<close>

definition checked :: "ctx \<Rightarrow> bool" where
  "checked c \<longleftrightarrow>
     DoneAfter (in_Files (cx_in c)) \<and> checkBegan c \<and>
     (case in_Verify (cx_in c) of None \<Rightarrow> False | Some vr \<Rightarrow> vr_Errors vr \<le> 0)"

lemma byResult_success:
  assumes "st_Name (byResult c a) \<in> {StateSucceeded, StateSucceededWithFindings}"
  shows "checked c"
proof -
  obtain r where r: "result_of c = Some r" "DoneAfter (in_Files (cx_in c))" "byResult c a = verdict c r"
  proof (cases "result_of c")
    case None
    then show thesis
      using assms interrupted_name [of c a CauseKilled False] by (auto simp: byResult_def split: if_splits)
  next
    case (Some r)
    then show thesis
      using assms that [OF Some] waiting_names [of c r] by (auto simp: byResult_def Let_def split: if_splits)
  qed
  have "checkBegan c" using r(1,2) by (auto simp: result_of_def Let_def split: if_splits)
  then show ?thesis
    using assms r(2,3) by (auto simp: checked_def verdict_def split: option.splits if_splits)
qed

lemma decide_success:
  assumes "st_Name (decide_ctx c) \<in> {StateSucceeded, StateSucceededWithFindings}"
  shows "checked c \<and> \<not> in_Damaged (cx_in c) \<and> \<not> vw_acked (cx_v c) \<and> \<not> vw_takeover (cx_v c)"
proof -
  have free: "\<not> vw_acked (cx_v c)" "\<not> vw_takeover (cx_v c)"
    using assms by (auto simp: decide_ctx_def Let_def split: if_splits)
  from free show ?thesis
  proof (cases rule: decide_ctx_cases)
    case (running a)
    then show ?thesis using assms running_name_running [of "av_Phase a"] by (auto simp: running_state_name)
  next
    case (result a)
    then show ?thesis using assms free byResult_success by metis
  qed (use assms in \<open>auto simp: ended_name_def\<close>)
qed

text \<open>
  (C4) A run is called a success only when the file of its last block is there, a check after the restart
  began, the judge found no error, the run can be trusted, and the owner has neither closed it nor taken it over.
\<close>

theorem success_means_checked:
  assumes "st_Name (Reduce i) \<in> {StateSucceeded, StateSucceededWithFindings}"
  shows "placed i \<and> \<not> closed_or_taken i \<and> \<not> in_Damaged i \<and> DoneAfter (in_Files i) \<and>
         (\<exists>a \<in> set (vw_attempt (scan i (timingOf i))). av_Phase a = PhaseVerify \<and> av_Started a) \<and>
         (\<exists>vr. in_Verify i = Some vr \<and> vr_Errors vr \<le> 0)"
proof -
  have p: "placed i" using assms by (rule_tac ccontr) (simp add: Reduce_unplaced blank_state_def split: if_splits)
  show ?thesis
    using decide_success [of "newCtx i"] assms p
    by (auto simp: Reduce_placed closed_or_taken_def checked_def checkBegan_def list_ex_iff split: option.splits)
qed

definition verified_log :: "marker list" where
  "verified_log =
     log_of RunHop PhaseRun @
       [(of_attempt MkRebootPending 1 3)\<lparr>mk_Boot := boot_b\<rparr>, (of_attempt MkUnitEnd 1 4)\<lparr>mk_Result := Some ResOk\<rparr>,
        (of_attempt MkAttempt 2 5)\<lparr>mk_Phase := Some PhaseVerify, mk_Who := Some WhoAuto\<rparr>,
        (of_attempt MkUnitStart 2 6)\<lparr>mk_Phase := Some PhaseVerify, mk_Boot := boot_a\<rparr>, of_attempt MkVerifyDone 2 7,
        (of_attempt MkUnitEnd 2 8)\<lparr>mk_Result := Some ResOk\<rparr>]"

definition all_files :: files where
  "all_files = no_files\<lparr>Begun := True, DoneMinimal := True, DoneFull := True, DonePrereboot := True, DoneAfter := True\<rparr>"

definition verified_reading :: input where
  "verified_reading = (reading verified_log all_files False)\<lparr>in_Verify := Some \<lparr>vr_Errors = 0, vr_Warnings = 0\<rparr>\<rparr>"

lemmas verified_eval = verified_reading_def verified_log_def all_files_def

lemma verified_succeeded: "st_Name (Reduce verified_reading) = StateSucceeded"
  by (simp add: verified_eval reduce_eval cong: let_weak_cong)

theorem success_means_checked_witness:
  "st_Name (Reduce verified_reading) = StateSucceeded \<and>
   (\<exists>a \<in> set (vw_attempt (scan verified_reading (timingOf verified_reading))). av_Phase a = PhaseVerify \<and> av_Started a)"
  using success_means_checked [of verified_reading] verified_succeeded by simp

subsection \<open>The machine is held where something is going on\<close>

lemma live_active:
  assumes "cx_a c = Some a" "\<not> av_Ended a" "u_Active (in_Unit (cx_in c))"
  shows "\<exists>s. live c a = Some s \<and> (s = running c a \<or> s = attention c ReasonSystemdSilent)"
  using assms by (auto simp: live_def attempt_open_def active_def)

lemma sound_busy: "sound c s \<Longrightarrow> st_Busy s = busyOf (st_Name s) (cx_pnr c)"
  by (simp add: sound_def)

lemma running_busy: "st_Busy (running c a)"
  by (cases "av_Phase a") (simp_all add: sound_busy [OF sound_running] running_state_name busyOf_def)

lemma waiting_busy: "st_Busy (waiting c r)"
  using waiting_names [of c r] by (auto simp: sound_busy [OF sound_waiting] busyOf_def)

lemma interrupted_busy: "st_Busy (interrupted c a k u)"
  using interrupted_name [of c a k u] by (auto simp: sound_busy [OF sound_interrupted] busyOf_def)

text \<open>
  A machine on which a unit of the run is running is held: when the log cannot place the run, the point of no return,
  a running unit and a run that cannot be trusted are each enough; when it places it, a running unit
  whose attempt has not ended, whatever else the log says, until the owner closes the run or takes it over.
\<close>

theorem busy_while_unit_runs:
  assumes "\<not> closed_or_taken i"
    and "\<not> placed i \<and> (PNR (in_Files i) \<or> u_Active (in_Unit i) \<or> in_Damaged i) \<or>
         placed i \<and> u_Active (in_Unit i) \<and> view_last (scan i (timingOf i)) = Some a \<and> \<not> av_Ended a"
  shows "st_Busy (Reduce i)"
proof (cases "placed i")
  case True
  then have a: "cx_a (newCtx i) = Some a" "\<not> av_Ended a" "u_Active (in_Unit (cx_in (newCtx i)))"
    using assms(2) by simp_all
  show ?thesis
    using live_active [OF a] a(1) True assms(1)
    by (auto simp: Reduce_placed decide_ctx_def closed_or_taken_def running_busy Let_def)
qed (use assms in \<open>simp add: Reduce_unplaced blank_state_def\<close>)

theorem busy_while_unit_runs_witness:
  "st_Busy (Reduce (reading (log_of RunHop PhaseRun) no_files True))"
proof (rule busy_while_unit_runs)
  let ?i = "reading (log_of RunHop PhaseRun) no_files True"
  show "\<not> closed_or_taken ?i" by (simp add: closed_or_taken_def scan_eval example_eval Let_def)
  show "\<not> placed ?i \<and> (PNR (in_Files ?i) \<or> u_Active (in_Unit ?i) \<or> in_Damaged ?i) \<or>
        placed ?i \<and> u_Active (in_Unit ?i) \<and> view_last (scan ?i (timingOf ?i)) = Some (last (vw_attempt (scan ?i (timingOf ?i)))) \<and>
        \<not> av_Ended (last (vw_attempt (scan ?i (timingOf ?i))))"
    by (simp add: placed_iff scan_eval example_eval Let_def)
qed

lemma hop_byResult_busy:
  assumes "placed i" "kind_of i = Some RunHop" "\<not> DoneAfter (in_Files i)"
  shows "st_Busy (byResult (newCtx i) a)"
proof (cases "result_of (newCtx i)")
  case None
  then show ?thesis by (simp add: byResult_def interrupted_busy)
next
  case (Some r)
  have hop: "re_kind r \<in> {MkRebootPending, MkRebootNotNeeded, MkVerifyDone}"
    using Some hop_result_kind [OF view_ok_newCtx, of i] assms(2)
    by (auto simp: result_of_def files_result_def kind_of_def Let_def split: if_splits option.splits)
  then show ?thesis
    using Some assms(3) by (auto simp: byResult_def waiting_busy busyOf_def)
qed

text \<open>
  (C2) A hop that passed the point of no return and whose last block is not done holds the machine, in every
  state but one that the owner closed: also when its log is damaged, cannot place it, or stops
  half way, and when the owner has taken it over.
\<close>

theorem hop_past_point_held:
  assumes "PNR (in_Files i)" "\<not> DoneAfter (in_Files i)" "\<not> st_Closed (Reduce i)"
    and "placed i \<Longrightarrow> kind_of i = Some RunHop"
  shows "st_Busy (Reduce i)"
proof (cases "placed i")
  case False
  then show ?thesis using assms(1) by (simp add: Reduce_unplaced blank_state_def)
next
  case True
  let ?c = "newCtx i"
  have not_acked: "\<not> vw_acked (cx_v ?c)" using assms(3) True by (auto simp: Reduce_placed decide_ctx_def)
  show ?thesis
  proof (cases "vw_takeover (cx_v ?c)")
    case taken: True
    then show ?thesis
      using not_acked True assms(2) by (simp add: Reduce_placed decide_ctx_def Let_def busyOf_def)
  next
    case free: False
    have kind: "mk_RunKind (run_of ?c) = Some RunHop" using True assms(4) by (simp add: kind_of_run)
    from not_acked free show ?thesis
    proof (cases rule: decide_ctx_cases)
      case (result a)
      then show ?thesis using hop_byResult_busy True assms(2,4) by (simp add: Reduce_placed)
    next
      case (ended a)
      then show ?thesis
        using True assms(1) kind busy_Reduce [of i] by (auto simp: Reduce_placed ended_name_def busyOf_def)
    qed (use True assms(1) in \<open>auto simp: Reduce_placed running_busy\<close>)
  qed
qed

definition begun_files :: files where
  "begun_files = no_files\<lparr>Begun := True\<rparr>"

theorem hop_past_point_held_witness:
  "st_Busy (Reduce (reading (log_of RunHop PhaseRun) begun_files False))"
proof (rule hop_past_point_held)
  let ?i = "reading (log_of RunHop PhaseRun) begun_files False"
  show "PNR (in_Files ?i)" "\<not> DoneAfter (in_Files ?i)" by (simp_all add: example_eval begun_files_def)
  show "\<not> st_Closed (Reduce ?i)" by (simp add: reduce_eval begun_files_def)
  show "kind_of ?i = Some RunHop" by (simp add: kind_of_def run_kind_of_def scan_eval example_eval Let_def)
qed

text \<open>
  The rule is one of the hop only: a refresh whose folder holds the file of the minimal upgrade, which no block of
  a refresh writes, reads as refreshed and leaves the machine free.
\<close>

theorem refresh_past_point_free:
  "PNR begun_files \<and> \<not> DoneAfter begun_files \<and> \<not> st_Closed (Reduce (reading refreshed_log begun_files False)) \<and>
   st_Name (Reduce (reading refreshed_log begun_files False)) = StateRefreshed \<and>
   \<not> st_Busy (Reduce (reading refreshed_log begun_files False))"
  by (simp add: reduce_eval begun_files_def)

subsection \<open>A decided run stays decided\<close>

definition write_markers :: "input \<Rightarrow> marker list \<Rightarrow> input" where
  "write_markers i ms = i\<lparr>in_Markers := in_Markers i @ ms\<rparr>"

lemma write_markers_timing [simp]: "timingOf (write_markers i ms) = timingOf i"
  by (simp add: timingOf_def write_markers_def)

lemma placed_markers: "placed i \<Longrightarrow> in_Markers i \<noteq> []"
  by (auto simp: placed_iff scan_def empty_view_def)

lemma scan_write:
  assumes "placed i"
  shows "scan (write_markers i ms) (timingOf i) = foldl (scan_step i (timingOf i)) (scan i (timingOf i)) ms"
  using assms placed_markers [OF assms] by (simp add: write_markers_def scan_append placed_iff)

lemma sealed_fold:
  assumes "vw_sealed v" "vw_run v \<noteq> None"
  shows "foldl (scan_step i tm) v ms = (if \<exists>m\<in>set ms. mk_Kind m = MkAck then v\<lparr>vw_acked := True\<rparr> else v)"
  using assms
proof (induction ms arbitrary: v)
  case (Cons m ms)
  then show ?case by (cases "mk_Kind m = MkAck") (auto simp: scan_step_def)
qed simp

text \<open>The runs that the log has decided: the unit that decided it ended, or the owner took it over.\<close>

text \<open>The states that are final: a check that ended well, a refresh or a rehearsal that is done, a failure that was undone.\<close>

definition final_state :: "run_state \<Rightarrow> bool" where
  "final_state s \<longleftrightarrow>
     st_Name s = StateSucceeded \<and> st_Phase s = Some PhaseVerify \<or> st_Name s = StateSucceededWithFindings \<and> st_Phase s = Some PhaseVerify \<or>
     st_Name s = StateRefreshed \<or> st_Name s = StateRehearsalDone \<or>
     st_Name s = StateFailed \<and> \<not> st_PNR s \<and> st_Reason s \<noteq> ReasonStart"

lemma sealedBy_final: "sealedBy s \<longleftrightarrow> final_state s"
  by (auto simp: sealedBy_def final_state_def)

definition decided :: "input \<Rightarrow> bool" where
  "decided i \<longleftrightarrow>
     placed i \<and> \<not> vw_acked (scan i (timingOf i)) \<and>
     (vw_takeover (scan i (timingOf i)) \<or> last_ended (scan i (timingOf i)) \<and> final_state (Reduce i))"

lemma decided_sealed: "decided i \<Longrightarrow> vw_sealed (scan i (timingOf i))"
  using scan_seal_ok [of i "timingOf i"] scan_ok [of i "timingOf i"]
  by (auto simp: decided_def sealedBy_final [symmetric] seal_ok_def view_ok_def Reduce_def Let_def)

text \<open>
  (C1) Once a run is decided (its last unit ended and the state is a final one, or the owner took it over), no
  marker that is written after it changes its state, of whichever kind and attempt and in whichever
  order, the owner's closing it excepted.
\<close>

theorem decided_stays_decided:
  assumes "decided i" "\<forall>m\<in>set ms. mk_Kind m \<noteq> MkAck"
  shows "Reduce (write_markers i ms) = Reduce i"
proof -
  have p: "placed i" using assms(1) by (simp add: decided_def)
  have "scan (write_markers i ms) (timingOf i) = scan i (timingOf i)"
    using assms p by (simp add: scan_write sealed_fold decided_sealed placed_iff)
  moreover have "decide v (write_markers i ms) tm = decide v i tm" for v tm
    by (simp add: write_markers_def decide_markers)
  ultimately show ?thesis by (simp add: Reduce_def Let_def)
qed

lemma refreshed_decided: "decided (reading refreshed_log no_files False)"
  by (simp add: decided_def placed_iff last_ended_def final_state_def reduce_eval cong: let_weak_cong)

theorem decided_stays_decided_witness:
  "Reduce (write_markers (reading refreshed_log no_files False)
     [of_attempt MkAttempt 2 9, of_attempt MkUnitStart 2 10, of_attempt MkTakeover 0 11]) =
   Reduce (reading refreshed_log no_files False)"
  by (rule decided_stays_decided [OF refreshed_decided]) (simp add: new_marker_def)

lemma placed_write: "placed i \<Longrightarrow> placed (write_markers i ms)"
  using scan_write [of i ms] by (simp add: placed_iff scan_fold_keeps)

text \<open>
  The owner's closing a run closes it, from any state and for good: with the line in the log the run is idle and
  closed, the machine is free of it, and the only thing left to do is to clean up, whatever is written after.
\<close>

theorem ack_closes:
  assumes "placed i" "mk_Kind m = MkAck" "m \<in> set ms"
  shows "st_Name (Reduce (write_markers i ms)) = StateIdle \<and> st_Closed (Reduce (write_markers i ms)) \<and>
         \<not> st_Busy (Reduce (write_markers i ms)) \<and>
         NextAction (Reduce (write_markers i ms)) (write_markers i ms) = just DoCleanup"
proof -
  obtain xs ys where ms: "ms = xs @ m # ys" using assms(3) by (auto dest: split_list)
  define v where "v = foldl (scan_step i (timingOf i)) (scan i (timingOf i)) xs"
  have v: "vw_run v \<noteq> None" using assms(1) by (simp add: v_def placed_iff scan_fold_keeps)
  have "vw_acked (scan (write_markers i ms) (timingOf i))"
    using assms(1,2) v by (auto simp: scan_write ms v_def [symmetric] scan_step_def scan_fold_keeps)
  moreover have p: "placed (write_markers i ms)" by (rule placed_write [OF assms(1)])
  ultimately have s: "Reduce (write_markers i ms) = (st (newCtx (write_markers i ms)) StateIdle
      (vw_lastAt (cx_v (newCtx (write_markers i ms)))))\<lparr>st_Closed := True\<rparr>"
    by (simp add: Reduce_placed decide_ctx_def Let_def)
  then show ?thesis
    using p by (simp add: busyOf_def NextAction_def nextAction_def just_def placed_def Let_def)
qed

theorem ack_closes_witness:
  "st_Closed (Reduce (write_markers (reading (log_of RunHop PhaseRun) begun_files True)
     [of_attempt MkAck 0 9, of_attempt MkUnitEnd 1 10]))"
proof -
  have "placed (reading (log_of RunHop PhaseRun) begun_files True)"
    by (simp add: placed_iff scan_eval example_eval begun_files_def Let_def)
  then show ?thesis
    using ack_closes [of "reading (log_of RunHop PhaseRun) begun_files True" "of_attempt MkAck 0 9"
      "[of_attempt MkAck 0 9, of_attempt MkUnitEnd 1 10]"] by (simp add: new_marker_def)
qed

end
