(* ===== verification/OsrunButtons.thy ===== *)
theory OsrunButtons
  imports OsrunSafety
begin

section \<open>What the core does by itself and what the owner may do\<close>

text \<open>
  The properties of \<open>NextAction\<close>, \<open>ActionsFor\<close> and \<open>NeedsAckWord\<close>: nothing is launched on a guess, nothing is
  undone past the point of no return, the automatic attempts are bounded, each button is there only
  where its action is safe, and a machine that is held has a way on.
\<close>

subsection \<open>The launches\<close>

definition launches :: "do_kind set" where
  "launches = {DoUnwind, DoLaunchVerify, DoLaunchRecover}"

lemma just_fields [simp]:
  "ac_Kind (just k) = k" "ac_Phase (just k) = None" "ac_From (just k) = None" "ac_Who (just k) = None" "ac_N (just k) = 0"
  by (simp_all add: just_def)

lemma unwind_action_fields [simp]:
  "ac_Kind unwind_action = DoUnwind" "ac_Phase unwind_action = Some PhaseUnwind" "ac_Who unwind_action = Some WhoAuto"
  by (simp_all add: unwind_action_def)

text \<open>What a launch that the core decides on rests on.\<close>

definition launch_ok :: "ctx \<Rightarrow> action \<Rightarrow> bool" where
  "launch_ok c act \<longleftrightarrow>
     canLaunch c \<and> ac_Who act = Some WhoAuto \<and>
     (case ac_Kind act of
        DoUnwind \<Rightarrow> ac_Phase act = Some PhaseUnwind
      | DoLaunchVerify \<Rightarrow>
          ac_Phase act = Some PhaseVerify \<and> view_count (cx_v c) PhaseVerify < MaxVerifyAttempts (cx_tm c)
      | _ \<Rightarrow>
          ac_Phase act = Some PhaseRecover \<and> ac_From act \<noteq> None \<and> ac_From act = FirstMissing (in_Files (cx_in c)) \<and>
          autoTries c < AutoRecoverTries (cx_tm c))"

definition launch_guarded :: "ctx \<Rightarrow> action \<Rightarrow> bool" where
  "launch_guarded c act \<longleftrightarrow> ac_Kind act \<notin> launches \<or> launch_ok c act"

lemma guarded_just [simp]: "k \<notin> launches \<Longrightarrow> launch_guarded c (just k)"
  by (simp add: launch_guarded_def)

lemma not_launches [simp]:
  "DoNone \<notin> launches" "DoAlert \<notin> launches" "DoCleanup \<notin> launches" "DoJudge \<notin> launches" "DoBarrier \<notin> launches"
  "DoRemind \<notin> launches"
  by (simp_all add: launches_def)

lemma guarded_relaunchVerify: "launch_guarded c (relaunchVerify c)"
  by (simp add: relaunchVerify_def launch_guarded_def launch_ok_def)

lemma guarded_afterStop: "launch_guarded c (afterStop c s)"
  by (simp add: afterStop_def Let_def launch_guarded_def launch_ok_def split: option.split)

lemma guarded_unwind: "canLaunch c \<Longrightarrow> launch_guarded c unwind_action"
  by (simp add: launch_guarded_def launch_ok_def)

lemma guarded_afterInterruption: "launch_guarded c (afterInterruption c s)"
  by (simp add: afterInterruption_def guarded_relaunchVerify guarded_afterStop guarded_unwind split: option.split)

lemma guarded_remind: "launch_guarded c ((just DoRemind)\<lparr>ac_N := n\<rparr>)"
  by (simp add: launch_guarded_def)

lemmas guarded = guarded_relaunchVerify guarded_afterStop guarded_unwind guarded_afterInterruption guarded_remind

lemma nextAction_guarded: "launch_guarded (newCtx i) (nextAction s i)"
  by (simp add: nextAction_def Let_def guarded split: option.split)

lemma nextAction_launches:
  assumes "ac_Kind (nextAction s i) \<in> launches"
  shows "placed i" "\<not> st_Closed s"
    "st_Name s \<in> {StateInterrupted, StateRehearsed, StateResuming, StateFailed, StateStoppedAtWaypoint}"
  using assms by (auto simp: nextAction_def placed_def Let_def launches_def split: if_splits)


definition waypoint_log :: "marker list" where
  "waypoint_log =
     log_of RunHop PhaseRun @
       [(of_attempt MkStop 1 3)\<lparr>mk_Index := 7, mk_ID := Some (StopBlock BlockFull), mk_RC := 100,
           mk_Class := Some ClassNetwork, mk_PNR := True\<rparr>,
        (of_attempt MkUnitEnd 1 4)\<lparr>mk_Result := Some ResStopped\<rparr>]"

definition minimal_files :: files where
  "minimal_files = no_files\<lparr>Begun := True, DoneMinimal := True\<rparr>"

text \<open>A core that is allowed two automatic repairs.\<close>

definition repairing_reading :: input where
  "repairing_reading = (reading waypoint_log minimal_files False)\<lparr>in_Timing := DefaultTiming\<lparr>AutoRecoverTries := 2\<rparr>\<rparr>"

lemmas action_eval = NextAction_def nextAction_def afterStop_def afterInterruption_def relaunchVerify_def canLaunch_def
  Retryable_def ClassBehavior_def backoff_of_def FirstMissing_def just_def newCtx_def

lemmas repairing_eval = repairing_reading_def waypoint_log_def minimal_files_def

lemma repairing_recovers:
  "ac_Kind (NextAction (Reduce repairing_reading) repairing_reading) = DoLaunchRecover"
  by (simp add: repairing_eval action_eval reduce_eval cong: let_weak_cong)


text \<open>
  With the timing that the core ships with, it never repairs a hop by itself: every repair is the owner's.
\<close>

theorem default_repairs_are_the_owners:
  assumes "in_Timing i \<in> {zero_timing, DefaultTiming}"
  shows "ac_Kind (NextAction s i) \<noteq> DoLaunchRecover"
proof
  assume r: "ac_Kind (NextAction s i) = DoLaunchRecover"
  have "timingOf i = DefaultTiming" using assms by (auto simp: timingOf_def)
  then have tries: "AutoRecoverTries (cx_tm (newCtx i)) = 0" by (simp add: DefaultTiming_def)
  have "ac_Kind (afterStop (newCtx i) s) \<noteq> DoLaunchRecover" using tries by (simp add: afterStop_def)
  moreover have "ac_Kind (relaunchVerify (newCtx i)) \<noteq> DoLaunchRecover" by (simp add: relaunchVerify_def)
  ultimately show False
    using r
    by (auto simp: NextAction_def nextAction_def afterInterruption_def Let_def split: if_splits option.splits)
qed

theorem default_repairs_are_the_owners_witness:
  "ac_Kind (NextAction (Reduce (reading waypoint_log minimal_files False)) (reading waypoint_log minimal_files False))
     \<noteq> DoLaunchRecover"
  by (rule default_repairs_are_the_owners) (simp add: reading_def)

subsection \<open>The reminders\<close>

lemma remindersDue_mono:
  assumes "x \<le> y" "0 \<le> r0" "r0 \<le> r1"
  shows "remindersDue x (r0, r1, r2) \<le> remindersDue y (r0, r1, r2)"
proof -
  have "(x - r1) div r2 \<le> (y - r1) div r2" if "0 < r2" using assms(1) that by (simp add: zdiv_mono1)
  moreover have "0 \<le> (y - r1) div r2" if "0 < r2" "r1 \<le> y"
    using that by (simp add: pos_imp_zdiv_nonneg_iff)
  ultimately show ?thesis using assms by (auto simp: remindersDue_def)
qed

lemma newCtx_reminded:
  "newCtx (i\<lparr>in_Reminded := n\<rparr>) = (newCtx i)\<lparr>cx_in := i\<lparr>in_Reminded := n\<rparr>\<rparr>"
  by (simp add: newCtx_def newCtxFrom_def scan_reminded timingOf_def Let_def)

definition reminding :: "input \<Rightarrow> run_state \<Rightarrow> int" where
  "reminding i s = remindersDue (age (newCtx i) (st_Since s)) (Reminders (timingOf i))"

lemma not_remind [simp]:
  "ac_Kind (relaunchVerify c) \<noteq> DoRemind" "ac_Kind (afterStop c s) \<noteq> DoRemind" "ac_Kind (afterInterruption c s) \<noteq> DoRemind"
proof -
  show verify: "ac_Kind (relaunchVerify c) \<noteq> DoRemind" by (simp add: relaunchVerify_def)
  show stop: "ac_Kind (afterStop c s) \<noteq> DoRemind" by (simp add: afterStop_def Let_def split: option.split)
  show "ac_Kind (afterInterruption c s) \<noteq> DoRemind"
    using verify stop by (simp add: afterInterruption_def split: option.split)
qed

lemma remind_fields: "ac_Kind ((just k)\<lparr>ac_N := n\<rparr>) = k" "ac_N ((just k)\<lparr>ac_N := n\<rparr>) = n"
  by (simp_all add: just_def)

lemma unplaced_iff: "vw_run (cx_v (newCtx i)) = None \<or> \<not> vw_valid (cx_v (newCtx i)) \<longleftrightarrow> \<not> placed i"
  by (auto simp: placed_def)

lemma nextAction_unplaced: "\<not> placed i \<Longrightarrow> nextAction s i = just DoNone"
  unfolding nextAction_def Let_def unplaced_iff by simp

lemma nextAction_closed: "placed i \<Longrightarrow> st_Closed s \<Longrightarrow> nextAction s i = just DoCleanup"
  unfolding nextAction_def Let_def unplaced_iff by simp

lemma nextAction_rest:
  assumes "placed i" "\<not> st_Closed s" "st_Name s \<notin> {StateAwaitingReboot, StateRebootStalled, StateRebootFirst}"
  shows "ac_Kind (nextAction s i) \<noteq> DoRemind"
  using assms unfolding nextAction_def Let_def unplaced_iff
  by (cases "st_Name s") (simp_all split: option.split)

lemma nextAction_waiting:
  assumes "placed i" "\<not> st_Closed s" "st_Name s \<in> {StateAwaitingReboot, StateRebootStalled, StateRebootFirst}"
  shows "nextAction s i =
           (if in_Reminded i < reminding i s then (just DoRemind)\<lparr>ac_N := reminding i s\<rparr>
            else if st_Name s = StateRebootFirst then just DoNone else just DoBarrier)"
  using assms unfolding nextAction_def Let_def unplaced_iff reminding_def
  by (cases "st_Name s") simp_all

lemma nextAction_remind:
  assumes "ac_Kind (nextAction s i) = DoRemind"
  shows "placed i" "\<not> st_Closed s" "st_Name s \<in> {StateAwaitingReboot, StateRebootStalled, StateRebootFirst}"
    "in_Reminded i < reminding i s" "ac_N (nextAction s i) = reminding i s"
proof -
  show p: "placed i" using assms nextAction_unplaced [of i s] by (rule_tac ccontr) simp
  show c: "\<not> st_Closed s" using assms nextAction_closed [OF p, of s] by auto
  show n: "st_Name s \<in> {StateAwaitingReboot, StateRebootStalled, StateRebootFirst}"
    using assms nextAction_rest [OF p c] by blast
  show "in_Reminded i < reminding i s" "ac_N (nextAction s i) = reminding i s"
    using assms nextAction_waiting [OF p c n] by (auto simp: remind_fields split: if_splits)
qed

lemma NextAction_remind: "ac_Kind (NextAction s i) = DoRemind \<longleftrightarrow> ac_Kind (nextAction s i) = DoRemind"
  by (simp add: NextAction_def Let_def)

lemma reminding_reminded: "reminding (i\<lparr>in_Reminded := n\<rparr>) s = reminding i s"
  by (simp add: reminding_def newCtx_reminded age_def timingOf_def)

text \<open>
  A reminder is asked for only when more are due than were sent, and once the number it gives is recorded as sent
  it is not asked for again at the same reading.
\<close>

theorem reminder_once:
  assumes "ac_Kind (NextAction s i) = DoRemind"
  shows "in_Reminded i < ac_N (NextAction s i) \<and>
         ac_Kind (NextAction s (i\<lparr>in_Reminded := ac_N (NextAction s i)\<rparr>)) \<noteq> DoRemind"
proof -
  have r: "ac_Kind (nextAction s i) = DoRemind" using assms by (simp add: NextAction_remind)
  have same: "NextAction s i = nextAction s i" using r by (simp add: NextAction_def Let_def)
  have "\<not> ac_Kind (nextAction s (i\<lparr>in_Reminded := reminding i s\<rparr>)) = DoRemind"
    using nextAction_remind(4) [of s "i\<lparr>in_Reminded := reminding i s\<rparr>"] by (auto simp: reminding_reminded)
  then show ?thesis
    using nextAction_remind(4,5) [OF r] by (simp add: same NextAction_remind)
qed

definition pending_log :: "marker list" where
  "pending_log =
     log_of RunHop PhaseRun @
       [(of_attempt MkRebootPending 1 3)\<lparr>mk_Boot := boot_a\<rparr>, (of_attempt MkUnitEnd 1 4)\<lparr>mk_Result := Some ResOk\<rparr>]"

definition pending_files :: files where
  "pending_files = all_files\<lparr>DoneAfter := False\<rparr>"

definition pending_reading :: input where
  "pending_reading =
     (reading pending_log pending_files False)\<lparr>in_Barrier := Some \<lparr>bar_OK = True, bar_Checks = []\<rparr>\<rparr>"

lemmas pending_eval = pending_reading_def pending_log_def pending_files_def all_files_def

theorem reminder_once_witness:
  "in_Reminded pending_reading < ac_N (NextAction (Reduce pending_reading) pending_reading)"
proof -
  have "ac_Kind (NextAction (Reduce pending_reading) pending_reading) = DoRemind"
    by (simp add: pending_eval action_eval reduce_eval remindersDue_def cong: let_weak_cong)
  then show ?thesis using reminder_once by blast
qed

subsection \<open>The buttons\<close>

lemma ActionsFor_iff: "b \<in> set (ActionsFor s) \<longleftrightarrow> want s b"
  by (cases b) (simp_all add: ActionsFor_def ActionNames_def)

lemma apart: "x \<in> A \<Longrightarrow> A \<inter> B = {} \<Longrightarrow> x \<notin> B"
  by blast

lemma byResult_names:
  "st_Name (byResult c a) \<notin> {StateIdle, StateRefreshing, StateRehearsing, StateRunning, StateRecovering, StateUnwinding,
     StateRehearsalDone, StateManual, StateManualDone, StateStoppedAtWaypoint}"
proof (cases "result_of c")
  case None
  then show ?thesis
    using interrupted_name [of c a CauseKilled False] by (auto simp: byResult_def)
next
  case (Some r)
  have shapes: "st_Name (verdict c r) \<in> {StateVerifying, StateFailed, StateSucceededWithFindings, StateSucceeded}"
    "st_Name (waiting c r) \<in> {StateResuming, StateAwaitingReboot, StateRebooting, StateRebootStalled}"
    by (rule verdict_names waiting_names)+
  consider "byResult c a = verdict c r" | "byResult c a = waiting c r" | "byResult c a = attention c ReasonRunDamaged"
    | "st_Name (byResult c a) \<in> {StateRebootFirst, StateRefreshed, StateRehearsed, StateResuming}"
    using Some by (cases "re_kind r"; cases "DoneAfter (in_Files (cx_in c))") (simp_all add: byResult_def Let_def)
  then show ?thesis
  proof cases
    case 1
    show ?thesis unfolding 1 by (rule apart [OF shapes(1)]) simp
  next
    case 2
    show ?thesis unfolding 2 by (rule apart [OF shapes(2)]) simp
  next
    case 4
    then show ?thesis by (rule apart) simp
  qed simp
qed

lemma byResult_waiting:
  assumes "st_Name (byResult c a) \<in> {StateAwaitingReboot, StateRebootStalled}"
  shows "\<exists>r. byResult c a = waiting c r"
proof (cases "result_of c")
  case None
  then show ?thesis
    using assms interrupted_name [of c a CauseKilled False] by (auto simp: byResult_def split: if_splits)
next
  case (Some r)
  then show ?thesis
    using assms verdict_names [of c r] by (auto simp: byResult_def Let_def split: if_splits)
qed

lemma waiting_blocked:
  assumes "st_Name (waiting c r) \<in> {StateAwaitingReboot, StateRebootStalled}" "mk_RunKind (run_of c) = Some RunHop"
    "\<not> st_RebootBlocked (waiting c r)"
  shows "(\<exists>b. in_Barrier (cx_in c) = Some b \<and> bar_OK b) \<and> DonePrereboot (in_Files (cx_in c))"
  using assms by (auto simp: waiting_def Let_def split: if_splits option.splits)

lemma decide_waiting:
  assumes "st_Name (decide_ctx c) \<in> {StateAwaitingReboot, StateRebootStalled}"
  shows "\<exists>r. decide_ctx c = waiting c r"
proof -
  have free: "\<not> vw_acked (cx_v c)" "\<not> vw_takeover (cx_v c)"
    using assms by (auto simp: decide_ctx_def Let_def split: if_splits)
  from free show ?thesis
  proof (cases rule: decide_ctx_cases)
    case (running a)
    then show ?thesis using assms running_name_running [of "av_Phase a"] by (auto simp: running_state_name)
  next
    case (result a)
    then show ?thesis using assms byResult_waiting [of c a] by auto
  qed (use assms in \<open>auto simp: ended_name_def\<close>)
qed

lemma byResult_first:
  assumes "st_Name (byResult c a) = StateRebootFirst"
  shows "\<exists>r. result_of c = Some r \<and> re_kind r = MkRefreshDone"
proof (cases "result_of c")
  case None
  then show ?thesis
    using assms interrupted_name [of c a CauseKilled False] by (auto simp: byResult_def split: if_splits)
next
  case (Some r)
  then show ?thesis
    using assms verdict_names [of c r] waiting_names [of c r] by (auto simp: byResult_def Let_def split: if_splits)
qed

lemma hop_never_first:
  assumes "placed i" "kind_of i = Some RunHop"
  shows "st_Name (Reduce i) \<noteq> StateRebootFirst"
proof
  assume first: "st_Name (Reduce i) = StateRebootFirst"
  let ?c = "newCtx i"
  have n: "st_Name (decide_ctx ?c) = StateRebootFirst" using first assms(1) by (simp add: Reduce_placed)
  have free: "\<not> vw_acked (cx_v ?c)" "\<not> vw_takeover (cx_v ?c)"
    using n by (auto simp: decide_ctx_def Let_def split: if_splits)
  from free show False
  proof (cases rule: decide_ctx_cases)
    case (running a)
    then show ?thesis using n running_name_running [of "av_Phase a"] by (auto simp: running_state_name)
  next
    case (result a)
    then obtain r where r: "result_of ?c = Some r" "re_kind r = MkRefreshDone" using n byResult_first by metis
    then show ?thesis
      using hop_result_kind [OF view_ok_newCtx, of i] assms(2)
      by (auto simp: result_of_def files_result_def kind_of_def Let_def split: if_splits option.splits)
  qed (use n in \<open>auto simp: ended_name_def\<close>)
qed

text \<open>
  (C5) The restart is offered for a hop only when the checks before the restart are computed and green and the files say
  that the last block before the restart ended, whatever the log says.
\<close>

theorem restart_needs_green_barrier:
  assumes "placed i" "kind_of i = Some RunHop" "ActionReboot \<in> set (ActionsFor (Reduce i))"
  shows "(\<exists>b. in_Barrier i = Some b \<and> bar_OK b) \<and> DonePrereboot (in_Files i)"
proof -
  let ?c = "newCtx i"
  have w: "want (Reduce i) ActionReboot" using assms(3) by (simp add: ActionsFor_iff)
  have n: "st_Name (Reduce i) \<in> {StateAwaitingReboot, StateRebootStalled}" "\<not> st_RebootBlocked (Reduce i)"
    using w hop_never_first [OF assms(1,2)] by (cases "st_Name (Reduce i)"; simp add: want_def Let_def)+
  obtain r where r: "Reduce i = waiting ?c r"
    using n(1) assms(1) decide_waiting [of ?c] by (auto simp: Reduce_placed)
  show ?thesis
    using waiting_blocked [of ?c r] n assms(1,2) by (simp add: r kind_of_run)
qed

lemma pending_placed: "placed pending_reading" "kind_of pending_reading = Some RunHop"
  by (simp_all add: pending_eval placed_iff kind_of_def run_kind_of_def scan_eval example_eval decide_eval cong: let_weak_cong)

theorem restart_needs_green_barrier_witness:
  "ActionReboot \<in> set (ActionsFor (Reduce pending_reading)) \<and> DonePrereboot (in_Files pending_reading)"
proof -
  have "st_Name (Reduce pending_reading) = StateAwaitingReboot" "\<not> st_RebootBlocked (Reduce pending_reading)"
    by (simp_all add: pending_eval reduce_eval cong: let_weak_cong)
  then have "ActionReboot \<in> set (ActionsFor (Reduce pending_reading))"
    by (simp add: ActionsFor_iff want_def)
  then show ?thesis using restart_needs_green_barrier pending_placed by blast
qed

lemma abortable_reading:
  assumes w: "st_Name (Reduce i) \<in> {StateRefreshing, StateRehearsing, StateRunning}" "st_Abortable (Reduce i)"
  shows "placed i \<and> \<not> PNR (in_Files i) \<and>
         (\<exists>a. view_last (scan i (timingOf i)) = Some a \<and> av_Phase a \<in> {PhaseRefresh, PhaseRehearse, PhaseRun} \<and>
              \<not> av_Ended a \<and> \<not> pastAbort (av_LastStart a) \<and> av_Stop a = None \<and> av_Result a = None \<and> av_Unwound a = None)"
proof -
  let ?c = "newCtx i"
  have p: "placed i" using w by (rule_tac ccontr) (auto simp: Reduce_unplaced blank_state_def split: if_splits)
  have free: "\<not> vw_acked (cx_v ?c)" "\<not> vw_takeover (cx_v ?c)"
    using w p by (auto simp: Reduce_placed decide_ctx_def Let_def split: if_splits)
  from free show ?thesis
  proof (cases rule: decide_ctx_cases)
    case (running a)
    then have "\<not> av_Ended a" by (auto simp: live_def attempt_open_def split: if_splits)
    then show ?thesis
      using running w p
      by (cases "av_Phase a") (auto simp: Reduce_placed running_def Let_def split: if_splits)
  next
    case (result a)
    then show ?thesis
      using w(1) p byResult_names [of ?c a] by (auto simp: Reduce_placed)
  qed (use w p in \<open>auto simp: Reduce_placed ended_name_def\<close>)
qed

text \<open>
  (C6) A run can be called off only while its first attempt is being launched or run, before the point of no return,
  when no block that must not be cut short has begun, and when the unit has neither stopped, nor finished, nor
  begun to undo.
\<close>

theorem abort_only_before:
  assumes "ActionAbort \<in> set (ActionsFor (Reduce i))"
  shows "placed i \<and> \<not> PNR (in_Files i) \<and>
         (\<exists>a. view_last (scan i (timingOf i)) = Some a \<and> av_Phase a \<in> {PhaseRefresh, PhaseRehearse, PhaseRun} \<and>
              \<not> av_Ended a \<and> \<not> pastAbort (av_LastStart a) \<and> av_Stop a = None \<and> av_Result a = None \<and> av_Unwound a = None)"
proof (rule abortable_reading)
  show "st_Name (Reduce i) \<in> {StateRefreshing, StateRehearsing, StateRunning}" "st_Abortable (Reduce i)"
    using assms by (simp add: ActionsFor_iff, cases "st_Name (Reduce i)"; simp add: want_def Let_def)+
qed

theorem abort_only_before_witness:
  "\<exists>a. view_last (scan (reading (log_of RunHop PhaseRun) no_files True) DefaultTiming) = Some a \<and> av_Phase a = PhaseRun"
proof -
  let ?i = "reading (log_of RunHop PhaseRun) no_files True"
  have "st_Name (Reduce ?i) = StateRunning" "st_Abortable (Reduce ?i)" by (simp_all add: reduce_eval cong: let_weak_cong)
  then have b: "ActionAbort \<in> set (ActionsFor (Reduce ?i))" by (simp add: ActionsFor_iff want_def)
  have t: "timingOf ?i = DefaultTiming" by (simp add: timingOf_def reading_def)
  have r: "kind_of ?i = Some RunHop" by (simp add: kind_of_def run_kind_of_def scan_eval example_eval Let_def)
  obtain a where a: "view_last (scan ?i DefaultTiming) = Some a" "av_Phase a \<in> {PhaseRefresh, PhaseRehearse, PhaseRun}"
    using abort_only_before [OF b] t by auto
  obtain first where "phaseFits (Some RunHop) (av_Phase a) first"
    using view_ok_phase(1) [OF scan_ok view_last_mem [OF a(1)]] r t by (auto simp: kind_of_def)
  then show ?thesis using a by (auto simp: phaseFits_def)
qed

end
