(* ===== verification/UpgradeAbort.thy ===== *)
theory UpgradeAbort
  imports OsrunButtons
begin

section \<open>Calling an upgrade off while its unit works\<close>

text \<open>
  Models the two programs that meet when the owner calls an upgrade off: the driver that the unit runs (the shell text of \<open>pkg/osrun/driver.go\<close>,
  for the first attempt of a run, the only one that can be called off) and the call itself (\<open>AbortSystemOSUpgrade\<close> of
  \<open>service/system_os_upgrade_abort.go\<close>), with the folder that both read and write. Each step is one thing that the other can see: a line of
  the log, the flag, a reading of the log, a reading of the files. Any number of calls are made at once; the core's settling
  adds the boots it sees, and the unit can be lost at any moment. What a block does to the folder is not modelled but for the two files of the point of no return,
  which only the block of the minimal upgrade writes and takes back (\<open>pkg/osplan/runbook.go\<close>). A line of a block that cannot be written stops the driver when it is the
  one that says the block begins, and is left out otherwise.
\<close>

subsection \<open>The folder\<close>

text \<open>The backup folder of the run, and the flag of the call in the folder of the run.\<close>

record folder =
  fo_Begun :: bool
  fo_Done :: "block list"
  fo_AptOrig :: bool
  fo_BootID :: string
  fo_Abort :: bool

definition osUpgradeFiles :: "folder \<Rightarrow> files" where
  "osUpgradeFiles f =
     \<lparr>Begun = fo_Begun f, DoneMinimal = BlockMinimal \<in> set (fo_Done f), DoneFull = BlockFull \<in> set (fo_Done f),
      DonePrereboot = BlockPrereboot \<in> set (fo_Done f), DoneAfter = BlockAfter \<in> set (fo_Done f),
      DoneTimers = BlockTimers \<in> set (fo_Done f), AptOrig = fo_AptOrig f, AbortFlag = fo_Abort f, BootIDFile = fo_BootID f\<rparr>"

text \<open>The function \<open>pnr\<close> of the driver.\<close>

definition driver_pnr :: "folder \<Rightarrow> bool" where
  "driver_pnr f \<longleftrightarrow> fo_Begun f \<or> BlockMinimal \<in> set (fo_Done f)"

definition block_may :: "block \<Rightarrow> folder \<Rightarrow> folder \<Rightarrow> bool" where
  "block_may b f f' \<longleftrightarrow>
     fo_Abort f' = fo_Abort f \<and>
     (b \<noteq> BlockMinimal \<longrightarrow> fo_Begun f' = fo_Begun f \<and> (BlockMinimal \<in> set (fo_Done f') \<longleftrightarrow> BlockMinimal \<in> set (fo_Done f)))"

subsection \<open>The state of the two\<close>

datatype driver_at =
  DriverBegins
| DriverLoop nat "block list"
| DriverChecks nat block "block list"
| DriverRuns nat block "block list"
| DriverStops bool
| DriverGone

datatype call_at =
  CallNotMade
| CallLooks "marker list"
| CallChecked
| CallFlagged
| CallRead "marker list"
| CallDecided
| CallTakenBack
| CallEnded bool

record upgrade =
  ug_Phase :: phase
  ug_Log :: "marker list"
  ug_Folder :: folder
  ug_Driver :: driver_at
  ug_Calls :: "nat \<Rightarrow> call_at"

subsection \<open>The driver\<close>

text \<open>\<open>mark\<close>: a line of the first attempt.\<close>

definition unit_mark :: "mkind \<Rightarrow> instant \<Rightarrow> marker" where
  "unit_mark k t = (new_marker k 1)\<lparr>mk_At := t\<rparr>"

definition block_mark :: "mkind \<Rightarrow> nat \<Rightarrow> block \<Rightarrow> instant \<Rightarrow> marker" where
  "block_mark k idx b t = (unit_mark k t)\<lparr>mk_Index := int idx, mk_ID := Some (StopBlock b)\<rparr>"

definition stop_mark :: "nat \<Rightarrow> stop_id \<Rightarrow> int \<Rightarrow> stop_class \<Rightarrow> bool \<Rightarrow> instant \<Rightarrow> marker" where
  "stop_mark idx ident rc class pnr t =
     (unit_mark MkStop t)\<lparr>mk_Index := int idx, mk_ID := Some ident, mk_RC := rc, mk_Class := Some class, mk_PNR := pnr\<rparr>"

definition writes :: "upgrade \<Rightarrow> marker list \<Rightarrow> driver_at \<Rightarrow> upgrade" where
  "writes s ms d = s\<lparr>ug_Log := ug_Log s @ ms, ug_Driver := d\<rparr>"

text \<open>\<open>stopat\<close>: the line that says it, and then the undoing when the point of no return is not behind.\<close>

definition stopat :: "upgrade \<Rightarrow> nat \<Rightarrow> stop_id \<Rightarrow> int \<Rightarrow> stop_class \<Rightarrow> instant \<Rightarrow> upgrade" where
  "stopat s idx ident rc class t =
     (let p = driver_pnr (ug_Folder s) in writes s [stop_mark idx ident rc class p t] (DriverStops (\<not> p)))"

definition last_block :: "phase \<Rightarrow> block" where
  "last_block p = (if p = PhaseRefresh then BlockRDone else if p = PhaseRehearse then BlockDownload else BlockPrereboot)"

inductive driver_step :: "upgrade \<Rightarrow> upgrade \<Rightarrow> bool" where
  begins: "ug_Driver s = DriverBegins \<Longrightarrow> fo_Done (ug_Folder s) = [] \<Longrightarrow>
    driver_step s (writes s [(unit_mark MkUnitStart t)\<lparr>mk_Phase := Some (ug_Phase s), mk_Boot := boot\<rparr>]
      (DriverLoop 0 (BlockList (ug_Phase s) (osUpgradeFiles (ug_Folder s)))))"
| distrusts: "ug_Driver s = DriverBegins \<Longrightarrow>
    driver_step s (writes s [(unit_mark MkUnitStart t)\<lparr>mk_Phase := Some (ug_Phase s), mk_Boot := boot\<rparr>,
      stop_mark 0 StopDriver 1 ClassIntegrity (driver_pnr (ug_Folder s)) t] (DriverStops False))"
| no_list: "ug_Driver s = DriverBegins \<Longrightarrow>
    driver_step s (stopat (writes s [(unit_mark MkUnitStart t)\<lparr>mk_Phase := Some (ug_Phase s), mk_Boot := boot\<rparr>] DriverBegins)
      0 StopList 1 ClassIntegrity t)"
| skips: "ug_Driver s = DriverLoop k (b # bs) \<Longrightarrow> b \<in> set (fo_Done (ug_Folder s)) \<Longrightarrow>
    driver_step s (writes s [block_mark MkBlockSkipped (k + 1) b zero_time] (DriverLoop (k + 1) bs))"
| starts: "ug_Driver s = DriverLoop k (b # bs) \<Longrightarrow> b \<notin> set (fo_Done (ug_Folder s)) \<Longrightarrow>
    driver_step s (writes s [block_mark MkBlockStart (k + 1) b t] (DriverChecks (k + 1) b bs))"
| skips_unsaid: "ug_Driver s = DriverLoop k (b # bs) \<Longrightarrow> b \<in> set (fo_Done (ug_Folder s)) \<Longrightarrow>
    driver_step s (s\<lparr>ug_Driver := DriverLoop (k + 1) bs\<rparr>)"
| cannot_write: "ug_Driver s = DriverLoop k (b # bs) \<Longrightarrow> b \<notin> set (fo_Done (ug_Folder s)) \<Longrightarrow>
    driver_step s (s\<lparr>ug_Driver := DriverStops (\<not> driver_pnr (ug_Folder s))\<rparr>)"
| cannot_start: "ug_Driver s = DriverLoop k (b # bs) \<Longrightarrow> b \<notin> set (fo_Done (ug_Folder s)) \<Longrightarrow>
    driver_step s (stopat s (k + 1) (StopBlock b) 1 ClassIntegrity t)"
| called: "ug_Driver s = DriverChecks k b bs \<Longrightarrow> fo_Abort (ug_Folder s) \<Longrightarrow> \<not> driver_pnr (ug_Folder s) \<Longrightarrow>
    driver_step s (stopat s k (StopBlock b) 0 ClassAbort t)"
| goes_on: "ug_Driver s = DriverChecks k b bs \<Longrightarrow> \<not> (fo_Abort (ug_Folder s) \<and> \<not> driver_pnr (ug_Folder s)) \<Longrightarrow>
    driver_step s (s\<lparr>ug_Driver := DriverRuns k b bs\<rparr>)"
| works: "ug_Driver s = DriverRuns k b bs \<Longrightarrow> block_may b (ug_Folder s) f \<Longrightarrow> driver_step s (s\<lparr>ug_Folder := f\<rparr>)"
| succeeds: "ug_Driver s = DriverRuns k b bs \<Longrightarrow>
    driver_step s (writes s [block_mark MkBlockDone k b t] (DriverLoop k bs))"
| succeeds_unsaid: "ug_Driver s = DriverRuns k b bs \<Longrightarrow> driver_step s (s\<lparr>ug_Driver := DriverLoop k bs\<rparr>)"
| fails: "ug_Driver s = DriverRuns k b bs \<Longrightarrow> driver_step s (stopat s k (StopBlock b) rc class t)"
| finishes: "ug_Driver s = DriverLoop k [] \<Longrightarrow> last_block (ug_Phase s) \<in> set (fo_Done (ug_Folder s)) \<Longrightarrow>
    resultOfPhase (mk_Kind m) (ug_Phase s) \<Longrightarrow> mk_N m = 1 \<Longrightarrow> driver_step s (writes s [m] (DriverStops False))"
| unfinished: "ug_Driver s = DriverLoop k [] \<Longrightarrow> last_block (ug_Phase s) \<notin> set (fo_Done (ug_Folder s)) \<Longrightarrow>
    driver_step s (stopat s k StopList 1 ClassIntegrity t)"
| undoes: "ug_Driver s = DriverStops True \<Longrightarrow> \<not> driver_pnr (ug_Folder s) \<Longrightarrow>
    fo_Abort f = fo_Abort (ug_Folder s) \<Longrightarrow> \<not> driver_pnr f \<Longrightarrow>
    driver_step s (writes (s\<lparr>ug_Folder := f\<rparr>) [(unit_mark MkUnwound t)\<lparr>mk_Result := Some r\<rparr>] (DriverStops False))"
| ends: "ug_Driver s = DriverStops u \<Longrightarrow>
    driver_step s (writes s [(unit_mark MkUnitEnd t)\<lparr>mk_Result := Some r\<rparr>] DriverGone)"
| lost: "driver_step s (s\<lparr>ug_Driver := DriverGone\<rparr>)"

subsection \<open>The call\<close>

datatype not_abortable = NotRunning | PointOfNoReturn | PastBlock

definition osUpgradeNotAbortable :: "run_state \<Rightarrow> not_abortable option" where
  "osUpgradeNotAbortable state =
     (if st_Name state \<noteq> StateRefreshing \<and> st_Name state \<noteq> StateRehearsing \<and> st_Name state \<noteq> StateRunning then Some NotRunning
      else if st_PNR state then Some PointOfNoReturn
      else if \<not> st_Abortable state then Some PastBlock
      else None)"

text \<open>
  What the core reads of a run at one moment, with the log that it read a moment before: the other parts of the reading (what systemd says, the clock, the
  boot) are whatever they are.
\<close>

definition reads_run :: "marker list \<Rightarrow> folder \<Rightarrow> input \<Rightarrow> bool" where
  "reads_run ms f i \<longleftrightarrow> in_Markers i = ms \<and> in_Files i = osUpgradeFiles f"

definition moves :: "upgrade \<Rightarrow> nat \<Rightarrow> call_at \<Rightarrow> upgrade" where
  "moves s c p = s\<lparr>ug_Calls := (ug_Calls s)(c := p)\<rparr>"

definition set_flag :: "upgrade \<Rightarrow> bool \<Rightarrow> upgrade" where
  "set_flag s b = s\<lparr>ug_Folder := (ug_Folder s)\<lparr>fo_Abort := b\<rparr>\<rparr>"

inductive call_step :: "nat \<Rightarrow> upgrade \<Rightarrow> upgrade \<Rightarrow> bool" for c where
  looks: "ug_Calls s c = CallNotMade \<Longrightarrow> call_step c s (moves s c (CallLooks (ug_Log s)))"
| checks: "ug_Calls s c = CallLooks ms \<Longrightarrow> reads_run ms (ug_Folder s) i \<Longrightarrow>
    call_step c s (moves s c (if osUpgradeNotAbortable (Reduce i) = None then CallChecked else CallEnded False))"
| flags: "ug_Calls s c = CallChecked \<Longrightarrow> \<not> fo_Abort (ug_Folder s) \<Longrightarrow> call_step c s (moves (set_flag s True) c CallFlagged)"
| no_flag: "ug_Calls s c = CallChecked \<Longrightarrow> call_step c s (moves s c (CallEnded False))"
| gives_up: "ug_Calls s c = CallFlagged \<Longrightarrow> call_step c s (moves (set_flag s False) c (CallEnded False))"
| reads_log: "ug_Calls s c = CallFlagged \<Longrightarrow> call_step c s (moves s c (CallRead (ug_Log s)))"
| decides: "ug_Calls s c = CallRead ms \<Longrightarrow> reads_run ms (ug_Folder s) i \<Longrightarrow>
    call_step c s (moves s c (if osUpgradeNotAbortable (Reduce i) = None then CallDecided else CallTakenBack))"
| takes_back: "ug_Calls s c = CallTakenBack \<Longrightarrow> call_step c s (moves (set_flag s False) c (CallEnded False))"
| stops_unit: "ug_Calls s c = CallDecided \<Longrightarrow> call_step c s (moves (s\<lparr>ug_Driver := DriverGone\<rparr>) c (CallEnded True))"
| cannot_stop: "ug_Calls s c = CallDecided \<Longrightarrow> call_step c s (moves s c (CallEnded True))"

subsection \<open>The two together\<close>

text \<open>A run whose first attempt was written and whose unit has not said anything yet, with nothing done.\<close>

definition launched :: "upgrade \<Rightarrow> bool" where
  "launched s \<longleftrightarrow>
     (\<exists>q r a. ug_Log s = [q, r, a] \<and> mk_Kind q = MkQueued \<and> mk_N q = 0 \<and> mk_Kind r = MkRun \<and> mk_Kind a = MkAttempt \<and> mk_N a = 1 \<and>
        mk_Phase a = Some (ug_Phase s) \<and> phaseFits (mk_RunKind r) (ug_Phase s) True) \<and>
     ug_Driver s = DriverBegins \<and> \<not> driver_pnr (ug_Folder s) \<and> \<not> fo_Abort (ug_Folder s) \<and> (\<forall>c. ug_Calls s c = CallNotMade)"

inductive upgrade_reach :: "upgrade \<Rightarrow> bool" where
  start: "launched s \<Longrightarrow> upgrade_reach s"
| driver: "upgrade_reach s \<Longrightarrow> driver_step s t \<Longrightarrow> upgrade_reach t"
| call: "upgrade_reach s \<Longrightarrow> call_step c s t \<Longrightarrow> upgrade_reach t"
| boot_seen: "upgrade_reach s \<Longrightarrow> mk_Kind m = MkBootSeen \<Longrightarrow> upgrade_reach (s\<lparr>ug_Log := ug_Log s @ [m]\<rparr>)"

end
