(* ===== verification/UpgradeAbortFacts.thy ===== *)
theory UpgradeAbortFacts
  imports UpgradeAbort
begin

section \<open>Calling an upgrade off: one of the two always sees the other\<close>

text \<open>
  The invariant of the driver and the calls. What the reducer hears of the log is the block that the driver began last; a call that wrote
  the flag read the log behind it; so a block whose line is not in that log is one that the driver does not run.
\<close>

subsection \<open>What the reducer hears of the driver\<close>

definition heard :: "marker list \<Rightarrow> stop_id option \<Rightarrow> nat \<Rightarrow> bool" where
  "heard ms l e \<longleftrightarrow>
     ms \<noteq> [] \<and>
     (\<forall>i tm. in_Markers i = ms \<longrightarrow>
        vw_valid (scan i tm) \<and> vw_run (scan i tm) \<noteq> None \<and> \<not> vw_sealed (scan i tm) \<and>
        (\<exists>a. vw_attempt (scan i tm) = [a] \<and> av_N a = 1 \<and> av_Started a \<and> \<not> av_Ended a \<and> av_LastStart a = l \<and> av_events a \<le> e))"

lemma scan_snoc:
  assumes "in_Markers i = ms @ [m]" "ms \<noteq> []" "vw_valid (scan (i\<lparr>in_Markers := ms\<rparr>) tm)"
  shows "scan i tm = scan_step (i\<lparr>in_Markers := ms\<rparr>) tm (scan (i\<lparr>in_Markers := ms\<rparr>) tm) m"
proof -
  have "scan i tm = scan ((i\<lparr>in_Markers := ms\<rparr>)\<lparr>in_Markers := in_Markers (i\<lparr>in_Markers := ms\<rparr>) @ [m]\<rparr>) tm"
    using assms(1) by (cases i) simp
  also have "\<dots> = scan_step (i\<lparr>in_Markers := ms\<rparr>) tm (scan (i\<lparr>in_Markers := ms\<rparr>) tm) m"
    using assms(2,3) by (subst scan_append) simp_all
  finally show ?thesis .
qed

lemma heard_snoc:
  assumes "heard ms l e"
    and "\<And>i tm v a. vw_run v \<noteq> None \<Longrightarrow> \<not> vw_sealed v \<Longrightarrow> vw_valid v \<Longrightarrow> vw_attempt v = [a] \<Longrightarrow> av_N a = 1 \<Longrightarrow> av_Started a \<Longrightarrow>
           \<not> av_Ended a \<Longrightarrow> av_LastStart a = l \<Longrightarrow> av_events a \<le> e \<Longrightarrow>
           vw_valid (scan_step i tm v m) \<and> vw_run (scan_step i tm v m) \<noteq> None \<and> \<not> vw_sealed (scan_step i tm v m) \<and>
           (\<exists>a'. vw_attempt (scan_step i tm v m) = [a'] \<and> av_N a' = 1 \<and> av_Started a' \<and> \<not> av_Ended a' \<and> av_LastStart a' = l' \<and> av_events a' \<le> e')"
  shows "heard (ms @ [m]) l' e'"
  unfolding heard_def
proof (intro conjI allI impI)
  fix i :: input and tm
  assume i: "in_Markers i = ms @ [m]"
  let ?v = "scan (i\<lparr>in_Markers := ms\<rparr>) tm"
  have "in_Markers (i\<lparr>in_Markers := ms\<rparr>) = ms" by simp
  then have v: "vw_valid ?v" "vw_run ?v \<noteq> None" "\<not> vw_sealed ?v" "ms \<noteq> []"
    "\<exists>a. vw_attempt ?v = [a] \<and> av_N a = 1 \<and> av_Started a \<and> \<not> av_Ended a \<and> av_LastStart a = l \<and> av_events a \<le> e"
    using assms(1) unfolding heard_def by blast+
  then obtain a where a: "vw_attempt ?v = [a]" "av_N a = 1" "av_Started a" "\<not> av_Ended a" "av_LastStart a = l" "av_events a \<le> e"
    by blast
  have s: "scan i tm = scan_step (i\<lparr>in_Markers := ms\<rparr>) tm ?v m" by (rule scan_snoc [OF i v(4) v(1)])
  from assms(2) [OF v(2,3,1) a, of "i\<lparr>in_Markers := ms\<rparr>" tm]
  show "vw_valid (scan i tm)" "vw_run (scan i tm) \<noteq> None" "\<not> vw_sealed (scan i tm)"
    "\<exists>a. vw_attempt (scan i tm) = [a] \<and> av_N a = 1 \<and> av_Started a \<and> \<not> av_Ended a \<and> av_LastStart a = l' \<and> av_events a \<le> e'"
    unfolding s by blast+
qed simp

lemma heard_boot: "heard ms l e \<Longrightarrow> mk_Kind m = MkBootSeen \<Longrightarrow> heard (ms @ [m]) l e"
  by (erule heard_snoc) (auto simp: scan_step_def add_def)

lemma heard_start:
  "heard ms l e \<Longrightarrow> e < maxBlockEvents \<Longrightarrow> heard (ms @ [block_mark MkBlockStart k b t]) (Some (StopBlock b)) (Suc e)"
  by (erule heard_snoc)
     (auto simp: scan_step_def add_def addUnitMarker_def block_mark_def unit_mark_def new_marker_def view_last_def set_last_def touch_def Let_def)

lemma heard_end:
  "heard ms l e \<Longrightarrow> kind \<in> {MkBlockDone, MkBlockSkipped} \<Longrightarrow> heard (ms @ [block_mark kind k b t]) l (Suc e)"
  by (erule heard_snoc)
     (auto simp: scan_step_def add_def addUnitMarker_def block_mark_def unit_mark_def new_marker_def view_last_def set_last_def touch_def Let_def)

lemma heard_mono: "heard ms l e \<Longrightarrow> e \<le> e' \<Longrightarrow> heard ms l e'"
  unfolding heard_def using order_trans by blast

subsection \<open>The log while the driver is at work\<close>

lemma launched_log:
  assumes "mk_Kind q = MkQueued" "mk_N q = 0" "mk_Kind r = MkRun" "mk_Kind a = MkAttempt" "mk_N a = 1" "mk_Phase a = Some p"
    and "phaseFits (mk_RunKind r) p True" "\<forall>m\<in>set bs. mk_Kind m = MkBootSeen"
    and "mk_Kind u = MkUnitStart" "mk_N u = 1" "mk_Phase u = Some p"
  shows "heard ([q, r, a] @ bs @ [u]) None 0"
proof -
  have "scan_step i tm v m = v" if "m \<in> set bs" "vw_run v \<noteq> None" for i tm v m
    using that assms(8) by (simp add: scan_step_def add_def)
  then have boots: "foldl (scan_step i tm) v bs' = v" if "set bs' \<subseteq> set bs" "vw_run v \<noteq> None" for i tm v bs'
    using that by (induction bs') auto
  let ?w = "\<lambda>tm. touch (empty_view\<lparr>vw_valid := True, vw_queued := mk_At q, vw_run := Some r,
      vw_attempt := [new_attempt 1 p (mk_From a) (mk_Who a) (mk_At a)]\<rparr>) (mk_At a)"
  have "foldl (scan_step i tm) (empty_view\<lparr>vw_valid := True, vw_queued := mk_At q\<rparr>) [r, a] = ?w tm" for i tm
    using assms by (simp add: scan_step_def add_def empty_view_def touch_def)
  moreover have "vw_run (?w tm) \<noteq> None" for tm by (simp add: touch_def)
  ultimately have scan: "scan i tm = scan_step i tm (?w tm) u" if "in_Markers i = [q, r, a] @ bs @ [u]" for i tm
    using that assms(1,2) boots [of bs] by (simp add: scan_def)
  show ?thesis
    unfolding heard_def
    using assms(9-11)
    by (auto simp: scan scan_step_def add_def touch_def view_last_def set_last_def new_attempt_def empty_view_def)
qed

text \<open>The log before the unit says anything: the three lines of the launch, and boots.\<close>

definition unheard :: "phase \<Rightarrow> marker list \<Rightarrow> bool" where
  "unheard p ms \<longleftrightarrow>
     (\<exists>q r a bs. ms = [q, r, a] @ bs \<and> mk_Kind q = MkQueued \<and> mk_N q = 0 \<and> mk_Kind r = MkRun \<and> mk_Kind a = MkAttempt \<and> mk_N a = 1 \<and>
        mk_Phase a = Some p \<and> phaseFits (mk_RunKind r) p True \<and> (\<forall>m\<in>set bs. mk_Kind m = MkBootSeen))"

lemma unheard_boot: "unheard p ms \<Longrightarrow> mk_Kind m = MkBootSeen \<Longrightarrow> unheard p (ms @ [m])"
proof -
  assume "unheard p ms" "mk_Kind m = MkBootSeen"
  then obtain q r a bs where "ms = [q, r, a] @ bs" "mk_Kind q = MkQueued" "mk_N q = 0" "mk_Kind r = MkRun" "mk_Kind a = MkAttempt" "mk_N a = 1"
    "mk_Phase a = Some p" "phaseFits (mk_RunKind r) p True" "\<forall>m\<in>set (bs @ [m]). mk_Kind m = MkBootSeen"
    unfolding unheard_def by auto
  moreover from this(1) have "ms @ [m] = [q, r, a] @ (bs @ [m])" by simp
  ultimately show ?thesis unfolding unheard_def by blast
qed

lemma unheard_heard:
  "unheard p ms \<Longrightarrow> heard (ms @ [(unit_mark MkUnitStart t)\<lparr>mk_Phase := Some p, mk_Boot := boot\<rparr>]) None 0"
  unfolding unheard_def
  by (elim exE conjE) (simp only: append_assoc, rule launched_log, auto simp: unit_mark_def new_marker_def)

text \<open>The list of the blocks of a first attempt: each once, and few.\<close>

definition list_left :: "nat \<Rightarrow> block list \<Rightarrow> bool" where
  "list_left k bs \<longleftrightarrow> distinct bs \<and> k + length bs \<le> 8"

lemma BlockList_left:
  "phaseFits kind p True \<Longrightarrow> list_left 0 (BlockList p f)"
  by (cases p; cases kind; simp add: phaseFits_def list_left_def; cases "the kind"; simp)

subsection \<open>The invariant\<close>

abbreviation pnr_of :: "upgrade \<Rightarrow> bool" where
  "pnr_of s \<equiv> driver_pnr (ug_Folder s)"

definition driver_ok :: "upgrade \<Rightarrow> bool" where
  "driver_ok s =
     (case ug_Driver s of
        DriverBegins \<Rightarrow> unheard (ug_Phase s) (ug_Log s) \<and> \<not> pnr_of s
      | DriverLoop k bs \<Rightarrow>
          list_left k bs \<and> (pnr_of s \<longrightarrow> BlockMinimal \<notin> set bs) \<and> (\<exists>l. heard (ug_Log s) l (2 * k))
      | DriverChecks k b bs \<Rightarrow>
          list_left k bs \<and> 0 < k \<and> b \<notin> set bs \<and> (pnr_of s \<longrightarrow> BlockMinimal \<notin> set (b # bs)) \<and> heard (ug_Log s) (Some (StopBlock b)) (2 * k - 1)
      | DriverRuns k b bs \<Rightarrow>
          list_left k bs \<and> 0 < k \<and> b \<notin> set bs \<and> (pnr_of s \<longrightarrow> BlockMinimal \<notin> set bs) \<and> heard (ug_Log s) (Some (StopBlock b)) (2 * k - 1)
      | _ \<Rightarrow> True)"

text \<open>The call that the flag is of: at most one, and the flag is there exactly when there is one.\<close>

definition holder :: "call_at \<Rightarrow> bool" where
  "holder p = (case p of CallFlagged \<Rightarrow> True | CallRead ms \<Rightarrow> True | CallDecided \<Rightarrow> True | CallTakenBack \<Rightarrow> True | CallEnded made \<Rightarrow> made | _ \<Rightarrow> False)"

definition calls_ok :: "upgrade \<Rightarrow> bool" where
  "calls_ok s \<longleftrightarrow>
     (\<forall>c d. holder (ug_Calls s c) \<and> holder (ug_Calls s d) \<longrightarrow> c = d) \<and> (fo_Abort (ug_Folder s) \<longleftrightarrow> (\<exists>c. holder (ug_Calls s c)))"

definition read_ok :: "upgrade \<Rightarrow> bool" where
  "read_ok s \<longleftrightarrow>
     (\<forall>c ms k b bs. ug_Calls s c = CallRead ms \<and> ug_Driver s = DriverRuns k b bs \<longrightarrow>
        (\<exists>e. heard ms (Some (StopBlock b)) e) \<or> pnr_of s \<and> b \<noteq> BlockMinimal)"

definition decided_ok :: "upgrade \<Rightarrow> bool" where
  "decided_ok s \<longleftrightarrow>
     (\<forall>c. ug_Calls s c \<in> {CallDecided, CallEnded True} \<longrightarrow>
        \<not> pnr_of s \<and> (\<forall>k b bs. ug_Driver s = DriverRuns k b bs \<longrightarrow> \<not> pastAbort (Some (StopBlock b))))"

definition race_ok :: "upgrade \<Rightarrow> bool" where
  "race_ok s \<longleftrightarrow> driver_ok s \<and> calls_ok s \<and> read_ok s \<and> decided_ok s"

lemma pnr_files: "PNR (osUpgradeFiles f) \<longleftrightarrow> driver_pnr f"
  by (simp add: PNR_def osUpgradeFiles_def driver_pnr_def)

lemma flag_pnr [simp]: "driver_pnr (f\<lparr>fo_Abort := b\<rparr>) = driver_pnr f"
  by (simp add: driver_pnr_def)

lemma launched_ok: "launched s \<Longrightarrow> race_ok s"
proof -
  assume l: "launched s"
  then obtain q r a where "ug_Log s = [q, r, a] @ []" "mk_Kind q = MkQueued" "mk_N q = 0" "mk_Kind r = MkRun" "mk_Kind a = MkAttempt" "mk_N a = 1"
    "mk_Phase a = Some (ug_Phase s)" "phaseFits (mk_RunKind r) (ug_Phase s) True"
    by (auto simp: launched_def)
  then have "unheard (ug_Phase s) (ug_Log s)"
    unfolding unheard_def by (intro exI [of _ q] exI [of _ r] exI [of _ a] exI [of _ "[]"]) simp
  then show ?thesis using l by (simp add: launched_def race_ok_def driver_ok_def calls_ok_def read_ok_def decided_ok_def holder_def)
qed

subsection \<open>The driver keeps it\<close>

lemma driver_keeps_calls: "driver_step s t \<Longrightarrow> ug_Calls t = ug_Calls s \<and> fo_Abort (ug_Folder t) = fo_Abort (ug_Folder s)"
  by (induction rule: driver_step.induct) (simp_all add: writes_def stopat_def Let_def block_may_def)

lemma driver_calls_ok: "driver_step s t \<Longrightarrow> calls_ok s \<Longrightarrow> calls_ok t"
  using driver_keeps_calls by (simp add: calls_ok_def)

lemma driver_step_runs:
  "driver_step s t \<Longrightarrow> ug_Driver t = DriverRuns k b bs \<Longrightarrow>
     ug_Driver s = DriverChecks k b bs \<and> (fo_Abort (ug_Folder s) \<longrightarrow> pnr_of s) \<and> ug_Folder t = ug_Folder s \<or>
     ug_Driver s = DriverRuns k b bs \<and> block_may b (ug_Folder s) (ug_Folder t)"
  by (induction rule: driver_step.induct) (auto simp: writes_def stopat_def Let_def)

lemma driver_step_pnr:
  "driver_step s t \<Longrightarrow> pnr_of t \<noteq> pnr_of s \<Longrightarrow> \<exists>k bs. ug_Driver s = DriverRuns k BlockMinimal bs"
  by (induction rule: driver_step.induct) (auto simp: writes_def stopat_def Let_def block_may_def driver_pnr_def)

lemma driver_read_ok:
  assumes "driver_step s t" "race_ok s"
  shows "read_ok t"
  unfolding read_ok_def
proof (intro allI impI)
  fix c ms k b bs
  assume c: "ug_Calls t c = CallRead ms \<and> ug_Driver t = DriverRuns k b bs"
  then have cs: "ug_Calls s c = CallRead ms" using driver_keeps_calls [OF assms(1)] by simp
  then have flag: "fo_Abort (ug_Folder s)" using assms(2) by (auto simp: race_ok_def calls_ok_def holder_def intro: exI [of _ c])
  from driver_step_runs [OF assms(1) conjunct2 [OF c]]
  show "(\<exists>e. heard ms (Some (StopBlock b)) e) \<or> pnr_of t \<and> b \<noteq> BlockMinimal"
  proof (elim disjE conjE)
    assume "ug_Driver s = DriverChecks k b bs" "fo_Abort (ug_Folder s) \<longrightarrow> pnr_of s" "ug_Folder t = ug_Folder s"
    then show ?thesis using assms(2) flag by (auto simp: race_ok_def driver_ok_def)
  next
    assume d: "ug_Driver s = DriverRuns k b bs" "block_may b (ug_Folder s) (ug_Folder t)"
    then have "(\<exists>e. heard ms (Some (StopBlock b)) e) \<or> pnr_of s \<and> b \<noteq> BlockMinimal"
      using assms(2) cs unfolding race_ok_def read_ok_def by blast
    then show ?thesis using d(2) by (auto simp: block_may_def driver_pnr_def)
  qed
qed

lemma driver_decided_ok:
  assumes "driver_step s t" "race_ok s"
  shows "decided_ok t"
  unfolding decided_ok_def
proof (intro allI impI)
  fix c
  assume "ug_Calls t c \<in> {CallDecided, CallEnded True}"
  then have c: "ug_Calls s c \<in> {CallDecided, CallEnded True}" using driver_keeps_calls [OF assms(1)] by simp
  then have d: "\<not> pnr_of s" "\<And>k b bs. ug_Driver s = DriverRuns k b bs \<Longrightarrow> \<not> pastAbort (Some (StopBlock b))"
    using assms(2) unfolding race_ok_def decided_ok_def by blast+
  have flag: "fo_Abort (ug_Folder s)" using assms(2) c by (auto simp: race_ok_def calls_ok_def holder_def intro: exI [of _ c])
  have "\<not> pnr_of t"
    using driver_step_pnr [OF assms(1)] d by (auto simp: pastAbort_def)
  moreover have "\<not> pastAbort (Some (StopBlock b))" if "ug_Driver t = DriverRuns k b bs" for k b bs
    using driver_step_runs [OF assms(1) that] d flag by auto
  ultimately show "\<not> pnr_of t \<and> (\<forall>k b bs. ug_Driver t = DriverRuns k b bs \<longrightarrow> \<not> pastAbort (Some (StopBlock b)))" by blast
qed

lemma unheard_fits: "unheard p ms \<Longrightarrow> \<exists>kind. phaseFits kind p True"
  unfolding unheard_def by blast

lemma driver_driver_ok: "driver_step s t \<Longrightarrow> driver_ok s \<Longrightarrow> driver_ok t"
proof (induction rule: driver_step.induct)
  case (begins s t boot)
  then have u: "unheard (ug_Phase s) (ug_Log s)" "\<not> pnr_of s" by (simp_all add: driver_ok_def)
  from unheard_fits [OF u(1)] have "list_left 0 (BlockList (ug_Phase s) (osUpgradeFiles (ug_Folder s)))" using BlockList_left by blast
  then show ?case using unheard_heard [OF u(1)] u(2) by (auto simp: driver_ok_def writes_def)
next
  case (skips s k b bs)
  then obtain l where "list_left k (b # bs)" "pnr_of s \<longrightarrow> BlockMinimal \<notin> set (b # bs)" "heard (ug_Log s) l (2 * k)"
    by (auto simp: driver_ok_def)
  then have "list_left (k + 1) bs" "pnr_of s \<longrightarrow> BlockMinimal \<notin> set bs"
    "heard (ug_Log s @ [block_mark MkBlockSkipped (k + 1) b zero_time]) l (2 * (k + 1))"
    using heard_mono [OF heard_end] by (auto simp: list_left_def)
  then show ?case by (auto simp: driver_ok_def writes_def)
next
  case (starts s k b bs t)
  then obtain l where l: "list_left k (b # bs)" "pnr_of s \<longrightarrow> BlockMinimal \<notin> set (b # bs)" "heard (ug_Log s) l (2 * k)"
    by (auto simp: driver_ok_def)
  then have "2 * k < maxBlockEvents" by (simp add: list_left_def maxBlockEvents_def)
  from heard_start [OF l(3) this] have "heard (ug_Log s @ [block_mark MkBlockStart (k + 1) b t]) (Some (StopBlock b)) (2 * (k + 1) - 1)" by simp
  then show ?case using l(1,2) by (auto simp: driver_ok_def writes_def list_left_def)
next
  case (skips_unsaid s k b bs)
  then obtain l where "list_left k (b # bs)" "pnr_of s \<longrightarrow> BlockMinimal \<notin> set (b # bs)" "heard (ug_Log s) l (2 * k)"
    by (auto simp: driver_ok_def)
  then show ?case using heard_mono [of _ l "2 * k" "2 * (k + 1)"] by (auto simp: driver_ok_def list_left_def)
next
  case (succeeds_unsaid s k b bs)
  then show ?case using heard_mono [of _ "Some (StopBlock b)" "2 * k - 1" "2 * k"] by (auto simp: driver_ok_def)
next
  case (goes_on s k b bs)
  then show ?case by (auto simp: driver_ok_def)
next
  case (works s k b bs f)
  then have d: "list_left k bs" "0 < k" "b \<notin> set bs" "pnr_of s \<longrightarrow> BlockMinimal \<notin> set bs" "heard (ug_Log s) (Some (StopBlock b)) (2 * k - 1)"
    by (simp_all add: driver_ok_def)
  have "driver_pnr f \<longrightarrow> BlockMinimal \<notin> set bs"
    using d(3,4) works(2) by (auto simp: block_may_def driver_pnr_def)
  then show ?case using works(1) d by (simp add: driver_ok_def)
next
  case (succeeds s k b bs t)
  then have d: "list_left k bs" "0 < k" "b \<notin> set bs" "pnr_of s \<longrightarrow> BlockMinimal \<notin> set bs" "heard (ug_Log s) (Some (StopBlock b)) (2 * k - 1)"
    by (simp_all add: driver_ok_def)
  have "heard (ug_Log s @ [block_mark MkBlockDone k b t]) (Some (StopBlock b)) (2 * k)"
    using heard_end [OF d(5), of MkBlockDone] d(2) by (auto elim: heard_mono)
  then show ?case using d by (auto simp: driver_ok_def writes_def)
qed (simp_all add: driver_ok_def writes_def stopat_def Let_def)

lemma driver_race_ok: "driver_step s t \<Longrightarrow> race_ok s \<Longrightarrow> race_ok t"
  using driver_driver_ok driver_calls_ok driver_read_ok driver_decided_ok unfolding race_ok_def by blast

subsection \<open>A call keeps it\<close>

lemma not_abortable_None:
  assumes "osUpgradeNotAbortable (Reduce i) = None"
  shows "\<not> PNR (in_Files i)" "heard (in_Markers i) (Some (StopBlock b)) e \<Longrightarrow> \<not> pastAbort (Some (StopBlock b))"
proof -
  have "st_Name (Reduce i) \<in> {StateRefreshing, StateRehearsing, StateRunning}" "st_Abortable (Reduce i)"
    using assms by (auto simp: osUpgradeNotAbortable_def split: if_splits)
  from abortable_reading [OF this] obtain a where a: "\<not> PNR (in_Files i)" "view_last (scan i (timingOf i)) = Some a" "\<not> pastAbort (av_LastStart a)"
    by blast
  show "\<not> PNR (in_Files i)" by (rule a(1))
  assume "heard (in_Markers i) (Some (StopBlock b)) e"
  then obtain a' where "vw_attempt (scan i (timingOf i)) = [a']" "av_LastStart a' = Some (StopBlock b)"
    unfolding heard_def by blast
  then show "\<not> pastAbort (Some (StopBlock b))" using a(2,3) by (simp add: view_last_def)
qed

lemma holder_simps [simp]:
  "holder CallFlagged" "holder (CallRead ms)" "holder CallDecided" "holder CallTakenBack" "holder (CallEnded True)"
  "\<not> holder CallNotMade" "\<not> holder (CallLooks ms)" "\<not> holder CallChecked" "\<not> holder (CallEnded False)"
  by (simp_all add: holder_def)

text \<open>A call that moves without the flag, one that takes the flag and one that gives it back.\<close>

lemma calls_ok_moves:
  assumes "calls_ok s"
  shows "holder p = holder (ug_Calls s c) \<Longrightarrow> calls_ok (moves s c p)"
    "\<not> fo_Abort (ug_Folder s) \<Longrightarrow> holder p \<Longrightarrow> calls_ok (moves (set_flag s True) c p)"
    "holder (ug_Calls s c) \<Longrightarrow> \<not> holder p \<Longrightarrow> calls_ok (moves (set_flag s False) c p)"
proof -
  show "calls_ok (moves s c p)" if "holder p = holder (ug_Calls s c)"
  proof -
    have "holder (ug_Calls (moves s c p) d) = holder (ug_Calls s d)" for d using that by (simp add: moves_def)
    then show ?thesis using assms by (simp add: calls_ok_def) (simp add: moves_def)
  qed
  show "calls_ok (moves (set_flag s True) c p)" if "\<not> fo_Abort (ug_Folder s)" "holder p"
    using assms that by (auto simp: calls_ok_def moves_def set_flag_def)
  show "calls_ok (moves (set_flag s False) c p)" if "holder (ug_Calls s c)" "\<not> holder p"
    using assms that by (auto simp: calls_ok_def moves_def set_flag_def)
qed

lemma call_calls_ok: "call_step c s t \<Longrightarrow> calls_ok s \<Longrightarrow> calls_ok t"
proof (induction rule: call_step.induct)
  case (stops_unit s)
  have "calls_ok (s\<lparr>ug_Driver := DriverGone\<rparr>)" using stops_unit(2) by (simp add: calls_ok_def)
  then show ?case by (rule calls_ok_moves(1)) (simp add: stops_unit(1))
qed (simp_all add: calls_ok_moves)

lemma call_keeps:
  "call_step c s t \<Longrightarrow> ug_Log t = ug_Log s \<and> ug_Phase t = ug_Phase s \<and> pnr_of t = pnr_of s \<and>
     (ug_Driver t = ug_Driver s \<or> ug_Driver t = DriverGone) \<and> (\<forall>d. d \<noteq> c \<longrightarrow> ug_Calls t d = ug_Calls s d)"
  by (induction rule: call_step.induct) (simp_all add: moves_def set_flag_def)

lemma call_driver_ok: "call_step c s t \<Longrightarrow> driver_ok s \<Longrightarrow> driver_ok t"
  using call_keeps [of c s t] by (cases "ug_Driver t = ug_Driver s") (auto simp: driver_ok_def cong: driver_at.case_cong)

lemma call_read: "call_step c s t \<Longrightarrow> ug_Calls t c = CallRead ms \<Longrightarrow> ms = ug_Log s"
  by (induction rule: call_step.induct) (auto simp: moves_def split: if_splits)

lemma call_decided:
  "call_step c s t \<Longrightarrow> ug_Calls t c \<in> {CallDecided, CallEnded True} \<Longrightarrow>
     ug_Calls s c = CallDecided \<or> (\<exists>ms i. ug_Calls s c = CallRead ms \<and> reads_run ms (ug_Folder s) i \<and> osUpgradeNotAbortable (Reduce i) = None)"
  by (induction rule: call_step.induct) (auto simp: moves_def split: if_splits)

lemma call_read_ok:
  assumes "call_step c s t" "race_ok s"
  shows "read_ok t"
  unfolding read_ok_def
proof (intro allI impI)
  fix d ms k b bs
  assume d: "ug_Calls t d = CallRead ms \<and> ug_Driver t = DriverRuns k b bs"
  then have r: "ug_Driver s = DriverRuns k b bs" using call_keeps [OF assms(1)] by auto
  show "(\<exists>e. heard ms (Some (StopBlock b)) e) \<or> pnr_of t \<and> b \<noteq> BlockMinimal"
  proof (cases "d = c")
    case True
    then have "ms = ug_Log s" using call_read [OF assms(1)] d by blast
    then show ?thesis using r assms(2) by (auto simp: race_ok_def driver_ok_def)
  next
    case False
    then have "ug_Calls s d = CallRead ms" using call_keeps [OF assms(1)] d by auto
    then have "(\<exists>e. heard ms (Some (StopBlock b)) e) \<or> pnr_of s \<and> b \<noteq> BlockMinimal"
      using r assms(2) unfolding race_ok_def read_ok_def by blast
    then show ?thesis using call_keeps [OF assms(1)] by simp
  qed
qed

lemma call_decided_ok:
  assumes "call_step c s t" "race_ok s"
  shows "decided_ok t"
  unfolding decided_ok_def
proof (intro allI impI)
  fix d
  assume d: "ug_Calls t d \<in> {CallDecided, CallEnded True}"
  have keep: "pnr_of t = pnr_of s" "ug_Driver t = DriverRuns k b bs \<Longrightarrow> ug_Driver s = DriverRuns k b bs" for k b bs
    using call_keeps [OF assms(1)] by auto
  have "\<not> pnr_of s \<and> (\<forall>k b bs. ug_Driver s = DriverRuns k b bs \<longrightarrow> \<not> pastAbort (Some (StopBlock b)))"
  proof (cases "ug_Calls s d \<in> {CallDecided, CallEnded True}")
    case True
    then show ?thesis using assms(2) unfolding race_ok_def decided_ok_def by blast
  next
    case False
    then have "d = c" using d call_keeps [OF assms(1)] by fastforce
    then obtain ms i where m: "ug_Calls s c = CallRead ms" "reads_run ms (ug_Folder s) i" "osUpgradeNotAbortable (Reduce i) = None"
      using False d call_decided [OF assms(1)] by blast
    then have i: "in_Markers i = ms" "in_Files i = osUpgradeFiles (ug_Folder s)" by (simp_all add: reads_run_def)
    have pnr: "\<not> pnr_of s" using not_abortable_None(1) [OF m(3)] by (simp add: i pnr_files)
    have "\<not> pastAbort (Some (StopBlock b))" if "ug_Driver s = DriverRuns k b bs" for k b bs
    proof -
      have "\<exists>e. heard ms (Some (StopBlock b)) e" using that m(1) assms(2) pnr unfolding race_ok_def read_ok_def by blast
      then show ?thesis using not_abortable_None(2) [OF m(3)] i(1) by blast
    qed
    then show ?thesis using pnr by blast
  qed
  then show "\<not> pnr_of t \<and> (\<forall>k b bs. ug_Driver t = DriverRuns k b bs \<longrightarrow> \<not> pastAbort (Some (StopBlock b)))" using keep by blast
qed

lemma boot_race_ok:
  assumes "race_ok s" "mk_Kind m = MkBootSeen"
  shows "race_ok (s\<lparr>ug_Log := ug_Log s @ [m]\<rparr>)"
proof -
  have "driver_ok (s\<lparr>ug_Log := ug_Log s @ [m]\<rparr>)"
    using assms heard_boot [OF _ assms(2)] unheard_boot [OF _ assms(2)]
    by (auto simp: race_ok_def driver_ok_def split: driver_at.splits)
  then show ?thesis using assms by (simp add: race_ok_def calls_ok_def read_ok_def decided_ok_def)
qed

lemma reach_race_ok: "upgrade_reach s \<Longrightarrow> race_ok s"
proof (induction rule: upgrade_reach.induct)
  case (call s c t)
  then show ?case
    using call_driver_ok call_calls_ok call_read_ok call_decided_ok unfolding race_ok_def by blast
qed (auto intro: launched_ok driver_race_ok boot_race_ok)


definition example_upgrade :: "call_at \<Rightarrow> bool \<Rightarrow> upgrade" where
  "example_upgrade p flag =
     \<lparr>ug_Phase = PhaseRun, ug_Log = log_of RunHop PhaseRun,
      ug_Folder = \<lparr>fo_Begun = False, fo_Done = [], fo_AptOrig = False, fo_BootID = [], fo_Abort = flag\<rparr>,
      ug_Driver = DriverLoop 0 (BlockList PhaseRun no_files), ug_Calls = (\<lambda>c. CallNotMade)(0 := p)\<rparr>"

lemma example_files: "osUpgradeFiles (ug_Folder (example_upgrade p flag)) = no_files\<lparr>AbortFlag := flag\<rparr>"
  by (simp add: osUpgradeFiles_def example_upgrade_def no_files_def)

lemma example_reads:
  "reads_run (log_of RunHop PhaseRun) (ug_Folder (example_upgrade p flag)) (reading (log_of RunHop PhaseRun) (no_files\<lparr>AbortFlag := flag\<rparr>) True)"
  unfolding reads_run_def example_files by (simp add: reading_def)

lemma example_abortable: "osUpgradeNotAbortable (Reduce (reading (log_of RunHop PhaseRun) (no_files\<lparr>AbortFlag := flag\<rparr>) True)) = None"
  by (simp add: osUpgradeNotAbortable_def reduce_eval cong: let_weak_cong)

lemma example_begun: "upgrade_reach (example_upgrade CallNotMade False)"
proof -
  let ?s = "(example_upgrade CallNotMade False)\<lparr>ug_Log := take 3 (log_of RunHop PhaseRun), ug_Driver := DriverBegins\<rparr>"
  have "launched ?s"
    by (simp add: launched_def example_upgrade_def log_of_def new_marker_def phaseFits_def driver_pnr_def)
  then have "upgrade_reach ?s" by (rule upgrade_reach.start)
  moreover have "driver_step ?s (writes ?s [(unit_mark MkUnitStart (example_time 2))\<lparr>mk_Phase := Some (ug_Phase ?s), mk_Boot := boot_a\<rparr>]
      (DriverLoop 0 (BlockList (ug_Phase ?s) (osUpgradeFiles (ug_Folder ?s)))))"
    by (rule driver_step.begins) (simp_all add: example_upgrade_def)
  ultimately have "upgrade_reach (writes ?s [(unit_mark MkUnitStart (example_time 2))\<lparr>mk_Phase := Some (ug_Phase ?s), mk_Boot := boot_a\<rparr>]
      (DriverLoop 0 (BlockList (ug_Phase ?s) (osUpgradeFiles (ug_Folder ?s)))))"
    by (rule upgrade_reach.driver)
  then show ?thesis by (simp add: writes_def example_upgrade_def log_of_def unit_mark_def)
qed

lemma example_moves [simp]: "moves (example_upgrade p flag) 0 q = example_upgrade q flag"
  "moves (set_flag (example_upgrade p flag) b) 0 q = example_upgrade q b" "ug_Calls (example_upgrade p flag) 0 = p"
  "ug_Log (example_upgrade p flag) = log_of RunHop PhaseRun" "fo_Abort (ug_Folder (example_upgrade p flag)) = flag"
  by (simp_all add: moves_def set_flag_def example_upgrade_def)

lemma example_call: "call_step 0 (example_upgrade p flag) (example_upgrade q b) \<Longrightarrow> upgrade_reach (example_upgrade p flag) \<Longrightarrow> upgrade_reach (example_upgrade q b)"
  by (rule upgrade_reach.call)

lemma example_decided: "upgrade_reach (example_upgrade CallDecided True)"
proof -
  let ?ms = "log_of RunHop PhaseRun"
  have "call_step 0 (example_upgrade CallNotMade False) (example_upgrade (CallLooks ?ms) False)"
    using call_step.looks [of "example_upgrade CallNotMade False" 0] by simp
  note r1 = example_call [OF this example_begun]
  have "call_step 0 (example_upgrade (CallLooks ?ms) False) (example_upgrade CallChecked False)"
    using call_step.checks [of "example_upgrade (CallLooks ?ms) False" 0, OF _ example_reads] example_abortable [of False] by simp
  note r2 = example_call [OF this r1]
  have "call_step 0 (example_upgrade CallChecked False) (example_upgrade CallFlagged True)"
    using call_step.flags [of "example_upgrade CallChecked False" 0] by simp
  note r3 = example_call [OF this r2]
  have "call_step 0 (example_upgrade CallFlagged True) (example_upgrade (CallRead ?ms) True)"
    using call_step.reads_log [of "example_upgrade CallFlagged True" 0] by simp
  note r4 = example_call [OF this r3]
  have "call_step 0 (example_upgrade (CallRead ?ms) True) (example_upgrade CallDecided True)"
    using call_step.decides [of "example_upgrade (CallRead ?ms) True" 0, OF _ example_reads] example_abortable [of True] by simp
  from example_call [OF this r4] show ?thesis .
qed


end
