(* ===== verification/UpgradeService.thy ===== *)
theory UpgradeService
  imports UpgradeAbort
begin

section \<open>The core's part of an upgrade: launches, the owner's word, the flag\<close>

text \<open>
  Models what the core does to a run under its lock: the reading of a run (\<open>system_os_upgrade_read.go\<close>), the launch of an attempt
  (\<open>system_os_upgrade_launch.go\<close>), the owner's word (\<open>system_os_upgrade_ack.go\<close>, \<open>closeOSUpgradeRun\<close> of \<open>system_os_upgrade_begin.go\<close>), and the flag
  that keeps the rest of the box away (\<open>system_os_upgrade_settle.go\<close>). The files are the machine; what the disk and systemd answer is the world. A marker that is
  appended is read back as the fields that its kind carries, which is what the round trip of the markers shows.
\<close>

subsection \<open>The machine and the world\<close>

record run_folder =
  rf_ID :: string
  rf_Kind :: run_kind
  rf_PlanID :: string
  rf_Hop :: string
  rf_CreatedAt :: instant
  rf_Nonce :: string
  rf_Markers :: "marker list"
  rf_Ignored :: nat
  rf_TooLarge :: bool
  rf_Files :: files
  rf_BackupOutside :: bool
  rf_OutputAt :: instant
  rf_SumsHold :: bool
  rf_Barrier :: "barrier option"
  rf_Verify :: "verify_result option"
  rf_Lists :: "(int \<times> block list) list"

datatype current_run = CurrentNone | CurrentBad | CurrentRun string

record busy_flag =
  bf_RunID :: string
  bf_State :: state_name
  bf_Since :: instant

record machine =
  mc_Current :: current_run
  mc_Runs :: "string \<Rightarrow> run_folder option"
  mc_Flag :: "busy_flag option"
  mc_LastRefresh :: "instant option"
  mc_MuteUntil :: instant
  mc_PlanLive :: bool
  mc_Launching :: int

record surroundings =
  wo_Now :: instant
  wo_Boot :: boot
  wo_Timing :: timing
  wo_Supported :: bool
  wo_LogWritable :: bool
  wo_ListWritable :: bool
  wo_FlagWritable :: bool
  wo_FlagRemovable :: bool
  wo_PointerRemovable :: bool
  wo_BackupMovable :: bool
  wo_NoteWritable :: bool

subsection \<open>Reading a run\<close>

definition osUpgradeRunLineDiffers :: "run_folder \<Rightarrow> bool" where
  "osUpgradeRunLineDiffers run =
     (case List.find (\<lambda>m. mk_Kind m = MkRun) (rf_Markers run) of
        None \<Rightarrow> False
      | Some m \<Rightarrow> mk_RunID m \<noteq> rf_ID run \<or> mk_RunKind m \<noteq> Some (rf_Kind run) \<or> mk_PlanID m \<noteq> rf_PlanID run \<or> mk_Hop m \<noteq> rf_Hop run)"

text \<open>The time of the last marker of a boot: the loop of \<open>osUpgradeInputWith\<close>.\<close>

definition boot_seen_at :: "boot \<Rightarrow> marker list \<Rightarrow> instant" where
  "boot_seen_at b ms =
     foldl (\<lambda>t m. if mk_Kind m = MkBootSeen \<and> mk_Boot m = b_Now b \<and> b_OK b then mk_At m else t) zero_time ms"

definition osUpgradeInputWith :: "surroundings \<Rightarrow> run_folder \<Rightarrow> unit_sight \<Rightarrow> input" where
  "osUpgradeInputWith w run unit =
     \<lparr>in_Markers = rf_Markers run, in_Ignored = rf_Ignored run, in_Files = rf_Files run, in_Unit = unit, in_Boot = wo_Boot w,
      in_Now = wo_Now w, in_LastActivity = rf_OutputAt run, in_Barrier = rf_Barrier run, in_Verify = rf_Verify run, in_Ready = False,
      in_BootSeenAt = boot_seen_at (wo_Boot w) (rf_Markers run), in_Reminded = 0,
      in_Damaged = (rf_TooLarge run \<or> osUpgradeRunLineDiffers run \<or> \<not> rf_SumsHold run), in_Timing = wo_Timing w\<rparr>"

datatype refusal =
  OSUpgradeNoRun | OSUpgradeRunUnreadable | OSUpgradeNotTerminal | OSUpgradeUnitActive | OSUpgradeWordRequired | OSUpgradeBadWord |
  OSUpgradeCloseFailed | OSUpgradeStartFailed | OSUpgradeNotResumable

definition osUpgradeCurrentWith :: "surroundings \<Rightarrow> machine \<Rightarrow> unit_sight \<Rightarrow> refusal + run_folder \<times> run_state" where
  "osUpgradeCurrentWith w m unit =
     (case mc_Current m of
        CurrentNone \<Rightarrow> Inl OSUpgradeNoRun
      | CurrentBad \<Rightarrow> Inl OSUpgradeRunUnreadable
      | CurrentRun i \<Rightarrow>
          (case mc_Runs m i of
             None \<Rightarrow> Inl OSUpgradeRunUnreadable
           | Some run \<Rightarrow> Inr (run, Reduce (osUpgradeInputWith w run unit))))"

subsection \<open>Writing the log\<close>

definition put_run :: "machine \<Rightarrow> run_folder \<Rightarrow> machine" where
  "put_run m run = m\<lparr>mc_Runs := (mc_Runs m)(rf_ID run \<mapsto> run)\<rparr>"

definition appendOSUpgradeMarker :: "surroundings \<Rightarrow> run_folder \<Rightarrow> marker \<Rightarrow> run_folder option" where
  "appendOSUpgradeMarker w run mk =
     (case Line mk (rf_Nonce run) of
        Inl e \<Rightarrow> None
      | Inr line \<Rightarrow> if wo_LogWritable w then Some (run\<lparr>rf_Markers := rf_Markers run @ [carried mk]\<rparr>) else None)"

subsection \<open>Launching an attempt\<close>

datatype launch_error =
  launchUnitBusy | launchDamaged | launchNothing | launchNotAllowed | launchUnsupported | launchStartFailed | launchIO

definition live_state :: "state_name \<Rightarrow> bool" where
  "live_state n \<longleftrightarrow> n \<in> {StateRefreshing, StateRehearsing, StateRunning, StateRecovering, StateVerifying, StateUnwinding}"

definition osUpgradeBlockIDs :: "run_kind \<Rightarrow> block list" where
  "osUpgradeBlockIDs kind =
     (if kind = RunRefresh then [BlockRCheck, BlockRSources, BlockRUpgrade, BlockRDone] @ [BlockForward] else take 9 BlockIDs @ [BlockForward])"

definition appendAttemptThatFailed :: "surroundings \<Rightarrow> run_folder \<Rightarrow> marker \<Rightarrow> run_folder" where
  "appendAttemptThatFailed w run mk =
     (case appendOSUpgradeMarker w run mk of
        None \<Rightarrow> run
      | Some run1 \<Rightarrow>
          (case appendOSUpgradeMarker w run1 ((new_marker MkStartFailed (mk_N mk))\<lparr>mk_At := mk_At mk\<rparr>) of
             None \<Rightarrow> run1
           | Some run2 \<Rightarrow> run2))"

definition attempt_marker :: "surroundings \<Rightarrow> run_folder \<Rightarrow> phase \<Rightarrow> who \<Rightarrow> int \<Rightarrow> marker" where
  "attempt_marker w run phase who n =
     (new_marker MkAttempt n)\<lparr>mk_Phase := Some phase, mk_From := (if phase = PhaseRecover then FirstMissing (rf_Files run) else None),
       mk_Who := Some who, mk_At := wo_Now w\<rparr>"

definition launchPrepareLocked :: "surroundings \<Rightarrow> machine \<Rightarrow> string \<Rightarrow> phase \<Rightarrow> who \<Rightarrow> unit_sight \<Rightarrow> machine \<times> (launch_error + marker)" where
  "launchPrepareLocked w m runID phase who unit =
     (case mc_Runs m runID of
        None \<Rightarrow> (m, Inl launchIO)
      | Some run \<Rightarrow>
          if \<not> ValidNonce (rf_Nonce run) \<or> length (rf_Markers run) < 2 then (m, Inl launchIO)
          else if \<not> wo_Supported w then (m, Inl launchUnsupported)
          else if \<not> u_Answered unit \<or> u_Active unit then (m, Inl launchUnitBusy)
          else (let i = osUpgradeInputWith w run unit; state = Reduce i
                in if live_state (st_Name state) then (m, Inl launchUnitBusy)
                   else if st_Closed state \<or> st_Name state = StateManual \<or> st_Name state = StateManualDone then (m, Inl launchNotAllowed)
                   else (let n = NextAttempt i; attempt = attempt_marker w run phase who n;
                             check = i\<lparr>in_Markers := rf_Markers run @ [attempt]\<rparr>
                         in if n > 999 \<or> NextAttempt check \<noteq> n + 1 then (m, Inl launchNotAllowed)
                            else if \<not> rf_SumsHold run then (put_run m (appendAttemptThatFailed w run attempt), Inl launchDamaged)
                            else (let blocks = BlockList phase (rf_Files run)
                                  in if blocks = [] \<and> phase \<noteq> PhaseUnwind then (m, Inl launchNothing)
                                     else if \<not> list_all (\<lambda>b. b \<in> set (osUpgradeBlockIDs (rf_Kind run))) blocks then (m, Inl launchNotAllowed)
                                     else if \<not> wo_ListWritable w then (m, Inl launchIO)
                                     else (let run1 = run\<lparr>rf_Lists := (n, blocks) # rf_Lists run\<rparr>
                                           in if Validate \<lparr>at_RunID = rf_ID run, at_Nonce = rf_Nonce run, at_Phase = phase_word phase, at_N = n\<rparr> \<noteq> None
                                              then (put_run m run1, Inl launchNotAllowed)
                                              else (case appendOSUpgradeMarker w run1 attempt of
                                                      None \<Rightarrow> (put_run m run1, Inl launchIO)
                                                    | Some run2 \<Rightarrow>
                                                        ((put_run m run2)\<lparr>mc_Launching := mc_Launching m + 1\<rparr>, Inr attempt)))))))"

text \<open>What came of the call of systemd-run: it started the unit, or it did not and this is what systemd says of the unit.\<close>

datatype systemd_run = RunStarted | RunFailed bool bool

definition launchRun :: "surroundings \<Rightarrow> machine \<Rightarrow> string \<Rightarrow> marker \<Rightarrow> systemd_run \<Rightarrow> machine \<times> launch_error option" where
  "launchRun w m0 runID attempt answer =
     (let m = m0\<lparr>mc_Launching := mc_Launching m0 - 1\<rparr>
      in case answer of
           RunStarted \<Rightarrow> (m, None)
         | RunFailed exists answered \<Rightarrow>
             if exists \<or> \<not> answered then (m, None)
             else (case mc_Runs m runID of
                     None \<Rightarrow> (m, Some launchStartFailed)
                   | Some run \<Rightarrow>
                       (case appendOSUpgradeMarker w run ((new_marker MkStartFailed (mk_N attempt))\<lparr>mk_At := wo_Now w\<rparr>) of
                          None \<Rightarrow> (m, Some launchStartFailed)
                        | Some run1 \<Rightarrow> (put_run m run1, Some launchStartFailed))))"

definition osUpgradeLaunchRefusal :: "launch_error \<Rightarrow> refusal" where
  "osUpgradeLaunchRefusal e =
     (case e of
        launchUnitBusy \<Rightarrow> OSUpgradeUnitActive
      | launchNothing \<Rightarrow> OSUpgradeNotResumable
      | launchNotAllowed \<Rightarrow> OSUpgradeNotResumable
      | launchDamaged \<Rightarrow> OSUpgradeNotResumable
      | _ \<Rightarrow> OSUpgradeStartFailed)"

subsection \<open>Closing a run\<close>

definition osUpgradeHolds :: "run_state \<Rightarrow> bool" where
  "osUpgradeHolds state \<longleftrightarrow> st_Busy state \<or> st_Name state = StateIdle \<and> \<not> st_Closed state \<and> st_RunID state \<noteq> []"

definition osUpgradeMuteAfter :: duration where
  "osUpgradeMuteAfter = 10 * minute"

definition osUpgradeQuietUntil :: "machine \<Rightarrow> instant \<Rightarrow> machine" where
  "osUpgradeQuietUntil m t = (if t \<le> mc_MuteUntil m then m else m\<lparr>mc_MuteUntil := t\<rparr>)"

definition osUpgradeKeepQuiet :: "machine \<Rightarrow> run_state \<Rightarrow> machine" where
  "osUpgradeKeepQuiet m state =
     (if \<not> osUpgradeHolds state \<and> st_Since state \<noteq> zero_time then osUpgradeQuietUntil m (st_Since state + osUpgradeMuteAfter) else m)"

definition osUpgradeNoteRefresh :: "surroundings \<Rightarrow> machine \<Rightarrow> run_folder \<Rightarrow> machine" where
  "osUpgradeNoteRefresh w m run =
     (if rf_Kind run \<noteq> RunRefresh then m
      else (let ended = foldl (\<lambda>t mk. if mk_Kind mk = MkRefreshDone then mk_At mk else t) zero_time (rf_Markers run)
            in if ended = zero_time then m
               else if (case mc_LastRefresh m of Some at \<Rightarrow> \<not> at < ended | None \<Rightarrow> False) then m
               else if wo_NoteWritable w then m\<lparr>mc_LastRefresh := Some (whole_second ended)\<rparr> else m))"

definition osUpgradePutAwayBackup :: "surroundings \<Rightarrow> run_folder \<Rightarrow> run_folder option" where
  "osUpgradePutAwayBackup w run =
     (if \<not> rf_BackupOutside run \<or> \<not> DoneAfter (rf_Files run) then Some run
      else if wo_BackupMovable w then Some (run\<lparr>rf_BackupOutside := False\<rparr>) else None)"

definition osUpgradeCloseLog :: "surroundings \<Rightarrow> run_folder \<Rightarrow> mk_result \<Rightarrow> run_folder \<times> bool" where
  "osUpgradeCloseLog w run how =
     (case osUpgradePutAwayBackup w run of
        None \<Rightarrow> (run, False)
      | Some run1 \<Rightarrow>
          if rf_Nonce run1 \<noteq> []
          then (case appendOSUpgradeMarker w run1 ((new_marker MkAck 0)\<lparr>mk_Result := Some how, mk_At := wo_Now w\<rparr>) of
                  None \<Rightarrow> (run1, False)
                | Some run2 \<Rightarrow> (run2, True))
          else (run1, True))"

definition clearOSUpgradeCurrent :: "surroundings \<Rightarrow> machine \<Rightarrow> machine \<times> bool" where
  "clearOSUpgradeCurrent w m =
     (if mc_Current m = CurrentNone then (m, True)
      else if wo_PointerRemovable w then (m\<lparr>mc_Current := CurrentNone\<rparr>, True) else (m, False))"

definition clearOSUpgradeBusy :: "surroundings \<Rightarrow> machine \<Rightarrow> machine \<times> bool" where
  "clearOSUpgradeBusy w m =
     (if mc_Flag m = None then (m, True) else if wo_FlagRemovable w then (m\<lparr>mc_Flag := None\<rparr>, True) else (m, False))"

definition closeOSUpgradeRun :: "surroundings \<Rightarrow> machine \<Rightarrow> run_folder \<Rightarrow> mk_result \<Rightarrow> machine \<times> bool" where
  "closeOSUpgradeRun w m run how =
     (case osUpgradeCloseLog w run how of
        (run1, False) \<Rightarrow> (put_run m run1, False)
      | (run1, True) \<Rightarrow>
          (case clearOSUpgradeCurrent w (put_run m run1) of
             (m1, False) \<Rightarrow> (m1, False)
           | (m1, True) \<Rightarrow> clearOSUpgradeBusy w m1))"

subsection \<open>The owner's word\<close>

datatype ack_action = OSUpgradeAckAcknowledge | OSUpgradeAckDiscard | OSUpgradeAckManual

primrec ack_button :: "ack_action \<Rightarrow> button" where
  "ack_button OSUpgradeAckAcknowledge = ActionAcknowledge"
| "ack_button OSUpgradeAckDiscard = ActionDiscard"
| "ack_button OSUpgradeAckManual = ActionTakeover"

definition ack_result :: "ack_action \<Rightarrow> mk_result" where
  "ack_result a = (if a = OSUpgradeAckDiscard then ResDiscard else ResAcknowledge)"

definition osUpgradeCheckWord :: "bool \<Rightarrow> string \<Rightarrow> refusal option" where
  "osUpgradeCheckWord needed word =
     (if \<not> needed \<or> word = AckWord then None else if word = [] then Some OSUpgradeWordRequired else Some OSUpgradeBadWord)"

text \<open>\<open>errors.Join\<close> makes both removals whatever comes of the first.\<close>

definition osUpgradeLetGoOfUnreadable :: "surroundings \<Rightarrow> machine \<Rightarrow> string \<Rightarrow> unit_sight \<Rightarrow> machine \<times> refusal option" where
  "osUpgradeLetGoOfUnreadable w m word unit =
     (case osUpgradeCheckWord True word of
        Some r \<Rightarrow> (m, Some r)
      | None \<Rightarrow>
          if \<not> u_Answered unit \<or> u_Active unit then (m, Some OSUpgradeUnitActive)
          else (case clearOSUpgradeCurrent w m of
                  (m1, ok1) \<Rightarrow>
                    (case clearOSUpgradeBusy w m1 of
                       (m2, ok2) \<Rightarrow> (m2, if ok1 \<and> ok2 then None else Some OSUpgradeCloseFailed))))"

definition osUpgradeDropPlan :: "machine \<Rightarrow> machine" where
  "osUpgradeDropPlan m = m\<lparr>mc_PlanLive := False\<rparr>"

definition silent_word :: "run_state \<Rightarrow> ack_action \<Rightarrow> unit_sight \<Rightarrow> bool" where
  "silent_word state action unit \<longleftrightarrow>
     st_Name state = StateNeedsAttention \<and> st_Reason state = ReasonSystemdSilent \<and> \<not> u_Answered unit \<and> action = OSUpgradeAckAcknowledge"

text \<open>The part behind the questions: the run is taken over or closed.\<close>

definition ack_close :: "surroundings \<Rightarrow> machine \<Rightarrow> ack_action \<Rightarrow> string \<Rightarrow> run_folder \<Rightarrow> run_state \<Rightarrow> machine \<times> (refusal + marker option)" where
  "ack_close w m action word run state =
     (if action = OSUpgradeAckManual
      then (case appendOSUpgradeMarker w run ((new_marker MkTakeover 0)\<lparr>mk_At := wo_Now w\<rparr>) of
              None \<Rightarrow> (m, Inl OSUpgradeStartFailed)
            | Some run1 \<Rightarrow> (put_run m run1, Inr None))
      else (case osUpgradeCheckWord (NeedsAckWord state) word of
              Some r \<Rightarrow> (m, Inl r)
            | None \<Rightarrow>
                (let m1 = osUpgradeKeepQuiet (osUpgradeNoteRefresh w m run) state;
                     m2 = (if action = OSUpgradeAckDiscard then osUpgradeDropPlan m1 else m1)
                 in case closeOSUpgradeRun w m2 run (ack_result action) of
                      (m3, ok) \<Rightarrow> (m3, if ok then Inr None else Inl OSUpgradeCloseFailed))))"

definition osUpgradeAckLocked :: "surroundings \<Rightarrow> machine \<Rightarrow> ack_action \<Rightarrow> string \<Rightarrow> unit_sight \<Rightarrow> machine \<times> (refusal + marker option)" where
  "osUpgradeAckLocked w m action word unit =
     (case osUpgradeCurrentWith w m unit of
        Inl r \<Rightarrow>
          if r = OSUpgradeRunUnreadable \<and> action = OSUpgradeAckAcknowledge
          then (case osUpgradeLetGoOfUnreadable w m word unit of (m1, None) \<Rightarrow> (m1, Inr None) | (m1, Some r1) \<Rightarrow> (m1, Inl r1))
          else (m, Inl r)
      | Inr (run, state) \<Rightarrow>
          if ack_button action \<notin> set (ActionsFor state) then (m, Inl OSUpgradeNotTerminal)
          else if action = OSUpgradeAckDiscard \<and> st_Name state = StateRehearsed
          then (case launchPrepareLocked w m (rf_ID run) PhaseUnwind WhoOwner unit of
                  (m1, Inl e) \<Rightarrow> (m1, Inl (osUpgradeLaunchRefusal e))
                | (m1, Inr attempt) \<Rightarrow> (m1, Inr (Some attempt)))
          else if \<not> u_Answered unit \<or> u_Active unit
          then (if \<not> silent_word state action unit then (m, Inl OSUpgradeUnitActive)
                else (case osUpgradeCheckWord True word of Some r \<Rightarrow> (m, Inl r) | None \<Rightarrow> ack_close w m action word run state))
          else ack_close w m action word run state)"

subsection \<open>The flag\<close>

definition osUpgradeStateOf :: "run_folder \<Rightarrow> input \<Rightarrow> run_state" where
  "osUpgradeStateOf run i = (let state = Reduce i in if st_RunID state = [] then state\<lparr>st_RunID := rf_ID run\<rparr> else state)"

definition setOSUpgradeBusy :: "surroundings \<Rightarrow> machine \<Rightarrow> string \<Rightarrow> state_name \<Rightarrow> instant \<Rightarrow> machine" where
  "setOSUpgradeBusy w m runID name since =
     (if wo_FlagWritable w then m\<lparr>mc_Flag := Some \<lparr>bf_RunID = runID, bf_State = name, bf_Since = since\<rparr>\<rparr> else m)"

definition osUpgradeKeepFlagLocked :: "surroundings \<Rightarrow> machine \<Rightarrow> run_folder \<Rightarrow> run_state \<Rightarrow> unit_sight \<Rightarrow> machine" where
  "osUpgradeKeepFlagLocked w m run state unit =
     (if mc_Current m \<noteq> CurrentRun (rf_ID run) then m
      else if \<not> osUpgradeHolds state
      then (case mc_Runs m (rf_ID run) of
              None \<Rightarrow> m
            | Some fresh \<Rightarrow>
                if osUpgradeHolds (Reduce (osUpgradeInputWith w fresh unit)) then m
                else if mc_Flag m = None then m
                else (case clearOSUpgradeBusy w m of
                        (m1, False) \<Rightarrow> m1
                      | (m1, True) \<Rightarrow> osUpgradeQuietUntil m1 (wo_Now w + osUpgradeMuteAfter)))
      else (case mc_Flag m of
              Some flag \<Rightarrow>
                if bf_RunID flag = rf_ID run \<and> bf_State flag = st_Name state then m
                else setOSUpgradeBusy w m (rf_ID run) (st_Name state) (if bf_RunID flag = rf_ID run then bf_Since flag else rf_CreatedAt run)
            | None \<Rightarrow> setOSUpgradeBusy w m (rf_ID run) (st_Name state) (rf_CreatedAt run)))"

definition osUpgradeDropStrayFlag :: "surroundings \<Rightarrow> machine \<Rightarrow> machine" where
  "osUpgradeDropStrayFlag w m =
     (if mc_Flag m = None then m else if mc_Current m \<noteq> CurrentNone then m else fst (clearOSUpgradeBusy w m))"

definition no_run_id :: string where
  "no_run_id = ''00000000-0000-0000-0000-000000000000''"

definition osUpgradeHoldUnread :: "surroundings \<Rightarrow> machine \<Rightarrow> string \<Rightarrow> machine" where
  "osUpgradeHoldUnread w m runID =
     (if mc_Flag m \<noteq> None then m
      else setOSUpgradeBusy w m (if runID = [] then no_run_id else runID) StateNeedsAttention (wo_Now w))"

definition osUpgradeForget :: "surroundings \<Rightarrow> machine \<Rightarrow> run_folder \<Rightarrow> machine" where
  "osUpgradeForget w m run =
     (if mc_Current m \<noteq> CurrentRun (rf_ID run) then m
      else fst (clearOSUpgradeBusy w (fst (clearOSUpgradeCurrent w m))))"

text \<open>The first steps of a look: the flag as the run says.\<close>

definition dead_start :: "surroundings \<Rightarrow> run_folder \<Rightarrow> bool" where
  "dead_start w run \<longleftrightarrow>
     (case rf_Markers run of
        [q] \<Rightarrow> mk_Kind q = MkQueued \<and> time_sub (wo_Now w) (mk_At q) \<ge> StartLost (wo_Timing w)
      | _ \<Rightarrow> False)"

definition osUpgradeForgetDeadStart :: "surroundings \<Rightarrow> machine \<Rightarrow> run_folder \<Rightarrow> unit_sight \<Rightarrow> machine \<times> bool" where
  "osUpgradeForgetDeadStart w m run unit =
     (if \<not> dead_start w run \<or> \<not> u_Answered unit \<or> u_Active unit then (m, False)
      else (case clearOSUpgradeCurrent w m of
              (m1, False) \<Rightarrow> (m1, False)
            | (m1, True) \<Rightarrow> (fst (clearOSUpgradeBusy w m1), True)))"

definition settle_flag :: "surroundings \<Rightarrow> machine \<Rightarrow> unit_sight \<Rightarrow> machine" where
  "settle_flag w m unit =
     (case mc_Current m of
        CurrentNone \<Rightarrow> osUpgradeDropStrayFlag w m
      | CurrentBad \<Rightarrow> osUpgradeHoldUnread w m []
      | CurrentRun i \<Rightarrow>
          (case mc_Runs m i of
             None \<Rightarrow> osUpgradeHoldUnread w m i
           | Some run \<Rightarrow>
               (case osUpgradeForgetDeadStart w m run unit of
                  (m1, True) \<Rightarrow> m1
                | (m1, False) \<Rightarrow> osUpgradeKeepFlagLocked w m1 run (osUpgradeStateOf run (osUpgradeInputWith w run unit)) unit)))"

end
