(* ===== verification/GoText.thy ===== *)
theory GoText
  imports Prelude "HOL-Library.List_Lexorder"
begin

section \<open>Text as Go has it\<close>

text \<open>
  A string is a list of bytes; this is what Go's standard library makes of them: the decoding of UTF-8 (\<open>utf8.DecodeRune\<close>), the
  blanks and the control characters of \<open>unicode\<close>, \<open>strings.TrimSpace\<close>, \<open>strings.Fields\<close>, \<open>strconv.Atoi\<close>, and the patterns of \<open>path.Match\<close>. A byte
  that is no part of a character is the rune \<open>RuneError\<close>, one byte long.
\<close>

subsection \<open>Runes\<close>

definition RuneError :: int where
  "RuneError = 0xFFFD"

definition byte_in :: "char \<Rightarrow> int \<Rightarrow> int \<Rightarrow> bool" where
  "byte_in c lo hi \<longleftrightarrow> lo \<le> of_char c \<and> of_char c \<le> hi"

definition cont :: "char \<Rightarrow> int" where
  "cont c = of_char c - 0x80"

text \<open>The bounds of the second byte: what keeps overlong forms, surrogates and what is above the last rune out.\<close>

definition second_lo :: "int \<Rightarrow> int" where
  "second_lo b = (if b = 0xE0 then 0xA0 else if b = 0xF0 then 0x90 else 0x80)"

definition second_hi :: "int \<Rightarrow> int" where
  "second_hi b = (if b = 0xED then 0x9F else if b = 0xF4 then 0x8F else 0xBF)"

definition decode_rune :: "string \<Rightarrow> int \<times> nat" where
  "decode_rune s =
     (case s of
        [] \<Rightarrow> (RuneError, 0)
      | c # r \<Rightarrow>
          (let b = of_char c :: int
           in if b < 0x80 then (b, 1)
              else if b < 0xC2 \<or> 0xF4 < b then (RuneError, 1)
              else (case r of
                      [] \<Rightarrow> (RuneError, 1)
                    | c1 # r1 \<Rightarrow>
                        if \<not> byte_in c1 (second_lo b) (second_hi b) then (RuneError, 1)
                        else if b < 0xE0 then ((b - 0xC0) * 64 + cont c1, 2)
                        else (case r1 of
                                [] \<Rightarrow> (RuneError, 1)
                              | c2 # r2 \<Rightarrow>
                                  if \<not> byte_in c2 0x80 0xBF then (RuneError, 1)
                                  else if b < 0xF0 then ((b - 0xE0) * 4096 + cont c1 * 64 + cont c2, 3)
                                  else (case r2 of
                                          [] \<Rightarrow> (RuneError, 1)
                                        | c3 # r3 \<Rightarrow>
                                            if \<not> byte_in c3 0x80 0xBF then (RuneError, 1)
                                            else ((b - 0xF0) * 262144 + cont c1 * 4096 + cont c2 * 64 + cont c3, 4))))))"

lemma decode_width: "s \<noteq> [] \<Longrightarrow> 0 < snd (decode_rune s) \<and> snd (decode_rune s) \<le> length s"
  by (auto simp: decode_rune_def Let_def split: list.split)

lemma decode_width_pos: "0 < snd (decode_rune (c # s))" and decode_width_le: "snd (decode_rune (c # s)) \<le> Suc (length s)"
  using decode_width [of "c # s"] by simp_all

text \<open>The text as a list of runes, each with the bytes that it is.\<close>

function runes :: "string \<Rightarrow> (int \<times> string) list" where
  "runes [] = []"
| "runes (c # s) =
     (fst (decode_rune (c # s)), take (snd (decode_rune (c # s))) (c # s)) # runes (drop (snd (decode_rune (c # s))) (c # s))"
  by pat_completeness auto
termination
  by (relation "measure length") (use decode_width_pos in \<open>auto simp: diff_less\<close>)

lemma runes_text [simp]: "concat (map snd (runes s)) = s"
  by (induction s rule: runes.induct) simp_all

lemma runes_Nil [simp]: "runes s = [] \<longleftrightarrow> s = []"
  by (cases s) simp_all

lemma runes_nonempty: "(r, t) \<in> set (runes s) \<Longrightarrow> t \<noteq> []"
proof (induction s rule: runes.induct)
  case (2 c s)
  then show ?case using decode_width_pos [of c s] by auto
qed simp

definition valid_text :: "string \<Rightarrow> bool" where
  "valid_text s \<longleftrightarrow> list_all (\<lambda>(r, t). r \<noteq> RuneError \<or> length t \<noteq> 1) (runes s)"

lemma valid_Nil [simp]: "valid_text []"
  by (simp add: valid_text_def)

definition IsSpace :: "int \<Rightarrow> bool" where
  "IsSpace r \<longleftrightarrow>
     0x09 \<le> r \<and> r \<le> 0x0D \<or> r \<in> {0x20, 0x85, 0xA0, 0x1680, 0x2028, 0x2029, 0x202F, 0x205F, 0x3000} \<or> 0x2000 \<le> r \<and> r \<le> 0x200A"

definition IsControl :: "int \<Rightarrow> bool" where
  "IsControl r \<longleftrightarrow> r < 0x20 \<or> 0x7F \<le> r \<and> r < 0xA0"

definition TrimSpace :: "string \<Rightarrow> string" where
  "TrimSpace s = concat (map snd (rev (dropWhile (IsSpace \<circ> fst) (rev (dropWhile (IsSpace \<circ> fst) (runes s))))))"

fun field_runs :: "string \<Rightarrow> (int \<times> string) list \<Rightarrow> string list" where
  "field_runs w [] = (if w = [] then [] else [w])"
| "field_runs w (p # ps) =
     (if IsSpace (fst p) then (if w = [] then [] else [w]) @ field_runs [] ps else field_runs (w @ snd p) ps)"

definition Fields :: "string \<Rightarrow> string list" where
  "Fields s = field_runs [] (runes s)"

lemma field_runs_nonempty: "(\<forall>(r, t) \<in> set ps. t \<noteq> []) \<Longrightarrow> f \<in> set (field_runs w ps) \<Longrightarrow> f \<noteq> []"
  by (induction w ps rule: field_runs.induct) (auto split: if_splits)

lemma Fields_nonempty: "f \<in> set (Fields s) \<Longrightarrow> f \<noteq> []"
  using field_runs_nonempty [of "runes s" f "[]"] runes_nonempty [of _ _ s] by (auto simp: Fields_def)

subsection \<open>Numbers\<close>

text \<open>\<open>strconv.Atoi\<close>, for a caller that wants a number far below the bounds of an integer: a sign, and digits.\<close>

definition Atoi :: "string \<Rightarrow> int option" where
  "Atoi s =
     (let (neg, ds) = (case s of c # r \<Rightarrow> if c = CHR ''-'' then (True, r) else if c = CHR ''+'' then (False, r) else (False, s) | [] \<Rightarrow> (False, []))
      in if ds = [] \<or> \<not> list_all is_digit ds then None
         else (let n = foldl (\<lambda>n c. n * 10 + (of_char c - 48)) (0 :: int) ds in Some (if neg then - n else n)))"

subsection \<open>Patterns of a path\<close>

definition getEsc :: "string \<Rightarrow> (int \<times> string) option" where
  "getEsc chunk =
     (case chunk of
        [] \<Rightarrow> None
      | c # r \<Rightarrow>
          if c = CHR ''-'' \<or> c = CHR '']'' then None
          else (let t = (if c = CHR 0x5C then r else chunk)
                in if t = [] then None
                   else (let n = snd (decode_rune t)
                         in if fst (decode_rune t) = RuneError \<and> n = 1 \<or> drop n t = [] then None
                            else Some (fst (decode_rune t), drop n t))))"

lemma getEsc_shorter: "getEsc chunk = Some (r, t) \<Longrightarrow> length t < length chunk"
proof -
  assume g: "getEsc chunk = Some (r, t)"
  then obtain c cs where c: "chunk = c # cs" by (cases chunk) (auto simp: getEsc_def)
  define u where "u = (if c = CHR 0x5C then cs else chunk)"
  have u: "u \<noteq> []" "t = drop (snd (decode_rune u)) u" using g c by (auto simp: getEsc_def u_def Let_def split: if_splits)
  have "length u \<le> length chunk" using c by (simp add: u_def)
  moreover have "0 < length u" "0 < snd (decode_rune u)" using u(1) decode_width [OF u(1)] by simp_all
  moreover have "length t = length u - snd (decode_rune u)" using u(2) by simp
  ultimately show "length t < length chunk" by linarith
qed

text \<open>The ranges of a class up to its end: whether one of them has the rune, and what is behind the class.\<close>

function class_match :: "int \<Rightarrow> nat \<Rightarrow> bool \<Rightarrow> string \<Rightarrow> (bool \<times> string) option" where
  "class_match r k m chunk =
     (if chunk \<noteq> [] \<and> hd chunk = CHR '']'' \<and> 0 < k then Some (m, tl chunk)
      else (case getEsc chunk of
              None \<Rightarrow> None
            | Some (lo, t) \<Rightarrow>
                if hd t = CHR ''-''
                then (case getEsc (tl t) of
                        None \<Rightarrow> None
                      | Some (hi, u) \<Rightarrow> class_match r (k + 1) (m \<or> lo \<le> r \<and> r \<le> hi) u)
                else class_match r (k + 1) (m \<or> r = lo) t))"
  by pat_completeness auto
termination
  by (relation "measure (\<lambda>(r, k, m, chunk). length chunk)") (auto dest!: getEsc_shorter)

declare class_match.simps [simp del]

lemma class_match_shorter: "class_match r k m chunk = Some (b, t) \<Longrightarrow> length t \<le> length chunk"
proof (induction r k m chunk rule: class_match.induct)
  case (1 r k m chunk)
  show ?case
  proof (cases "chunk \<noteq> [] \<and> hd chunk = CHR '']'' \<and> 0 < k")
    case True
    then show ?thesis using 1(3) by (auto simp: class_match.simps [of r k m chunk])
  next
    case False
    note neg = this
    obtain lo u where g: "getEsc chunk = Some (lo, u)" using 1(3) False by (auto simp: class_match.simps [of r k m chunk] split: option.splits)
    show ?thesis
    proof (cases "hd u = CHR ''-''")
      case True
      then obtain hi v where h: "getEsc (tl u) = Some (hi, v)"
        using 1(3) neg g by (auto simp: class_match.simps [of r k m chunk] split: option.splits)
      then have "length t \<le> length v" using 1 neg g True by (simp add: class_match.simps [of r k m chunk])
      then show ?thesis using getEsc_shorter [OF h] getEsc_shorter [OF g] by simp
    next
      case False
      then have "length t \<le> length u" using 1 neg g by (simp add: class_match.simps [of r k m chunk])
      then show ?thesis using getEsc_shorter [OF g] by simp
    qed
  qed
qed

text \<open>\<open>matchChunk\<close>: \<open>None\<close> for a bad pattern, and for a good one what is left of the text when it matches.\<close>

definition class_begin :: "string \<Rightarrow> bool \<times> string" where
  "class_begin ch = (case ch of d # r \<Rightarrow> if d = CHR ''^'' then (True, r) else (False, ch) | [] \<Rightarrow> (False, []))"

function match_chunk :: "bool \<Rightarrow> string \<Rightarrow> string \<Rightarrow> string option option" where
  "match_chunk failed [] s = Some (if failed then None else Some s)"
| "match_chunk failed (c # ch) s =
     (let f = failed \<or> s = []
      in if c = CHR ''[''
         then (case class_match (if f then 0 else fst (decode_rune s)) 0 False (snd (class_begin ch)) of
                 None \<Rightarrow> None
               | Some (m, ch2) \<Rightarrow> match_chunk (f \<or> m = fst (class_begin ch)) ch2 (if f then s else drop (snd (decode_rune s)) s))
         else if c = CHR ''?'' then (if f then match_chunk True ch s else match_chunk (hd s = CHR ''/'') ch (drop (snd (decode_rune s)) s))
         else if c = CHR 0x5C
         then (case ch of [] \<Rightarrow> None | d # ch2 \<Rightarrow> if f then match_chunk True ch2 s else match_chunk (d \<noteq> hd s) ch2 (tl s))
         else if f then match_chunk True ch s else match_chunk (c \<noteq> hd s) ch (tl s))"
  by pat_completeness auto
termination
proof (relation "measure (\<lambda>(failed, ch, s). length ch)", goal_cases)
  case (2 failed c ch s f p m ch2)
  then have "length ch2 \<le> length (snd (class_begin ch))" by (metis class_match_shorter)
  also have "\<dots> \<le> length ch" by (simp add: class_begin_def split: list.split)
  finally show ?case by simp
qed simp_all

fun scan_end :: "bool \<Rightarrow> string \<Rightarrow> string \<times> string" where
  "scan_end inrange [] = ([], [])"
| "scan_end inrange (c # p) =
     (if c = CHR 0x5C
      then (case p of
              [] \<Rightarrow> ([c], [])
            | d # q \<Rightarrow> (c # d # fst (scan_end inrange q), snd (scan_end inrange q)))
      else if c = CHR ''*'' \<and> \<not> inrange then ([], c # p)
      else (let i = (if c = CHR ''['' then True else if c = CHR '']'' then False else inrange)
            in (c # fst (scan_end i p), snd (scan_end i p))))"

definition scanChunk :: "string \<Rightarrow> bool \<times> string \<times> string" where
  "scanChunk pattern =
     (let p = dropWhile (\<lambda>c. c = CHR ''*'') pattern in (p \<noteq> pattern, scan_end False p))"

lemma scan_end_length: "length (fst (scan_end i p)) + length (snd (scan_end i p)) = length p"
  by (induction i p rule: scan_end.induct) (auto simp: Let_def split: list.split)

lemma scan_end_first: "p \<noteq> [] \<Longrightarrow> hd p \<noteq> CHR ''*'' \<Longrightarrow> fst (scan_end i p) \<noteq> []"
  by (cases p) (auto simp: Let_def split: list.split)

lemma scanChunk_shorter: "pattern \<noteq> [] \<Longrightarrow> length (snd (snd (scanChunk pattern))) < length pattern"
proof -
  assume ne: "pattern \<noteq> []"
  let ?p = "dropWhile (\<lambda>c. c = CHR ''*'') pattern"
  have l: "length (fst (scan_end False ?p)) + length (snd (scan_end False ?p)) = length ?p" by (rule scan_end_length)
  show ?thesis
  proof (cases "?p = pattern")
    case True
    have "hd ?p \<noteq> CHR ''*''" by (rule hd_dropWhile) (simp add: True ne)
    then have "0 < length (fst (scan_end False ?p))" using scan_end_first [of ?p False] ne True by simp
    then have "length (snd (scan_end False ?p)) < length pattern" using l arg_cong [OF True, of length] by linarith
    then show ?thesis by (simp add: scanChunk_def Let_def)
  next
    case False
    then obtain c r where "pattern = c # r" "c = CHR ''*''" using ne by (cases pattern) (auto split: if_splits)
    then have "length ?p < length pattern" using length_dropWhile_le [of "\<lambda>c. c = CHR ''*''" r] by simp
    then show ?thesis using l by (simp add: scanChunk_def Let_def)
  qed
qed

text \<open>The places that a star can end at, up to the next slash.\<close>

fun star_from :: "string \<Rightarrow> bool \<Rightarrow> string \<Rightarrow> string option" where
  "star_from chunk at_end [] = None"
| "star_from chunk at_end (c # name) =
     (if c = CHR ''/'' then None
      else (case match_chunk False chunk name of
              None \<Rightarrow> None
            | Some None \<Rightarrow> star_from chunk at_end name
            | Some (Some t) \<Rightarrow> if at_end \<and> t \<noteq> [] then star_from chunk at_end name else Some t))"

function path_match :: "string \<Rightarrow> string \<Rightarrow> bool" where
  "path_match [] name \<longleftrightarrow> name = []"
| "path_match (p # ps) name \<longleftrightarrow>
     (let star = fst (scanChunk (p # ps)); chunk = fst (snd (scanChunk (p # ps))); rest = snd (snd (scanChunk (p # ps)))
      in if star \<and> chunk = [] then CHR ''/'' \<notin> set name
         else (case match_chunk False chunk name of
                 None \<Rightarrow> False
               | Some first \<Rightarrow>
                   (case (case first of Some t \<Rightarrow> if t = [] \<or> rest \<noteq> [] then Some t else None | None \<Rightarrow> None) of
                      Some t \<Rightarrow> path_match rest t
                    | None \<Rightarrow>
                        if \<not> star then False
                        else (case star_from chunk (rest = []) name of None \<Rightarrow> False | Some t \<Rightarrow> path_match rest t))))"
  by pat_completeness auto
termination
  by (relation "measure (\<lambda>(p, n). length p)") (simp_all only: in_measure prod.case wf_measure scanChunk_shorter list.distinct not_False_eq_True)

end
