(* ===== verification/Osverify.thy ===== *)
theory Osverify
  imports GoText OsrunReduce
begin

section \<open>The check after an upgrade: the judge\<close>

text \<open>
  Models \<open>pkg/osverify/judge.go\<close>: the comparison of the machine after an upgrade with the machine before it and with what the blocks of the hop wrote down of it
  in the backup folder. The facts are values (how they are taken, \<open>Take\<close> of \<open>facts.go\<close>, is not modelled); the files of the backup folder are
  texts that a probe gives (\<open>bk.go\<close>), read here as the judge reads them. A map of Go is an association list: a later entry is put in the place of an earlier one, and its keys are looked at in their order.
\<close>

subsection \<open>Findings\<close>

datatype severity = SeverityError | SeverityWarn | SeverityInfo

datatype code =
  CodeKernelUnexpected | CodeCasaosUnitDown | CodeDockerDown | CodeMountsMissing | CodeDpkgNotQuiet | CodeSystemNotReady |
  CodeUnitsFailedNew | CodePortsMissing | CodeSambaUsersChanged | CodeRouteMissing | CodeDNSMissing | CodeDockerVersionChanged |
  CodeDockerSourceUnreachable | CodeContainerNotReturned | CodeFactsIncomplete |
  CodeDockerSourceNotPublished | CodeDockerSourcePaused | CodeDpkgDistNew | CodeSourcesLeftPaused | CodeChangedSinceSnapshot | CodePrerebootWarning

definition Codes :: "code list" where
  "Codes =
     [CodeKernelUnexpected, CodeCasaosUnitDown, CodeDockerDown, CodeMountsMissing, CodeDpkgNotQuiet, CodeSystemNotReady,
      CodeUnitsFailedNew, CodePortsMissing, CodeSambaUsersChanged, CodeRouteMissing, CodeDNSMissing, CodeDockerVersionChanged,
      CodeDockerSourceUnreachable, CodeContainerNotReturned, CodeFactsIncomplete,
      CodeDockerSourceNotPublished, CodeDockerSourcePaused, CodeDpkgDistNew, CodeSourcesLeftPaused, CodeChangedSinceSnapshot, CodePrerebootWarning]"

primrec severities :: "code \<Rightarrow> severity" where
  "severities CodeKernelUnexpected = SeverityError"
| "severities CodeCasaosUnitDown = SeverityError"
| "severities CodeDockerDown = SeverityError"
| "severities CodeMountsMissing = SeverityError"
| "severities CodeDpkgNotQuiet = SeverityError"
| "severities CodeSystemNotReady = SeverityError"
| "severities CodeUnitsFailedNew = SeverityWarn"
| "severities CodePortsMissing = SeverityWarn"
| "severities CodeSambaUsersChanged = SeverityWarn"
| "severities CodeRouteMissing = SeverityWarn"
| "severities CodeDNSMissing = SeverityWarn"
| "severities CodeDockerVersionChanged = SeverityWarn"
| "severities CodeDockerSourceUnreachable = SeverityWarn"
| "severities CodeContainerNotReturned = SeverityWarn"
| "severities CodeFactsIncomplete = SeverityWarn"
| "severities CodeDockerSourceNotPublished = SeverityInfo"
| "severities CodeDockerSourcePaused = SeverityInfo"
| "severities CodeDpkgDistNew = SeverityInfo"
| "severities CodeSourcesLeftPaused = SeverityInfo"
| "severities CodeChangedSinceSnapshot = SeverityInfo"
| "severities CodePrerebootWarning = SeverityInfo"

record finding =
  fi_Code :: code
  fi_Severity :: severity
  fi_Arg :: string
  fi_Apps :: "string list"
  fi_Policy :: string

definition Summarize :: "finding list \<Rightarrow> verify_result" where
  "Summarize fs =
     foldl (\<lambda>r f. case fi_Severity f of
                     SeverityError \<Rightarrow> r\<lparr>vr_Errors := vr_Errors r + 1\<rparr>
                   | SeverityWarn \<Rightarrow> r\<lparr>vr_Warnings := vr_Warnings r + 1\<rparr>
                   | SeverityInfo \<Rightarrow> r)
       \<lparr>vr_Errors = 0, vr_Warnings = 0\<rparr> fs"

subsection \<open>Facts\<close>

datatype fact =
  FactKernel | FactSystem | FactDpkg | FactSamba | FactMounts | FactRoute | FactDNS | FactUnits | FactDocker | FactContainers | FactSources |
  FactListening | FactFailed

primrec fact_word :: "fact \<Rightarrow> string" where
  "fact_word FactKernel = ''kernel''"
| "fact_word FactSystem = ''system''"
| "fact_word FactDpkg = ''dpkg''"
| "fact_word FactSamba = ''samba''"
| "fact_word FactMounts = ''mounts''"
| "fact_word FactRoute = ''route''"
| "fact_word FactDNS = ''dns''"
| "fact_word FactUnits = ''units''"
| "fact_word FactDocker = ''docker''"
| "fact_word FactContainers = ''containers''"
| "fact_word FactSources = ''sources''"
| "fact_word FactListening = ''listening''"
| "fact_word FactFailed = ''failed_units''"

datatype docker_state = DockerUp | DockerDown | DockerStopped | DockerAbsent | DockerUnsaid

primrec docker_word :: "docker_state \<Rightarrow> string" where
  "docker_word DockerUp = ''up''"
| "docker_word DockerDown = ''down''"
| "docker_word DockerStopped = ''stopped''"
| "docker_word DockerAbsent = ''absent''"
| "docker_word DockerUnsaid = []"

record container =
  ct_Name :: string
  ct_Policy :: string
  ct_Binds :: "string list"

record docker_facts =
  dk_State :: docker_state
  dk_Version :: string
  dk_EngineID :: string
  dk_Containers :: "container list"

record facts =
  fa_Taken :: bool
  fa_Unknown :: "string list"
  fa_Kernel :: string
  fa_System :: string
  fa_DpkgQuiet :: bool
  fa_SambaUsers :: int
  fa_Mergerfs :: "string list"
  fa_Pools :: "(string \<times> string list) list"
  fa_Mounts :: "string list"
  fa_Route :: string
  fa_DNS :: bool
  fa_Units :: "(string \<times> string) list"
  fa_Paused :: "string list"
  fa_Docker :: docker_facts
  fa_Listening :: "string list"
  fa_Failed :: "string list"

definition Knows :: "facts \<Rightarrow> fact \<Rightarrow> bool" where
  "Knows f x \<longleftrightarrow> fa_Taken f \<and> fact_word x \<notin> set (fa_Unknown f)"

definition lookup_or :: "'v \<Rightarrow> (string \<times> 'v) list \<Rightarrow> string \<Rightarrow> 'v" where
  "lookup_or d m k = (case map_of m k of None \<Rightarrow> d | Some v \<Rightarrow> v)"

definition put :: "string \<Rightarrow> 'v \<Rightarrow> (string \<times> 'v) list \<Rightarrow> (string \<times> 'v) list" where
  "put k v m = (k, v) # filter (\<lambda>p. fst p \<noteq> k) m"

definition sortedKeys :: "(string \<times> 'v) list \<Rightarrow> string list" where
  "sortedKeys m = sort (remdups (map fst m))"

subsection \<open>The files of the backup folder\<close>

datatype bk_name =
  BKKernel | BKListening | BKListeningAfter | BKFailedUnits | BKFailedUnitsAfter | BKCasaosUnits | BKContainers | BKDpkgFiles | BKDpkgFilesAfter |
  BKDockerSourceNote | BKWarnings

type_synonym bk_files = "bk_name \<Rightarrow> string option"

primrec bk_word :: "bk_name \<Rightarrow> string" where
  "bk_word BKKernel = ''kernel''"
| "bk_word BKListening = ''listening.txt''"
| "bk_word BKListeningAfter = ''listening-after.txt''"
| "bk_word BKFailedUnits = ''failed-units.txt''"
| "bk_word BKFailedUnitsAfter = ''failed-units-after.txt''"
| "bk_word BKCasaosUnits = ''casaos-units.txt''"
| "bk_word BKContainers = ''containers.txt''"
| "bk_word BKDpkgFiles = ''dpkg-files.txt''"
| "bk_word BKDpkgFilesAfter = ''dpkg-files-after.txt''"
| "bk_word BKDockerSourceNote = ''docker-source-note''"
| "bk_word BKWarnings = ''warnings''"

definition BKNames :: "bk_name list" where
  "BKNames =
     [BKKernel, BKListening, BKListeningAfter, BKFailedUnits, BKFailedUnitsAfter, BKCasaosUnits, BKContainers, BKDpkgFiles, BKDpkgFilesAfter,
      BKDockerSourceNote, BKWarnings]"

definition between :: "char \<Rightarrow> char \<Rightarrow> char \<Rightarrow> bool" where
  "between first final c \<longleftrightarrow> first \<le> c \<and> c \<le> final"

definition alnum :: "char \<Rightarrow> bool" where
  "alnum c \<longleftrightarrow> is_digit c \<or> between (CHR ''a'') (CHR ''z'') c \<or> between (CHR ''A'') (CHR ''Z'') c"

definition bkPattern :: "string \<Rightarrow> bool" where
  "bkPattern dir =
     (case cut_prefix ''/var/backups/casaos-os-upgrade-'' dir of
        None \<Rightarrow> False
      | Some r \<Rightarrow> r \<noteq> [] \<and> length r \<le> 120 \<and> list_all (\<lambda>c. alnum c \<or> c \<in> set ''._-'') r)"

fun two_dots :: "string \<Rightarrow> bool" where
  "two_dots (a # b # s) \<longleftrightarrow> a = CHR ''.'' \<and> b = CHR ''.'' \<or> two_dots (b # s)"
| "two_dots s \<longleftrightarrow> False"

text \<open>What the probe answers for a file: its text, that there is none, or another error.\<close>

datatype read_answer = ReadText string | ReadNotExist | ReadFailed

definition bk_answer :: "(string \<Rightarrow> read_answer) \<Rightarrow> string \<Rightarrow> bk_name \<Rightarrow> read_answer" where
  "bk_answer read dir name = (if \<not> bkPattern dir \<or> two_dots dir then ReadNotExist else read (dir @ ''/'' @ bk_word name))"

definition ReadBKUnreadable :: "(string \<Rightarrow> read_answer) \<Rightarrow> string \<Rightarrow> bk_files \<times> string list" where
  "ReadBKUnreadable read dir =
     ((\<lambda>name. case bk_answer read dir name of ReadText t \<Rightarrow> Some t | _ \<Rightarrow> None),
      map bk_word (filter (\<lambda>name. bk_answer read dir name = ReadFailed) BKNames))"

definition maxLines :: nat where
  "maxLines = 5000"

definition bkLines :: "bk_files \<Rightarrow> bk_name \<Rightarrow> string list option" where
  "bkLines bk name = map_option (\<lambda>t. take maxLines (filter (\<lambda>l. l \<noteq> []) (map TrimSpace (split_on (CHR 0x0A) t)))) (bk name)"

definition bk_list :: "bk_files \<Rightarrow> bk_name \<Rightarrow> string list" where
  "bk_list bk name = (case bkLines bk name of None \<Rightarrow> [] | Some ls \<Rightarrow> ls)"

text \<open>A name: a letter or a digit, and at most so many characters more of a class.\<close>

definition name_of :: "nat \<Rightarrow> string \<Rightarrow> string \<Rightarrow> bool" where
  "name_of k extra s =
     (case s of [] \<Rightarrow> False | c # r \<Rightarrow> alnum c \<and> length r \<le> k \<and> list_all (\<lambda>d. alnum d \<or> d \<in> set extra) r)"

definition kernelPattern :: "string \<Rightarrow> bool" where
  "kernelPattern s = name_of 63 ''._+~:-'' s"

definition unitNamePattern :: "string \<Rightarrow> bool" where
  "unitNamePattern s = name_of 127 (CHR 0x5C # ''@._:-'') s"

definition lower_class :: "string \<Rightarrow> string \<Rightarrow> bool" where
  "lower_class extra s = list_all (\<lambda>c. CHR ''a'' \<le> c \<and> c \<le> CHR ''z'' \<or> c \<in> set extra) s"

text \<open>\<open>containerLine\<close>: the name, the policy and the state. No class of it has a blank, so that the parts are those between the blanks.\<close>

definition container_line :: "string \<Rightarrow> (string \<times> string \<times> string) option" where
  "container_line s =
     (case split_on (CHR '' '') s of
        [n, p, q] \<Rightarrow>
          (let name = (case n of c # r \<Rightarrow> if c = CHR ''/'' then r else n | [] \<Rightarrow> n)
           in case (cut_prefix ''policy='' p, cut_prefix ''state='' q) of
                (Some policy, Some state) \<Rightarrow>
                  if name_of 127 ''_.-'' name \<and> length policy \<le> 32 \<and> lower_class ''-'' policy \<and> state \<noteq> [] \<and> length state \<le> 20 \<and> lower_class [] state
                  then Some (name, policy, state) else None
              | _ \<Rightarrow> None)
      | _ \<Rightarrow> None)"

definition warningWord :: "string \<Rightarrow> bool" where
  "warningWord s =
     (case s of [] \<Rightarrow> False | c # r \<Rightarrow> CHR ''a'' \<le> c \<and> c \<le> CHR ''z'' \<and> length r \<le> 39 \<and> lower_class ''_'' r)"

subsection \<open>What may be shown\<close>

definition shown_rune :: "int \<Rightarrow> bool" where
  "shown_rune r \<longleftrightarrow> \<not> (IsControl r \<or> r = 0x2028 \<or> r = 0x2029 \<or> r = RuneError)"

function until_valid :: "string \<Rightarrow> string" where
  "until_valid s = (if valid_text s then s else until_valid (butlast s))"
  by pat_completeness auto
termination
proof (relation "measure length", goal_cases)
  case (2 s)
  then have "s \<noteq> []" by auto
  then show ?case by simp
qed simp

declare until_valid.simps [simp del]

definition clean :: "string \<Rightarrow> string" where
  "clean s =
     (let t = concat (map snd (filter (\<lambda>p. shown_rune (fst p)) (runes s)))
      in if length t > 200 then until_valid (take 200 t) else t)"

subsection \<open>The judge\<close>

record judge =
  jd_before :: facts
  jd_after :: facts
  jd_restart :: facts
  jd_changed :: "string list"
  jd_bk :: bk_files
  jd_out :: "finding list"

definition maxPerCode :: nat where
  "maxPerCode = 100"

text \<open>The count of a code is the number of its findings that are listed.\<close>

definition judge_add :: "code \<Rightarrow> string \<Rightarrow> string list \<Rightarrow> string \<Rightarrow> judge \<Rightarrow> judge" where
  "judge_add code arg apps policy j =
     (if maxPerCode \<le> length (filter (\<lambda>f. fi_Code f = code) (jd_out j)) then j
      else j\<lparr>jd_out := jd_out j @ [\<lparr>fi_Code = code, fi_Severity = severities code, fi_Arg = clean arg, fi_Apps = apps, fi_Policy = policy\<rparr>]\<rparr>)"

abbreviation add_finding :: "code \<Rightarrow> string \<Rightarrow> judge \<Rightarrow> judge" where
  "add_finding c a \<equiv> judge_add c a [] []"

definition judge_kernel :: "judge \<Rightarrow> judge" where
  "judge_kernel j =
     (case bk_list (jd_bk j) BKKernel of
        [] \<Rightarrow> j
      | want # _ \<Rightarrow>
          if \<not> kernelPattern want \<or> \<not> Knows (jd_after j) FactKernel then j
          else if fa_Kernel (jd_after j) \<noteq> want then add_finding CodeKernelUnexpected (want @ ''>'' @ fa_Kernel (jd_after j)) j
          else j)"

definition casaosUnitStates :: "bk_files \<Rightarrow> (string \<times> string) list" where
  "casaosUnitStates bk =
     foldl (\<lambda>m line. case Fields line of [u, s] \<Rightarrow> if unitNamePattern u then put u s m else m | _ \<Rightarrow> m) [] (bk_list bk BKCasaosUnits)"

definition transientUnits :: "string list" where
  "transientUnits = [''casaos-os-upgrade.service'', ''casaos-update.service'', ''casaos-package-update.service'', ''casaos-docker-update.service'']"

definition unitUnknown :: string where
  "unitUnknown = ''unknown''"

definition upStates :: "string list" where
  "upStates = [''active'', ''reloading'']"

definition judge_unit :: "(string \<times> string) list \<Rightarrow> string \<Rightarrow> judge \<Rightarrow> judge" where
  "judge_unit before unit j =
     (if lookup_or [] before unit \<noteq> ''active'' \<or> unit \<in> set transientUnits then j
      else (let state = lookup_or [] (fa_Units (jd_after j)) unit
            in if state = unitUnknown \<or> state \<in> set upStates then j
               else if Knows (jd_restart j) FactUnits \<and> lookup_or [] (fa_Units (jd_restart j)) unit = ''inactive''
               then j\<lparr>jd_changed := jd_changed j @ [''unit:'' @ unit]\<rparr>
               else add_finding CodeCasaosUnitDown unit j))"

definition judge_casaosUnits :: "judge \<Rightarrow> judge" where
  "judge_casaosUnits j =
     (if \<not> Knows (jd_after j) FactUnits then j
      else (let before = casaosUnitStates (jd_bk j) in fold (judge_unit before) (sortedKeys before) j))"

definition bkRunning :: "bk_files \<Rightarrow> (string \<times> string) list" where
  "bkRunning bk =
     foldl (\<lambda>m line. case container_line line of Some (n, p, s) \<Rightarrow> if s = ''running'' then put n p m else m | None \<Rightarrow> m) [] (bk_list bk BKContainers)"

definition judge_dockerDown :: "judge \<Rightarrow> judge" where
  "judge_dockerDown j =
     (if \<not> Knows (jd_after j) FactDocker \<or> dk_State (fa_Docker (jd_after j)) = DockerUp then j
      else if (if Knows (jd_before j) FactDocker then dk_State (fa_Docker (jd_before j)) = DockerUp else bkRunning (jd_bk j) \<noteq> [])
      then add_finding CodeDockerDown (docker_word (dk_State (fa_Docker (jd_after j)))) j
      else j)"

subsection \<open>Mounts\<close>

definition within :: "string \<Rightarrow> string \<Rightarrow> bool" where
  "within path dir \<longleftrightarrow>
     path = dir \<or> cut_prefix ((if dir \<noteq> [] \<and> last dir = CHR ''/'' then butlast dir else dir) @ ''/'') path \<noteq> None"

definition known_containers :: "judge \<Rightarrow> container list" where
  "known_containers j = (if Knows (jd_before j) FactContainers then dk_Containers (fa_Docker (jd_before j)) else [])"

definition appsUnder :: "judge \<Rightarrow> string \<Rightarrow> string list" where
  "appsUnder j mp = map ct_Name (filter (\<lambda>c. list_ex (\<lambda>b. within b mp) (ct_Binds c)) (known_containers j))"

definition appsOn :: "judge \<Rightarrow> string \<Rightarrow> string list" where
  "appsOn j mp = map ct_Name (filter (\<lambda>c. list_ex (\<lambda>b. within b mp \<or> within mp b) (ct_Binds c)) (known_containers j))"

definition branchMounts :: "string list \<Rightarrow> string list \<Rightarrow> string list" where
  "branchMounts branches ms =
     concat (map (\<lambda>b. if list_ex (\<lambda>c. c \<in> set ''*?['') b then filter (path_match b) ms else if b \<in> set ms then [b] else []) branches)"

definition say_apps :: "string \<Rightarrow> string list \<Rightarrow> (string \<times> string list) list \<Rightarrow> (string \<times> string list) list" where
  "say_apps mp found apps = put mp (lookup_or [] apps mp @ found) apps"

definition branch_of :: "facts \<Rightarrow> (string \<times> string list) list" where
  "branch_of b =
     fold (\<lambda>pool m. fold (\<lambda>br m. say_apps br [pool] m) (branchMounts (lookup_or [] (fa_Pools b) pool) (fa_Mounts b)) m) (sortedKeys (fa_Pools b)) []"

definition lost_pools :: "judge \<Rightarrow> (string \<times> string list) list \<Rightarrow> (string \<times> string list) list" where
  "lost_pools j apps =
     fold (\<lambda>mp a. if mp \<in> set (fa_Mergerfs (jd_after j)) then a else say_apps mp (appsUnder j mp) a) (fa_Mergerfs (jd_before j)) apps"

definition lost_branches :: "judge \<Rightarrow> (string \<times> string list) list \<Rightarrow> (string \<times> string list) list" where
  "lost_branches j apps =
     fold (\<lambda>pool a.
             if pool \<notin> set (fa_Mergerfs (jd_after j)) then a
             else fold (\<lambda>br a. if br \<in> set (lookup_or [] (fa_Pools (jd_after j)) pool) then a else say_apps br (appsUnder j pool) a)
                    (lookup_or [] (fa_Pools (jd_before j)) pool) a)
       (sortedKeys (fa_Pools (jd_before j))) apps"

definition lost_mounts :: "judge \<Rightarrow> (string \<times> string list) list \<Rightarrow> (string \<times> string list) list" where
  "lost_mounts j apps =
     fold (\<lambda>mp a.
             if mp = ''/'' \<or> mp \<in> set (fa_Mounts (jd_after j)) then a
             else (let found = appsOn j mp; pools = lookup_or [] (branch_of (jd_before j)) mp
                   in if found = [] \<and> pools = [] then a
                      else fold (\<lambda>pool a. say_apps mp (appsUnder j pool) a) pools (say_apps mp found a)))
       (fa_Mounts (jd_before j)) apps"

definition judge_mounts :: "judge \<Rightarrow> judge" where
  "judge_mounts j =
     (if \<not> Knows (jd_before j) FactMounts \<or> \<not> Knows (jd_after j) FactMounts then j
      else (let apps = lost_mounts j (lost_branches j (lost_pools j []))
            in fold (\<lambda>mp. judge_add CodeMountsMissing mp (remdups_adj (sort (lookup_or [] apps mp))) []) (sortedKeys apps) j))"

subsection \<open>The system, the units and the ports\<close>

definition judge_dpkgQuiet :: "judge \<Rightarrow> judge" where
  "judge_dpkgQuiet j = (if Knows (jd_after j) FactDpkg \<and> \<not> fa_DpkgQuiet (jd_after j) then add_finding CodeDpkgNotQuiet [] j else j)"

definition systemReady :: "string \<Rightarrow> bool" where
  "systemReady state \<longleftrightarrow> state = ''running'' \<or> state = ''degraded''"

definition judge_systemReady :: "judge \<Rightarrow> judge" where
  "judge_systemReady j =
     (if Knows (jd_after j) FactSystem \<and> \<not> systemReady (fa_System (jd_after j)) then add_finding CodeSystemNotReady (fa_System (jd_after j)) j else j)"

fun new_lines :: "string list \<Rightarrow> string list \<Rightarrow> (string \<Rightarrow> bool) \<Rightarrow> string list" where
  "new_lines old [] valid = []"
| "new_lines old (l # ls) valid = (if l \<notin> set old \<and> valid l then l # new_lines (l # old) ls valid else new_lines old ls valid)"

definition newLines :: "string list \<Rightarrow> string list \<Rightarrow> (string \<Rightarrow> bool) \<Rightarrow> string list" where
  "newLines before after valid = sort (new_lines before after valid)"

text \<open>The lists of before and of after: the machine's now when it could be asked, and what the last block wrote down when not.\<close>

definition two_lists :: "judge \<Rightarrow> bk_name \<Rightarrow> bk_name \<Rightarrow> fact \<Rightarrow> (facts \<Rightarrow> string list) \<Rightarrow> (string list \<times> string list) option" where
  "two_lists j was is x now =
     (let after = (if Knows (jd_after j) x then Some (now (jd_after j)) else bkLines (jd_bk j) is)
      in case (bkLines (jd_bk j) was, after) of (Some b, Some a) \<Rightarrow> Some (b, a) | _ \<Rightarrow> None)"

definition judge_failedUnits :: "judge \<Rightarrow> judge" where
  "judge_failedUnits j =
     (case two_lists j BKFailedUnits BKFailedUnitsAfter FactFailed fa_Failed of
        None \<Rightarrow> j
      | Some (b, a) \<Rightarrow> fold (add_finding CodeUnitsFailedNew) (newLines b a unitNamePattern) j)"

definition after_last :: "char \<Rightarrow> string \<Rightarrow> string option" where
  "after_last c s = (if c \<in> set s then Some (rev (takeWhile (\<lambda>d. d \<noteq> c) (rev s))) else None)"

definition port_of :: "string \<Rightarrow> int option" where
  "port_of line =
     (case after_last (CHR '':'') line of
        None \<Rightarrow> None
      | Some t \<Rightarrow> (case Atoi t of Some p \<Rightarrow> if 1 \<le> p \<and> p \<le> 65535 then Some p else None | None \<Rightarrow> None))"

definition portsOf :: "string list \<Rightarrow> int list" where
  "portsOf ls = remdups (List.map_filter port_of ls)"

definition ephemeralPort :: int where
  "ephemeralPort = 32768"

definition judge_ports :: "judge \<Rightarrow> judge" where
  "judge_ports j =
     (case two_lists j BKListening BKListeningAfter FactListening fa_Listening of
        None \<Rightarrow> j
      | Some (b, a) \<Rightarrow>
          fold (\<lambda>p. add_finding CodePortsMissing (itoa p)) (sort (filter (\<lambda>p. p < ephemeralPort \<and> p \<notin> set (portsOf a)) (portsOf b))) j)"

definition judge_samba :: "judge \<Rightarrow> judge" where
  "judge_samba j =
     (if Knows (jd_before j) FactSamba \<and> Knows (jd_after j) FactSamba \<and> fa_SambaUsers (jd_before j) \<noteq> fa_SambaUsers (jd_after j)
      then add_finding CodeSambaUsersChanged (itoa (fa_SambaUsers (jd_before j)) @ ''>'' @ itoa (fa_SambaUsers (jd_after j))) j else j)"

definition judge_route :: "judge \<Rightarrow> judge" where
  "judge_route j =
     (if Knows (jd_before j) FactRoute \<and> fa_Route (jd_before j) \<noteq> [] \<and> Knows (jd_after j) FactRoute \<and> fa_Route (jd_after j) = []
      then add_finding CodeRouteMissing (fa_Route (jd_before j)) j else j)"

definition judge_dns :: "judge \<Rightarrow> judge" where
  "judge_dns j =
     (if Knows (jd_before j) FactDNS \<and> fa_DNS (jd_before j) \<and> Knows (jd_after j) FactDNS \<and> \<not> fa_DNS (jd_after j) then add_finding CodeDNSMissing [] j else j)"

subsection \<open>Docker\<close>

definition judge_dockerVersion :: "judge \<Rightarrow> judge" where
  "judge_dockerVersion j =
     (let b = fa_Docker (jd_before j); a = fa_Docker (jd_after j)
      in if \<not> Knows (jd_before j) FactDocker \<or> \<not> Knows (jd_after j) FactDocker \<or> dk_State b \<noteq> DockerUp \<or> dk_State a \<noteq> DockerUp then j
         else if dk_Version b \<noteq> [] \<and> dk_Version a \<noteq> [] \<and> dk_Version b \<noteq> dk_Version a
         then add_finding CodeDockerVersionChanged (dk_Version b @ ''>'' @ dk_Version a) j
         else if dk_EngineID b \<noteq> [] \<and> dk_EngineID a \<noteq> [] \<and> dk_EngineID b \<noteq> dk_EngineID a
         then add_finding CodeDockerVersionChanged ''engine_id'' j
         else j)"

definition judge_dockerSource :: "judge \<Rightarrow> judge" where
  "judge_dockerSource j =
     (case bk_list (jd_bk j) BKDockerSourceNote of
        [] \<Rightarrow> j
      | note # _ \<Rightarrow>
          if note = ''unreachable'' \<or> note = ''no_curl'' then add_finding CodeDockerSourceUnreachable note j
          else if note = ''not_published'' then add_finding CodeDockerSourceNotPublished [] j
          else j)"

definition judge_prerebootWarnings :: "judge \<Rightarrow> judge" where
  "judge_prerebootWarnings j =
     fold (add_finding CodePrerebootWarning) (sort (new_lines [] (bk_list (jd_bk j) BKWarnings) warningWord)) j"

fun not_returned :: "string list \<Rightarrow> string list \<Rightarrow> string list \<Rightarrow> (string \<times> string) list" where
  "not_returned up seen [] = []"
| "not_returned up seen (line # lines) =
     (case container_line line of
        Some (n, p, s) \<Rightarrow>
          if s \<noteq> ''running'' \<or> n \<in> set up \<or> n \<in> set seen then not_returned up seen lines
          else (n, p) # not_returned up (n # seen) lines
      | None \<Rightarrow> not_returned up seen lines)"

definition NotReturned :: "bk_files \<Rightarrow> facts \<Rightarrow> (string \<times> string) list" where
  "NotReturned bk after =
     (if \<not> Knows after FactDocker \<or> dk_State (fa_Docker after) \<noteq> DockerUp \<or> \<not> Knows after FactContainers then []
      else sort_key fst (not_returned (map ct_Name (dk_Containers (fa_Docker after))) [] (bk_list bk BKContainers)))"

definition stoppedBeforeRestart :: "judge \<Rightarrow> string list" where
  "stoppedBeforeRestart j =
     (let r = jd_restart j
      in if \<not> Knows r FactDocker \<or> \<not> Knows r FactContainers \<or> dk_State (fa_Docker r) \<noteq> DockerUp then []
         else filter (\<lambda>n. n \<notin> ct_Name ` set (dk_Containers (fa_Docker r))) (map fst (bkRunning (jd_bk j))))"

definition judge_container :: "string list \<Rightarrow> string \<times> string \<Rightarrow> judge \<Rightarrow> judge" where
  "judge_container off c j =
     (case c of (n, p) \<Rightarrow>
        if p = [] \<or> p = ''no'' then j
        else if n \<in> set off then j\<lparr>jd_changed := jd_changed j @ [''container:'' @ n]\<rparr>
        else judge_add CodeContainerNotReturned n [] p j)"

definition judge_containers :: "judge \<Rightarrow> judge" where
  "judge_containers j = fold (judge_container (stoppedBeforeRestart j)) (NotReturned (jd_bk j) (jd_after j)) j"

subsection \<open>What could not be judged\<close>

definition UnreadablePrefix :: string where
  "UnreadablePrefix = ''bk:''"

definition docker_ran :: "judge \<Rightarrow> bool" where
  "docker_ran j \<longleftrightarrow>
     (if Knows (jd_before j) FactDocker then dk_State (fa_Docker (jd_before j)) = DockerUp else bkRunning (jd_bk j) \<noteq> [])"

text \<open>The facts that are needed, with why, in the order they are asked for.\<close>

definition needs :: "judge \<Rightarrow> (fact \<times> bool) list" where
  "needs j =
     (let b = jd_before j; bk = jd_bk j; ran = (bkRunning bk \<noteq> [])
      in [(FactKernel, case bk_list bk BKKernel of [] \<Rightarrow> False | k # _ \<Rightarrow> kernelPattern k), (FactSystem, True), (FactDpkg, True),
          (FactUnits, casaosUnitStates bk \<noteq> []), (FactSources, True), (FactFailed, bk BKFailedUnits \<noteq> None), (FactListening, bk BKListening \<noteq> None),
          (FactSamba, Knows b FactSamba), (FactMounts, Knows b FactMounts \<and> (fa_Mounts b \<noteq> [] \<or> fa_Mergerfs b \<noteq> [])),
          (FactRoute, Knows b FactRoute \<and> fa_Route b \<noteq> []), (FactDNS, Knows b FactDNS \<and> fa_DNS b), (FactDocker, docker_ran j),
          (FactContainers, docker_ran j \<and> dk_State (fa_Docker (jd_after j)) = DockerUp \<and>
             (ran \<or> Knows b FactContainers \<and> dk_Containers (fa_Docker b) \<noteq> []))])"

definition unsaid_unit :: "judge \<Rightarrow> bool" where
  "unsaid_unit j \<longleftrightarrow>
     Knows (jd_after j) FactUnits \<and>
     list_ex (\<lambda>(u, s). s = ''active'' \<and> u \<notin> set transientUnits \<and> lookup_or [] (fa_Units (jd_after j)) u = unitUnknown) (casaosUnitStates (jd_bk j))"

definition missing_facts :: "judge \<Rightarrow> string list" where
  "missing_facts j =
     remdups (map (fact_word \<circ> fst) (filter (\<lambda>(x, because). because \<and> \<not> Knows (jd_after j) x) (needs j)) @
       (if unsaid_unit j then [fact_word FactUnits] else []) @
       filter (\<lambda>x. cut_prefix UnreadablePrefix x \<noteq> None) (fa_Unknown (jd_after j)))"

definition judge_incomplete :: "judge \<Rightarrow> judge" where
  "judge_incomplete j =
     (if \<not> fa_Taken (jd_after j) then add_finding CodeFactsIncomplete ''all'' j
      else if missing_facts j \<noteq> [] then add_finding CodeFactsIncomplete (join_on (CHR '','') (sort (missing_facts j))) j
      else j)"

definition judge_addChanged :: "judge \<Rightarrow> judge" where
  "judge_addChanged j = fold (add_finding CodeChangedSinceSnapshot) (remdups_adj (sort (jd_changed j))) j"

definition judge_dpkgFiles :: "judge \<Rightarrow> judge" where
  "judge_dpkgFiles j =
     (case (bkLines (jd_bk j) BKDpkgFiles, bkLines (jd_bk j) BKDpkgFilesAfter) of
        (Some b, Some a) \<Rightarrow> fold (add_finding CodeDpkgDistNew) (newLines b a (\<lambda>_. True)) j
      | _ \<Rightarrow> j)"

definition dockerSourceFile :: string where
  "dockerSourceFile = ''docker.list.casaos-paused''"

definition judge_paused :: "judge \<Rightarrow> judge" where
  "judge_paused j =
     (if \<not> Knows (jd_after j) FactSources then j
      else fold (\<lambda>e. if e = dockerSourceFile then add_finding CodeDockerSourcePaused [] else add_finding CodeSourcesLeftPaused e) (fa_Paused (jd_after j)) j)"

subsection \<open>The verdict\<close>

definition rank :: "code \<Rightarrow> nat" where
  "rank c = length (takeWhile (\<lambda>d. d \<noteq> c) Codes)"

definition judge_checks :: "(judge \<Rightarrow> judge) list" where
  "judge_checks =
     [judge_kernel, judge_casaosUnits, judge_dockerDown, judge_mounts, judge_dpkgQuiet, judge_systemReady, judge_failedUnits, judge_ports, judge_samba,
      judge_route, judge_dns, judge_dockerVersion, judge_dockerSource, judge_prerebootWarnings, judge_containers, judge_dpkgFiles, judge_paused,
      judge_incomplete, judge_addChanged]"

definition new_judge :: "facts \<Rightarrow> facts \<Rightarrow> bk_files \<Rightarrow> facts \<Rightarrow> judge" where
  "new_judge before after bk restart =
     \<lparr>jd_before = before, jd_after = after, jd_restart = restart, jd_changed = [], jd_bk = bk, jd_out = []\<rparr>"

definition JudgeWith :: "facts \<Rightarrow> facts \<Rightarrow> bk_files \<Rightarrow> facts \<Rightarrow> finding list" where
  "JudgeWith before after bk restart = sort_key (rank \<circ> fi_Code) (jd_out (fold id judge_checks (new_judge before after bk restart)))"

end
