(* ===== verification/UpgradeLook.thy ===== *)
theory UpgradeLook
  imports UpgradeService Osverify
begin

section \<open>One look of the core, the restart and the going on\<close>

text \<open>
  Models one look at an open upgrade from its first line to its last (\<open>osUpgradeSettleOnce\<close> of \<open>system_os_upgrade_settle.go\<close>), with what it calls: the boot that
  is written down, the barrier before the restart (\<open>system_os_upgrade_barrier.go\<close>), the judge (\<open>system_os_upgrade_judge.go\<close>) and the one thing that the reducer says is next; and the
  two buttons that move a run on, the restart (\<open>system_os_upgrade_reboot.go\<close>) and the going on (\<open>system_os_upgrade_resume.go\<close>). What the machine answers while this
  goes on is the sight: its units and commands, the facts that are taken of it, and the files of the backup folder. The alerts that a look sends and the removal of old folders are left out.
\<close>

subsection \<open>What the machine answers\<close>

text \<open>A unit of apt: what \<open>systemctl is-active\<close> printed, and whether it could be stopped.\<close>

record apt_unit =
  au_Said :: string
  au_Stopped :: bool

datatype lock_sight = LockFree | LockHeldBy string | LockUnknown

record sight =
  si_Unit :: unit_sight
  si_UnitAsked :: unit_sight
  si_UnitNow :: unit_sight
  si_Started :: systemd_run
  si_AptUnits :: "apt_unit list"
  si_System :: string
  si_Docker :: string
  si_Route :: bool
  si_Checks :: "string \<Rightarrow> string option"
  si_Warnings :: "string list option"
  si_ResultWritable :: bool
  si_ToldToStop :: bool
  si_FactsBefore :: facts
  si_FactsRestart :: facts
  si_FactsNow :: facts
  si_BKDir :: string
  si_ReadFile :: "string \<Rightarrow> read_answer"
  si_VerdictRemovable :: bool
  si_Lock :: lock_sight
  si_PowerOK :: bool

subsection \<open>A boot\<close>

definition osUpgradeHoldsTimers :: "run_folder \<Rightarrow> run_state \<Rightarrow> bool" where
  "osUpgradeHoldsTimers run state \<longleftrightarrow> \<not> DoneAfter (rf_Files run) \<and> st_Name state \<noteq> StateRebootFirst"

definition osUpgradeStopAptUnits :: "apt_unit list \<Rightarrow> bool" where
  "osUpgradeStopAptUnits us =
     list_all (\<lambda>u. au_Said u \<noteq> [] \<and> (au_Said u = ''active'' \<or> au_Said u = ''activating'' \<longrightarrow> au_Stopped u)) us"

definition boot_marker :: "surroundings \<Rightarrow> marker" where
  "boot_marker w = (new_marker MkBootSeen 0)\<lparr>mk_Boot := b_Now (wo_Boot w), mk_At := wo_Now w\<rparr>"

definition osUpgradeSeeBoot :: "surroundings \<Rightarrow> sight \<Rightarrow> machine \<Rightarrow> run_folder \<Rightarrow> run_state \<Rightarrow> machine" where
  "osUpgradeSeeBoot w g m run state =
     (if osUpgradeHoldsTimers run state \<and> \<not> osUpgradeStopAptUnits (si_AptUnits g) then m
      else if \<not> ValidNonce (rf_Nonce run) then m
      else (case appendOSUpgradeMarker w run (boot_marker w) of None \<Rightarrow> m | Some run1 \<Rightarrow> put_run m run1))"

definition osUpgradeReady :: "sight \<Rightarrow> bool" where
  "osUpgradeReady g \<longleftrightarrow>
     (let before = si_FactsBefore g
      in (si_System g = ''running'' \<or> si_System g = ''degraded'') \<and>
         (Knows before FactDocker \<and> dk_State (fa_Docker before) = DockerUp \<longrightarrow> si_Docker g = ''active'') \<and>
         (Knows before FactRoute \<and> fa_Route before \<noteq> [] \<longrightarrow> si_Route g))"

subsection \<open>The barrier\<close>

definition osUpgradeBarrierChecks :: "string list" where
  "osUpgradeBarrierChecks = [''fstab_unresolved'', ''fstab_network'']"

definition osUpgradeWarningWord :: "string \<Rightarrow> bool" where
  "osUpgradeWarningWord s =
     (case s of
        [] \<Rightarrow> False
      | c # cs \<Rightarrow> CHR ''a'' \<le> c \<and> c \<le> CHR ''z'' \<and> length cs \<le> 39 \<and> list_all (\<lambda>d. CHR ''a'' \<le> d \<and> d \<le> CHR ''z'' \<or> d = CHR ''_'') cs)"

definition osUpgradeWarningsOf :: "sight \<Rightarrow> string list" where
  "osUpgradeWarningsOf g = (case si_Warnings g of None \<Rightarrow> [] | Some ls \<Rightarrow> sort (remdups (filter osUpgradeWarningWord ls)))"

definition barrier_item :: "sight \<Rightarrow> string \<Rightarrow> barrier_check" where
  "barrier_item g code =
     (case si_Checks g code of
        None \<Rightarrow> \<lparr>bc_Code = code, bc_OK = False, bc_Severity = ''refuse''\<rparr>
      | Some sev \<Rightarrow> \<lparr>bc_Code = code, bc_OK = (sev \<noteq> ''refuse''), bc_Severity = sev\<rparr>)"

definition osUpgradeBarrier :: "sight \<Rightarrow> barrier" where
  "osUpgradeBarrier g =
     (let items = map (barrier_item g) osUpgradeBarrierChecks
      in \<lparr>bar_OK = list_all bc_OK items,
          bar_Checks = items @ map (\<lambda>w. \<lparr>bc_Code = ''prereboot_warning'', bc_OK = True, bc_Severity = ''warn''\<rparr>) (osUpgradeWarningsOf g)\<rparr>)"

definition osUpgradeKeepBarrier :: "sight \<Rightarrow> machine \<Rightarrow> run_folder \<Rightarrow> run_state \<Rightarrow> machine \<times> barrier option" where
  "osUpgradeKeepBarrier g m run state =
     (if st_Name state \<noteq> StateAwaitingReboot \<and> st_Name state \<noteq> StateRebootStalled then (m, None)
      else (let doc = osUpgradeBarrier g
            in if rf_Barrier run = Some doc then (m, Some doc)
               else (if si_ResultWritable g
                     then case mc_Runs m (rf_ID run) of
                            None \<Rightarrow> m
                          | Some fresh \<Rightarrow> put_run m (fresh\<lparr>rf_Barrier := Some doc\<rparr>)
                     else m, Some doc)))"

subsection \<open>The judge\<close>

text \<open>What is judged: the facts of now, with the files of the backup folder that could not be read put to what is not known, against those of before.\<close>

definition bk_of :: "sight \<Rightarrow> bk_files" where
  "bk_of g = fst (ReadBKUnreadable (si_ReadFile g) (si_BKDir g))"

definition unreadable_of :: "sight \<Rightarrow> string list" where
  "unreadable_of g = snd (ReadBKUnreadable (si_ReadFile g) (si_BKDir g))"

definition judged_facts :: "sight \<Rightarrow> facts" where
  "judged_facts g = (let a = si_FactsNow g in a\<lparr>fa_Unknown := fa_Unknown a @ map (\<lambda>n. UnreadablePrefix @ n) (unreadable_of g)\<rparr>)"

definition judge_findings :: "sight \<Rightarrow> finding list" where
  "judge_findings g = JudgeWith (si_FactsBefore g) (judged_facts g) (bk_of g) (si_FactsRestart g)"

definition osUpgradeNotJudged :: "finding list \<Rightarrow> string list" where
  "osUpgradeNotJudged fs =
     (case List.find (\<lambda>f. fi_Code f = CodeFactsIncomplete) fs of
        None \<Rightarrow> []
      | Some f \<Rightarrow> filter (\<lambda>name. name \<noteq> []) (split_on (CHR '','') (fi_Arg f)))"

datatype judged = JudgeMade | JudgeNotMade | JudgeWaits

definition osUpgradeJudge :: "surroundings \<Rightarrow> sight \<Rightarrow> machine \<Rightarrow> run_folder \<Rightarrow> instant \<Rightarrow> machine \<times> judged" where
  "osUpgradeJudge w g m run since =
     (if \<not> DoneAfter (rf_Files run) \<or> \<not> u_Answered (si_UnitNow g) \<or> si_ToldToStop g \<or> \<not> Knows (si_FactsNow g) FactSystem then (m, JudgeNotMade)
      else if since \<noteq> zero_time \<and> time_sub (wo_Now w) since < ContainersWait (wo_Timing w) \<and>
              list_ex (\<lambda>f. fi_Code f = CodeContainerNotReturned) (judge_findings g)
      then (m, JudgeWaits)
      else if \<not> si_ResultWritable g then (m, JudgeNotMade)
      else (case mc_Runs m (rf_ID run) of
              None \<Rightarrow> (m, JudgeNotMade)
            | Some fresh \<Rightarrow> (put_run m (fresh\<lparr>rf_Verify := Some (Summarize (judge_findings g))\<rparr>), JudgeMade)))"

subsection \<open>The one thing that is next\<close>

definition launchAttempt :: "surroundings \<Rightarrow> sight \<Rightarrow> machine \<Rightarrow> string \<Rightarrow> phase \<Rightarrow> who \<Rightarrow> machine \<times> launch_error option" where
  "launchAttempt w g m runID phase who =
     (case launchPrepareLocked w m runID phase who (si_UnitNow g) of
        (m1, Inl e) \<Rightarrow> (m1, Some e)
      | (m1, Inr attempt) \<Rightarrow> launchRun w m1 runID attempt (si_Started g))"

definition osUpgradeDo :: "surroundings \<Rightarrow> sight \<Rightarrow> machine \<Rightarrow> run_folder \<Rightarrow> run_state \<Rightarrow> action \<Rightarrow> machine \<times> do_kind option" where
  "osUpgradeDo w g m run state act =
     (case (ac_Kind act, ac_Phase act, ac_Who act) of
        (DoJudge, _, _) \<Rightarrow> (case osUpgradeJudge w g m run (st_Since state) of (m1, j) \<Rightarrow> (m1, if j = JudgeMade then Some DoJudge else None))
      | (DoCleanup, _, _) \<Rightarrow> (osUpgradeForget w m run, Some DoCleanup)
      | (k, Some phase, Some who) \<Rightarrow>
          if k \<in> {DoUnwind, DoLaunchVerify, DoLaunchRecover}
          then (case launchAttempt w g m (rf_ID run) phase who of (m1, e) \<Rightarrow> (m1, if e = None then Some k else None))
          else (m, None)
      | _ \<Rightarrow> (m, None))"

subsection \<open>The look\<close>

text \<open>From the line after the flag on: the run as it is read, its reading and its state.\<close>

definition look_rest :: "surroundings \<Rightarrow> sight \<Rightarrow> machine \<Rightarrow> run_folder \<Rightarrow> input \<Rightarrow> run_state \<Rightarrow> machine \<times> do_kind option" where
  "look_rest w g m run i state =
     (let m1 = osUpgradeNoteRefresh w m run;
          i1 = (if st_Name state = StateResuming then i\<lparr>in_Ready := osUpgradeReady g\<rparr> else i)
      in case osUpgradeKeepBarrier g m1 run state of
           (m2, doc) \<Rightarrow>
             (case osUpgradeDo w g m2 run state (NextAction state i1) of
                (m3, did) \<Rightarrow> (osUpgradeKeepQuiet m3 state, did)))"

definition look_run :: "surroundings \<Rightarrow> sight \<Rightarrow> machine \<Rightarrow> run_folder \<Rightarrow> machine \<times> do_kind option" where
  "look_run w g m run =
     (let i = osUpgradeInputWith w run (si_Unit g)
      in case osUpgradeForgetDeadStart w m run (si_Unit g) of
           (m1, True) \<Rightarrow> (m1, None)
         | (m1, False) \<Rightarrow>
             (let state = osUpgradeStateOf run i;
                  m2 = osUpgradeKeepFlagLocked w m1 run state (si_Unit g)
              in if b_OK (wo_Boot w) \<and> st_Busy state \<and> \<not> BootKnown (rf_Markers run) (b_Now (wo_Boot w))
                 then (let m3 = osUpgradeSeeBoot w g m2 run state
                       in case mc_Runs m3 (rf_ID run) of
                            None \<Rightarrow> look_rest w g m3 run i state
                          | Some again \<Rightarrow>
                              (let i2 = osUpgradeInputWith w again (si_Unit g)
                               in look_rest w g m3 again i2 (osUpgradeStateOf again i2)))
                 else look_rest w g m2 run i state))"

definition osUpgradeSettleOnce :: "surroundings \<Rightarrow> sight \<Rightarrow> machine \<Rightarrow> machine \<times> do_kind option" where
  "osUpgradeSettleOnce w g m =
     (case mc_Current m of
        CurrentNone \<Rightarrow> (osUpgradeDropStrayFlag w m, None)
      | CurrentBad \<Rightarrow> (osUpgradeHoldUnread w m [], None)
      | CurrentRun i \<Rightarrow>
          (case mc_Runs m i of
             None \<Rightarrow> (osUpgradeHoldUnread w m i, None)
           | Some run \<Rightarrow> look_run w g m run))"

subsection \<open>The restart\<close>

definition osUpgradeCanRestart :: "run_folder \<Rightarrow> run_state \<Rightarrow> bool" where
  "osUpgradeCanRestart run state \<longleftrightarrow>
     st_Name state \<in> {StateAwaitingReboot, StateRebootStalled, StateRebootFirst} \<and> (rf_Kind run \<noteq> RunHop \<or> DonePrereboot (rf_Files run))"

definition osUpgradeUnitQuiet :: "unit_sight \<Rightarrow> bool" where
  "osUpgradeUnitQuiet unit \<longleftrightarrow> u_Answered unit \<and> \<not> u_Active unit"

datatype restart_refusal =
  RestartRefused refusal | OSUpgradeNotAwaitingReboot | OSUpgradeBarrierFailed | OSUpgradeDpkgLocked | OSUpgradeRebootFailed

definition osUpgradeLockRefusal :: "lock_sight \<Rightarrow> restart_refusal option" where
  "osUpgradeLockRefusal l = (case l of LockFree \<Rightarrow> None | _ \<Rightarrow> Some OSUpgradeDpkgLocked)"

definition reboot_marker :: "mkind \<Rightarrow> surroundings \<Rightarrow> marker" where
  "reboot_marker k w = (new_marker k 0)\<lparr>mk_At := wo_Now w\<rparr>"

text \<open>The part under the lock: the run is looked at again, and the log says that the restart was asked for.\<close>

definition restart_asked :: "surroundings \<Rightarrow> sight \<Rightarrow> machine \<Rightarrow> restart_refusal + machine \<times> run_folder" where
  "restart_asked w g m =
     (case osUpgradeCurrentWith w m (si_UnitNow g) of
        Inl r \<Rightarrow> Inl (RestartRefused r)
      | Inr (run, state) \<Rightarrow>
          if \<not> osUpgradeCanRestart run state then Inl OSUpgradeNotAwaitingReboot
          else (case appendOSUpgradeMarker w run (reboot_marker MkRebootRequested w) of
                  None \<Rightarrow> Inl (RestartRefused OSUpgradeStartFailed)
                | Some run1 \<Rightarrow> Inr (put_run m run1, run1)))"

text \<open>What comes of the click, and whether systemd was asked to restart the machine.\<close>

definition RebootSystemOSUpgrade :: "surroundings \<Rightarrow> sight \<Rightarrow> machine \<Rightarrow> machine \<times> bool \<times> restart_refusal option" where
  "RebootSystemOSUpgrade w g m =
     (case osUpgradeCurrentWith w m (si_Unit g) of
        Inl r \<Rightarrow> (m, False, Some (RestartRefused r))
      | Inr (run, state) \<Rightarrow>
          if \<not> osUpgradeCanRestart run state then (m, False, Some OSUpgradeNotAwaitingReboot)
          else (case osUpgradeKeepBarrier g m run state of
                  (m1, doc) \<Rightarrow>
                    if (case doc of None \<Rightarrow> False | Some d \<Rightarrow> \<not> bar_OK d) then (m1, False, Some OSUpgradeBarrierFailed)
                    else if \<not> osUpgradeUnitQuiet (si_UnitAsked g) then (m1, False, Some (RestartRefused OSUpgradeUnitActive))
                    else (case osUpgradeLockRefusal (si_Lock g) of
                            Some r \<Rightarrow> (m1, False, Some r)
                          | None \<Rightarrow>
                              (case restart_asked w g m1 of
                                 Inl r \<Rightarrow> (m1, False, Some r)
                               | Inr (m2, run2) \<Rightarrow>
                                   if si_PowerOK g then (m2, True, None)
                                   else (case appendOSUpgradeMarker w run2 (reboot_marker MkRebootFailed w) of
                                           None \<Rightarrow> (m2, True, Some OSUpgradeRebootFailed)
                                         | Some run3 \<Rightarrow> (put_run m2 run3, True, Some OSUpgradeRebootFailed))))))"

subsection \<open>Going on\<close>

definition osUpgradeJudged :: "run_state \<Rightarrow> bool" where
  "osUpgradeJudged state \<longleftrightarrow>
     st_Name state = StateSucceededWithFindings \<or> st_Name state = StateFailed \<and> st_Reason state = ReasonVerify \<and> st_Class state = None"

definition removeOSUpgradeVerdict :: "sight \<Rightarrow> machine \<Rightarrow> run_folder \<Rightarrow> machine" where
  "removeOSUpgradeVerdict g m run =
     (case mc_Runs m (rf_ID run) of
        None \<Rightarrow> m
      | Some fresh \<Rightarrow> if si_VerdictRemovable g then put_run m (fresh\<lparr>rf_Verify := None\<rparr>) else m)"

definition osUpgradeJudgeAgain :: "surroundings \<Rightarrow> sight \<Rightarrow> machine \<Rightarrow> string \<Rightarrow> machine \<times> refusal option" where
  "osUpgradeJudgeAgain w g m runID =
     (case osUpgradeCurrentWith w m (si_UnitNow g) of
        Inl r \<Rightarrow> (m, Some r)
      | Inr (run, state) \<Rightarrow>
          if rf_ID run \<noteq> runID \<or> \<not> osUpgradeJudged state then (m, Some OSUpgradeNotResumable)
          else (removeOSUpgradeVerdict g m run, None))"

datatype resume_refusal = ResumeRefused refusal | OSUpgradeBusy

text \<open>The launch of the owner's attempt, and the verdict of the check before that is taken away with it.\<close>

definition resume_launch :: "surroundings \<Rightarrow> sight \<Rightarrow> machine \<Rightarrow> run_folder \<Rightarrow> phase \<Rightarrow> machine \<times> resume_refusal option" where
  "resume_launch w g m run phase =
     (case launchPrepareLocked w m (rf_ID run) phase WhoOwner (si_UnitNow g) of
        (m1, Inl e) \<Rightarrow> (m1, Some (ResumeRefused (osUpgradeLaunchRefusal e)))
      | (m1, Inr attempt) \<Rightarrow>
          (let m2 = (if phase = PhaseVerify then removeOSUpgradeVerdict g m1 run else m1)
           in case launchRun w m2 (rf_ID run) attempt (si_Started g) of
                (m3, None) \<Rightarrow> (m3, None)
              | (m3, Some e) \<Rightarrow> (m3, Some (ResumeRefused (osUpgradeLaunchRefusal e)))))"

definition ResumeSystemOSUpgrade :: "surroundings \<Rightarrow> sight \<Rightarrow> machine \<Rightarrow> machine \<times> resume_refusal option" where
  "ResumeSystemOSUpgrade w g m =
     (case osUpgradeCurrentWith w m (si_Unit g) of
        Inl r \<Rightarrow> (m, Some (ResumeRefused r))
      | Inr (run, state) \<Rightarrow>
          if ActionResume \<notin> set (ActionsFor state) then (m, Some (ResumeRefused OSUpgradeNotResumable))
          else if osUpgradeJudged state
          then (case osUpgradeJudgeAgain w g m (rf_ID run) of (m1, r) \<Rightarrow> (m1, map_option ResumeRefused r))
          else if si_Lock g \<noteq> LockFree then (m, Some OSUpgradeBusy)
          else resume_launch w g m run (if st_Phase state = Some PhaseVerify then PhaseVerify else PhaseRecover))"

end
