(* ===== verification/UpgradeServiceFacts.thy ===== *)
theory UpgradeServiceFacts
  imports UpgradeService
begin

section \<open>The core's part of an upgrade: what it keeps\<close>

text \<open>
  The flag says what the run says after every look; a launch takes the next number, once, and only when no unit runs; and a run is let go of only
  with what its state asks for.
\<close>

subsection \<open>The flag\<close>

definition folders_ok :: "machine \<Rightarrow> bool" where
  "folders_ok m \<longleftrightarrow> (\<forall>i run. mc_Runs m i = Some run \<longrightarrow> rf_ID run = i \<and> i \<noteq> [])"

text \<open>What holds the machine: a pointer or a run that cannot be read, and a run whose state does, but for a start that never began.\<close>

definition machine_held :: "surroundings \<Rightarrow> machine \<Rightarrow> unit_sight \<Rightarrow> bool" where
  "machine_held w m unit =
     (case mc_Current m of
        CurrentNone \<Rightarrow> False
      | CurrentBad \<Rightarrow> True
      | CurrentRun i \<Rightarrow>
          (case mc_Runs m i of
             None \<Rightarrow> True
           | Some run \<Rightarrow>
               \<not> (dead_start w run \<and> u_Answered unit \<and> \<not> u_Active unit) \<and>
               (let s = Reduce (osUpgradeInputWith w run unit) in st_Busy s \<or> st_Name s = StateIdle \<and> \<not> st_Closed s)))"

lemma holds_StateOf: "rf_ID run \<noteq> [] \<Longrightarrow> osUpgradeHolds (osUpgradeStateOf run i) \<longleftrightarrow> st_Busy (Reduce i) \<or> st_Name (Reduce i) = StateIdle \<and> \<not> st_Closed (Reduce i)"
  by (auto simp: osUpgradeHolds_def osUpgradeStateOf_def Let_def)

lemma holds_Reduce: "osUpgradeHolds (Reduce i) \<Longrightarrow> st_Busy (Reduce i) \<or> st_Name (Reduce i) = StateIdle \<and> \<not> st_Closed (Reduce i)"
  by (auto simp: osUpgradeHolds_def)

lemma clearBusy_flag: "wo_FlagRemovable w \<Longrightarrow> clearOSUpgradeBusy w m = (m\<lparr>mc_Flag := None\<rparr>, True)"
  by (cases m) (simp add: clearOSUpgradeBusy_def)

lemma setBusy_flag: "wo_FlagWritable w \<Longrightarrow> mc_Flag (setOSUpgradeBusy w m i n t) \<noteq> None"
  by (simp add: setOSUpgradeBusy_def)

lemma quiet_flag [simp]: "mc_Flag (osUpgradeQuietUntil m t) = mc_Flag m"
  by (simp add: osUpgradeQuietUntil_def)

lemma keep_flag:
  assumes "wo_FlagWritable w" "wo_FlagRemovable w" "mc_Current m = CurrentRun (rf_ID run)" "mc_Runs m (rf_ID run) = Some run"
    and "osUpgradeHolds (Reduce (osUpgradeInputWith w run unit)) \<Longrightarrow> osUpgradeHolds state"
  shows "mc_Flag (osUpgradeKeepFlagLocked w m run state unit) \<noteq> None \<longleftrightarrow> osUpgradeHolds state"
proof (cases "osUpgradeHolds state")
  case True
  then show ?thesis using assms(1,3) setBusy_flag by (simp add: osUpgradeKeepFlagLocked_def split: option.split)
next
  case False
  then show ?thesis using assms by (auto simp: osUpgradeKeepFlagLocked_def clearBusy_flag)
qed


definition example_run :: "marker list \<Rightarrow> files \<Rightarrow> run_folder" where
  "example_run ms f =
     \<lparr>rf_ID = boot_b, rf_Kind = RunHop, rf_PlanID = [], rf_Hop = [], rf_CreatedAt = example_time 0, rf_Nonce = example_nonce,
      rf_Markers = [of_attempt MkQueued 0 0, (of_attempt MkRun 0 0)\<lparr>mk_RunKind := Some RunHop, mk_RunID := boot_b\<rparr>] @ ms,
      rf_Ignored = 0, rf_TooLarge = False, rf_Files = f, rf_BackupOutside = False, rf_OutputAt = zero_time, rf_SumsHold = True,
      rf_Barrier = None, rf_Verify = None, rf_Lists = []\<rparr>"

definition example_surroundings :: "int \<Rightarrow> surroundings" where
  "example_surroundings k =
     \<lparr>wo_Now = example_time k, wo_Boot = \<lparr>b_Now = boot_a, b_OK = True\<rparr>, wo_Timing = DefaultTiming, wo_Supported = True,
      wo_LogWritable = True, wo_ListWritable = True, wo_FlagWritable = True, wo_FlagRemovable = True, wo_PointerRemovable = True,
      wo_BackupMovable = True, wo_NoteWritable = True\<rparr>"

definition example_machine :: "run_folder \<Rightarrow> machine" where
  "example_machine run =
     \<lparr>mc_Current = CurrentRun (rf_ID run), mc_Runs = [rf_ID run \<mapsto> run], mc_Flag = None, mc_LastRefresh = None, mc_MuteUntil = zero_time,
      mc_PlanLive = True, mc_Launching = 0\<rparr>"

definition quiet_unit :: unit_sight where
  "quiet_unit = \<lparr>u_Active = False, u_Answered = True, u_SilentSince = zero_time\<rparr>"

lemmas service_eval = example_run_def example_surroundings_def example_machine_def quiet_unit_def osUpgradeInputWith_def
  osUpgradeRunLineDiffers_def boot_seen_at_def

lemma example_folders: "rf_ID run \<noteq> [] \<Longrightarrow> folders_ok (example_machine run)"
  by (auto simp: folders_ok_def example_machine_def split: if_splits)

lemma example_begun_state:
  "st_Name (Reduce (osUpgradeInputWith (example_surroundings 0) (example_run [] no_files) quiet_unit)) = StateIdle"
  "\<not> st_Closed (Reduce (osUpgradeInputWith (example_surroundings 0) (example_run [] no_files) quiet_unit))"
  by (simp_all add: service_eval reduce_eval cong: let_weak_cong)


subsection \<open>Launches\<close>

lemma scan_attempt:
  assumes "mk_Kind a = MkAttempt" "mk_Kind b = MkAttempt" "mk_N a = mk_N b" "mk_Phase a = mk_Phase b" "vw_run v \<noteq> None"
  shows "length (vw_attempt (scan_step i tm v a)) = length (vw_attempt (scan_step i tm v b))"
  using assms by (auto simp: scan_step_def add_def touch_def split: option.split)

lemma NextAttempt_step:
  assumes "in_Markers i \<noteq> []" "mk_Kind a = MkAttempt" "mk_Kind b = MkAttempt" "mk_N a = mk_N b" "mk_Phase a = mk_Phase b"
  shows "NextAttempt (i\<lparr>in_Markers := in_Markers i @ [a]\<rparr>) = NextAttempt (i\<lparr>in_Markers := in_Markers i @ [b]\<rparr>)"
proof -
  let ?v = "scan i (timingOf i)"
  have t: "timingOf (i\<lparr>in_Markers := ms\<rparr>) = timingOf i" for ms by (simp add: timingOf_def)
  have "vw_attempt (scan_step i (timingOf i) ?v a) = vw_attempt (scan_step i (timingOf i) ?v b)" if "vw_run ?v = None"
    using that assms(2,3) by (simp add: scan_step_def)
  then have "length (vw_attempt (scan_step i (timingOf i) ?v a)) = length (vw_attempt (scan_step i (timingOf i) ?v b))"
    using scan_attempt [OF assms(2-5)] by metis
  then show ?thesis unfolding NextAttempt_def t using assms(1) by (simp add: scan_append)
qed

lemma carried_attempt:
  "mk_Kind m = MkAttempt \<Longrightarrow> mk_Phase (carried m) = mk_Phase m"
  by (simp add: carried_def)

lemma carried_attempt_at: "mk_Kind m = MkAttempt \<Longrightarrow> mk_At (carried m) = whole_second (mk_At m)"
  by (simp add: carried_def whole_second_def)

lemma append_marker:
  "appendOSUpgradeMarker w run mk = Some run' \<Longrightarrow> run' = run\<lparr>rf_Markers := rf_Markers run @ [carried mk]\<rparr>"
  by (auto simp: appendOSUpgradeMarker_def split: sum.splits if_splits)

lemma launch_facts:
  assumes "launchPrepareLocked w m runID phase who unit = (m', Inr att)"
  obtains run where "mc_Runs m runID = Some run" "length (rf_Markers run) \<ge> 2" "u_Answered unit" "\<not> u_Active unit"
    "\<not> live_state (st_Name (Reduce (osUpgradeInputWith w run unit)))" "\<not> st_Closed (Reduce (osUpgradeInputWith w run unit))"
    "st_Name (Reduce (osUpgradeInputWith w run unit)) \<notin> {StateManual, StateManualDone}"
    "att = attempt_marker w run phase who (NextAttempt (osUpgradeInputWith w run unit))" "mk_N att \<le> 999"
    "NextAttempt ((osUpgradeInputWith w run unit)\<lparr>in_Markers := rf_Markers run @ [att]\<rparr>) = mk_N att + 1" "rf_SumsHold run"
    "BlockList phase (rf_Files run) \<noteq> [] \<or> phase = PhaseUnwind"
    "m' = (put_run m (run\<lparr>rf_Lists := (mk_N att, BlockList phase (rf_Files run)) # rf_Lists run, rf_Markers := rf_Markers run @ [carried att]\<rparr>))
            \<lparr>mc_Launching := mc_Launching m + 1\<rparr>"
proof -
  obtain run where run: "mc_Runs m runID = Some run" using assms by (cases "mc_Runs m runID") (simp_all add: launchPrepareLocked_def)
  define n where "n = NextAttempt (osUpgradeInputWith w run unit)"
  define a where "a = attempt_marker w run phase who n"
  have na: "mk_N a = n" by (simp add: a_def attempt_marker_def new_marker_def)
  note d = assms [unfolded launchPrepareLocked_def run option.case Let_def, folded n_def, folded a_def]
  have g: "\<not> (\<not> ValidNonce (rf_Nonce run) \<or> length (rf_Markers run) < 2)" "wo_Supported w" "u_Answered unit" "\<not> u_Active unit"
    "\<not> live_state (st_Name (Reduce (osUpgradeInputWith w run unit)))"
    "\<not> (st_Closed (Reduce (osUpgradeInputWith w run unit)) \<or> st_Name (Reduce (osUpgradeInputWith w run unit)) = StateManual \<or>
         st_Name (Reduce (osUpgradeInputWith w run unit)) = StateManualDone)"
    "\<not> (n > 999 \<or> NextAttempt ((osUpgradeInputWith w run unit)\<lparr>in_Markers := rf_Markers run @ [a]\<rparr>) \<noteq> n + 1)" "rf_SumsHold run"
    "\<not> (BlockList phase (rf_Files run) = [] \<and> phase \<noteq> PhaseUnwind)"
    using d by (auto split: if_splits)
  then obtain run2 where r2: "appendOSUpgradeMarker w (run\<lparr>rf_Lists := (n, BlockList phase (rf_Files run)) # rf_Lists run\<rparr>) a = Some run2"
    "m' = (put_run m run2)\<lparr>mc_Launching := mc_Launching m + 1\<rparr>" "att = a"
    using d by (auto split: if_splits option.splits)
  show thesis
    by (rule that [OF run]) (use g na r2 append_marker [OF r2(1)] in \<open>simp_all add: a_def n_def\<close>)
qed

lemma input_attempt:
  assumes "mk_Kind c = MkAttempt"
  shows "osUpgradeInputWith w (run\<lparr>rf_Lists := ls, rf_Markers := rf_Markers run @ [c]\<rparr>) unit =
    (osUpgradeInputWith w run unit)\<lparr>in_Markers := rf_Markers run @ [c]\<rparr>"
proof -
  have "boot_seen_at b (rf_Markers run @ [c]) = boot_seen_at b (rf_Markers run)" for b using assms by (simp add: boot_seen_at_def)
  moreover have "List.find (\<lambda>m. mk_Kind m = MkRun) (ms @ [c]) = List.find (\<lambda>m. mk_Kind m = MkRun) ms" for ms
    using assms by (induction ms) auto
  ultimately show ?thesis by (simp add: osUpgradeInputWith_def osUpgradeRunLineDiffers_def cong: option.case_cong)
qed

lemma attempt_kind [simp]: "mk_Kind (attempt_marker w run phase who n) = MkAttempt" "mk_N (attempt_marker w run phase who n) = n"
  "mk_Phase (attempt_marker w run phase who n) = Some phase" "mk_At (attempt_marker w run phase who n) = wo_Now w"
  by (simp_all add: attempt_marker_def new_marker_def)

lemma launch_next:
  assumes "folders_ok m" "launchPrepareLocked w m runID phase who unit = (m', Inr att)"
  obtains run run' where "mc_Runs m runID = Some run" "mc_Runs m' runID = Some run'" "u_Answered unit" "\<not> u_Active unit"
    "att = attempt_marker w run phase who (NextAttempt (osUpgradeInputWith w run unit))"
    "rf_Markers run \<noteq> []" "run' = run\<lparr>rf_Lists := (mk_N att, BlockList phase (rf_Files run)) # rf_Lists run, rf_Markers := rf_Markers run @ [carried att]\<rparr>"
    "osUpgradeInputWith w run' unit = (osUpgradeInputWith w run unit)\<lparr>in_Markers := rf_Markers run @ [carried att]\<rparr>"
    "NextAttempt (osUpgradeInputWith w run' unit) = mk_N att + 1"
proof (rule launch_facts [OF assms(2)])
  fix run
  assume f: "mc_Runs m runID = Some run" "length (rf_Markers run) \<ge> 2" "u_Answered unit" "\<not> u_Active unit"
    "att = attempt_marker w run phase who (NextAttempt (osUpgradeInputWith w run unit))"
    "NextAttempt ((osUpgradeInputWith w run unit)\<lparr>in_Markers := rf_Markers run @ [att]\<rparr>) = mk_N att + 1"
    "m' = (put_run m (run\<lparr>rf_Lists := (mk_N att, BlockList phase (rf_Files run)) # rf_Lists run, rf_Markers := rf_Markers run @ [carried att]\<rparr>))
            \<lparr>mc_Launching := mc_Launching m + 1\<rparr>"
  let ?run = "run\<lparr>rf_Lists := (mk_N att, BlockList phase (rf_Files run)) # rf_Lists run, rf_Markers := rf_Markers run @ [carried att]\<rparr>"
  have ne: "rf_Markers run \<noteq> []" using f(2) by auto
  have k: "mk_Kind att = MkAttempt" using f(5) by simp
  have i: "osUpgradeInputWith w ?run unit = (osUpgradeInputWith w run unit)\<lparr>in_Markers := rf_Markers run @ [carried att]\<rparr>"
    by (rule input_attempt) (simp add: k)
  have ms: "in_Markers (osUpgradeInputWith w run unit) = rf_Markers run" by (simp add: osUpgradeInputWith_def)
  have "NextAttempt (osUpgradeInputWith w ?run unit) = mk_N att + 1"
    using NextAttempt_step [of "osUpgradeInputWith w run unit" "carried att" att] f(6) ne k unfolding i ms by (simp add: carried_attempt)
  moreover have "mc_Runs m' runID = Some ?run" using f(1,7) assms(1) by (auto simp: put_run_def folders_ok_def)
  ultimately show thesis using that [OF f(1) _ f(3-5) ne refl i] by blast
qed

text \<open>
  A launch that is prepared found systemd answering that no unit runs, and took the next number of the log: the log has one line more, of that
  number, phase and caller, at that second; the list of the blocks of that number is written; and the next number is one
  more, so that no number is launched twice. Nothing else of the machine is changed but the count of launches that are under way.
\<close>

theorem launch_takes_the_next_number:
  assumes "folders_ok m" "launchPrepareLocked w m runID phase who unit = (m', Inr att)"
  shows "\<exists>run run'. mc_Runs m runID = Some run \<and> mc_Runs m' = (mc_Runs m)(runID \<mapsto> run') \<and> u_Answered unit \<and> \<not> u_Active unit \<and>
    rf_SumsHold run \<and> mk_N att = NextAttempt (osUpgradeInputWith w run unit) \<and> mk_N att \<le> 999 \<and>
    mk_Phase att = Some phase \<and> mk_Who att = Some who \<and>
    run' = run\<lparr>rf_Lists := (mk_N att, BlockList phase (rf_Files run)) # rf_Lists run, rf_Markers := rf_Markers run @ [carried att]\<rparr> \<and>
    NextAttempt (osUpgradeInputWith w run' unit) = mk_N att + 1 \<and>
    mc_Current m' = mc_Current m \<and> mc_Flag m' = mc_Flag m \<and> mc_Launching m' = mc_Launching m + 1"
proof -
  obtain run where f: "mc_Runs m runID = Some run" "u_Answered unit" "\<not> u_Active unit" "mk_N att \<le> 999" "rf_SumsHold run"
    "att = attempt_marker w run phase who (NextAttempt (osUpgradeInputWith w run unit))"
    "m' = (put_run m (run\<lparr>rf_Lists := (mk_N att, BlockList phase (rf_Files run)) # rf_Lists run, rf_Markers := rf_Markers run @ [carried att]\<rparr>))
            \<lparr>mc_Launching := mc_Launching m + 1\<rparr>"
    using launch_facts [OF assms(2)] by metis
  obtain run0 run' where n: "mc_Runs m runID = Some run0" "mc_Runs m' runID = Some run'" "NextAttempt (osUpgradeInputWith w run' unit) = mk_N att + 1"
    "run' = run0\<lparr>rf_Lists := (mk_N att, BlockList phase (rf_Files run0)) # rf_Lists run0, rf_Markers := rf_Markers run0 @ [carried att]\<rparr>"
    using launch_next [OF assms] by metis
  have "run0 = run" "rf_ID run = runID" using n(1) f(1) assms(1) by (auto simp: folders_ok_def)
  moreover from this have "mc_Runs m' = (mc_Runs m)(runID \<mapsto> run')" "mc_Current m' = mc_Current m" "mc_Flag m' = mc_Flag m" "mc_Launching m' = mc_Launching m + 1"
    using f(7) n(4) by (simp_all add: put_run_def)
  moreover have "mk_N att = NextAttempt (osUpgradeInputWith w run unit)" "mk_Phase att = Some phase" "mk_Who att = Some who"
    using f(6) by (simp_all add: attempt_marker_def new_marker_def)
  ultimately show ?thesis using f n by blast
qed

lemma launch_goes:
  assumes "mc_Runs m i = Some run" "ValidNonce (rf_Nonce run)" "length (rf_Markers run) \<ge> 2" "wo_Supported w" "u_Answered unit" "\<not> u_Active unit"
    "\<not> live_state (st_Name (Reduce (osUpgradeInputWith w run unit)))" "\<not> st_Closed (Reduce (osUpgradeInputWith w run unit))"
    "st_Name (Reduce (osUpgradeInputWith w run unit)) \<noteq> StateManual" "st_Name (Reduce (osUpgradeInputWith w run unit)) \<noteq> StateManualDone"
    "NextAttempt (osUpgradeInputWith w run unit) = n" "n \<le> 999" "attempt_marker w run phase who n = att"
    "NextAttempt ((osUpgradeInputWith w run unit)\<lparr>in_Markers := rf_Markers run @ [att]\<rparr>) = n + 1" "rf_SumsHold run"
    "BlockList phase (rf_Files run) = bs" "bs \<noteq> [] \<or> phase = PhaseUnwind" "list_all (\<lambda>b. b \<in> set (osUpgradeBlockIDs (rf_Kind run))) bs"
    "wo_ListWritable w" "wo_LogWritable w" "Line att (rf_Nonce run) = Inr line"
    "Validate \<lparr>at_RunID = rf_ID run, at_Nonce = rf_Nonce run, at_Phase = phase_word phase, at_N = n\<rparr> = None"
  shows "launchPrepareLocked w m i phase who unit =
    ((put_run m (run\<lparr>rf_Lists := (n, bs) # rf_Lists run, rf_Markers := rf_Markers run @ [carried att]\<rparr>))\<lparr>mc_Launching := mc_Launching m + 1\<rparr>, Inr att)"
  using assms by (auto simp: launchPrepareLocked_def appendOSUpgradeMarker_def Let_def)

text \<open>The launch of the first attempt of a run that has been queued.\<close>

definition begun_machine :: machine where
  "begun_machine = example_machine (example_run [] no_files)"

definition first_attempt :: marker where
  "first_attempt = (new_marker MkAttempt 1)\<lparr>mk_Phase := Some PhaseRun, mk_Who := Some WhoOwner, mk_At := 63871200000 * second\<rparr>"

definition launched_machine :: machine where
  "launched_machine = fst (launchPrepareLocked (example_surroundings 0) begun_machine boot_b PhaseRun WhoOwner quiet_unit)"

lemma first_attempt: "attempt_marker (example_surroundings 0) (example_run [] no_files) PhaseRun WhoOwner 1 = first_attempt"
  by (simp add: attempt_marker_def first_attempt_def example_surroundings_def new_marker_def)

lemma begun_folders: "folders_ok begun_machine"
  unfolding begun_machine_def by (rule example_folders) (simp add: example_run_def boot_b_def)

lemma begun_run: "mc_Runs begun_machine boot_b = Some (example_run [] no_files)"
  by (simp add: begun_machine_def example_machine_def example_run_def)

lemma begun_next:
  "NextAttempt (osUpgradeInputWith (example_surroundings 0) (example_run [] no_files) quiet_unit) = 1"
  "NextAttempt ((osUpgradeInputWith (example_surroundings 0) (example_run [] no_files) quiet_unit)
     \<lparr>in_Markers := rf_Markers (example_run [] no_files) @ [first_attempt]\<rparr>) = 2"
  by (simp_all add: NextAttempt_def first_attempt_def service_eval reduce_eval cong: let_weak_cong)

lemma begun_writes:
  "ValidNonce example_nonce" "Validate \<lparr>at_RunID = boot_b, at_Nonce = example_nonce, at_Phase = phase_word PhaseRun, at_N = 1\<rparr> = None"
  "\<exists>line. Line first_attempt example_nonce = Inr line"
  "BlockList PhaseRun no_files \<noteq> []" "list_all (\<lambda>b. b \<in> set (osUpgradeBlockIDs RunHop)) (BlockList PhaseRun no_files)"
proof -
  have "case Line first_attempt example_nonce of Inl e \<Rightarrow> False | Inr line \<Rightarrow> True" by code_simp
  then show "\<exists>line. Line first_attempt example_nonce = Inr line" by (simp split: sum.splits)
qed code_simp+

lemma begun_launch:
  "launchPrepareLocked (example_surroundings 0) begun_machine boot_b PhaseRun WhoOwner quiet_unit = (launched_machine, Inr first_attempt)"
proof -
  let ?w = "example_surroundings 0" and ?run = "example_run [] no_files"
  have f: "rf_Nonce ?run = example_nonce" "rf_ID ?run = boot_b" "rf_Files ?run = no_files" "rf_Kind ?run = RunHop" "rf_SumsHold ?run"
    "length (rf_Markers ?run) = 2" "wo_Supported ?w" "wo_ListWritable ?w" "wo_LogWritable ?w" "u_Answered quiet_unit" "\<not> u_Active quiet_unit"
    by (simp_all add: service_eval)
  obtain line where "Line first_attempt example_nonce = Inr line" using begun_writes(3) by blast
  then have "launchPrepareLocked ?w begun_machine boot_b PhaseRun WhoOwner quiet_unit =
      ((put_run begun_machine (?run\<lparr>rf_Lists := (1, BlockList PhaseRun no_files) # rf_Lists ?run, rf_Markers := rf_Markers ?run @ [carried first_attempt]\<rparr>))
         \<lparr>mc_Launching := mc_Launching begun_machine + 1\<rparr>, Inr first_attempt)"
    using begun_writes begun_next f example_begun_state by (intro launch_goes [OF begun_run] first_attempt) (simp_all add: live_state_def)
  then show ?thesis unfolding launched_machine_def by simp
qed

theorem launch_takes_the_next_number_witness:
  "\<exists>run'. mc_Runs launched_machine boot_b = Some run' \<and> rf_Markers run' = rf_Markers (example_run [] no_files) @ [carried first_attempt] \<and>
     NextAttempt (osUpgradeInputWith (example_surroundings 0) run' quiet_unit) = 2"
proof -
  have "mk_N first_attempt = 1" by (simp add: first_attempt_def new_marker_def)
  then show ?thesis using launch_takes_the_next_number [OF begun_folders begun_launch] begun_run by auto
qed

subsection \<open>A launch that is on its way\<close>

lemma scan_one_more:
  assumes "mk_Kind c = MkAttempt" "in_Markers i \<noteq> []"
    and "NextAttempt (i\<lparr>in_Markers := in_Markers i @ [c]\<rparr>) = NextAttempt i + 1"
  obtains p where "mk_Phase c = Some p" "vw_valid (scan i (timingOf i))" "vw_run (scan i (timingOf i)) \<noteq> None"
    "scan (i\<lparr>in_Markers := in_Markers i @ [c]\<rparr>) (timingOf i) =
       touch ((scan i (timingOf i))\<lparr>vw_attempt := vw_attempt (scan i (timingOf i)) @ [new_attempt (mk_N c) p (mk_From c) (mk_Who c) (mk_At c)]\<rparr>) (mk_At c)"
proof -
  let ?v = "scan i (timingOf i)"
  have t: "timingOf (i\<lparr>in_Markers := ms\<rparr>) = timingOf i" for ms by (simp add: timingOf_def)
  have l: "length (vw_attempt (scan (i\<lparr>in_Markers := in_Markers i @ [c]\<rparr>) (timingOf i))) = length (vw_attempt ?v) + 1"
    using assms(3) unfolding NextAttempt_def t by simp
  then have v: "vw_valid ?v" "scan (i\<lparr>in_Markers := in_Markers i @ [c]\<rparr>) (timingOf i) = scan_step i (timingOf i) ?v c"
    using scan_append [OF assms(2), of "[c]" "timingOf i"] by (auto simp: empty_view_def split: if_splits)
  have "length (vw_attempt (scan_step i (timingOf i) ?v c)) = length (vw_attempt ?v) + 1" using l v(2) by simp
  then have "vw_run ?v \<noteq> None \<and> (\<exists>p. mk_Phase c = Some p \<and>
      scan_step i (timingOf i) ?v c = touch (?v\<lparr>vw_attempt := vw_attempt ?v @ [new_attempt (mk_N c) p (mk_From c) (mk_Who c) (mk_At c)]\<rparr>) (mk_At c))"
    using assms(1) by (auto simp: scan_step_def add_def split: if_splits option.splits)
  then show thesis using that v by metis
qed

lemma young_age: "in_Now (cx_in c) = t \<Longrightarrow> age c (whole_second t) < 30 * second"
proof -
  assume t: "in_Now (cx_in c) = t"
  have "0 \<le> t - whole_second t" "t - whole_second t < second"
    by (simp_all add: whole_second_def minus_div_mult_eq_mod)
  then show ?thesis using t by (auto simp: age_def Let_def time_defs)
qed

lemma live_launched:
  assumes "u_Answered (in_Unit (cx_in c))" "\<not> u_Active (in_Unit (cx_in c))" "cx_tm c = DefaultTiming" "cx_a c = Some a"
    and "a = new_attempt n p from who (whole_second (in_Now (cx_in c)))" "p \<noteq> PhaseVerify"
  shows "live c a = Some (running c a)"
proof -
  have "age c (av_At a) < 30 * second" using young_age [OF refl, of c] assms(5) by (simp add: new_attempt_def)
  then have "\<not> age c (av_At a) \<ge> StartLost (cx_tm c)" "\<not> age c (av_At a) \<ge> StartLostSilent (cx_tm c)"
    using assms(3) by (simp_all add: DefaultTiming_def)
  then show ?thesis
    using assms by (simp add: live_def attempt_open_def systemdSilent_def active_def inFlight_def startLost_def new_attempt_def Let_def)
qed

lemma decide_valid: "vw_valid v \<Longrightarrow> vw_run v \<noteq> None \<Longrightarrow> decide v i tm = decide_ctx (newCtxFrom v i tm)"
  unfolding decide_def by (rule if_not_P) simp

lemma running_live: "live_state (st_Name (running c a))"
  by (cases "av_Phase a") (simp_all add: running_def live_state_def st_def blank_state_def Let_def split: option.split)

lemma Reduce_launched:
  assumes "folders_ok m" "launchPrepareLocked w m runID phase who unit = (m', Inr att)" "mc_Runs m runID = Some run"
    and "wo_Timing w = DefaultTiming" "phase \<noteq> PhaseVerify" "\<not> in_Damaged (osUpgradeInputWith w run unit)"
  shows "\<exists>run'. mc_Runs m' runID = Some run' \<and> live_state (st_Name (Reduce (osUpgradeInputWith w run' unit)))"
proof -
  let ?i = "osUpgradeInputWith w run unit"
  obtain run' where n: "mc_Runs m' runID = Some run'" "u_Answered unit" "\<not> u_Active unit" "rf_Markers run \<noteq> []"
    "att = attempt_marker w run phase who (NextAttempt ?i)"
    "osUpgradeInputWith w run' unit = ?i\<lparr>in_Markers := rf_Markers run @ [carried att]\<rparr>"
    "NextAttempt (osUpgradeInputWith w run' unit) = mk_N att + 1"
    using launch_next [OF assms(1,2)] assms(3) by (metis option.inject)
  have ms: "in_Markers ?i = rf_Markers run" and tm: "timingOf ?i = DefaultTiming" and un: "in_Unit ?i = unit" and now: "in_Now ?i = wo_Now w"
    using assms(4) by (simp_all add: osUpgradeInputWith_def timingOf_def)
  have k: "mk_Kind (carried att) = MkAttempt" "mk_Phase (carried att) = Some phase" "mk_At (carried att) = whole_second (wo_Now w)"
    using n(5) by (simp_all add: carried_attempt carried_attempt_at)
  have "NextAttempt (?i\<lparr>in_Markers := in_Markers ?i @ [carried att]\<rparr>) = NextAttempt ?i + 1"
    using n(5-7) unfolding ms by simp
  then obtain p where v: "mk_Phase (carried att) = Some p" "vw_valid (scan ?i DefaultTiming)" "vw_run (scan ?i DefaultTiming) \<noteq> None"
    "scan (?i\<lparr>in_Markers := in_Markers ?i @ [carried att]\<rparr>) DefaultTiming =
       touch ((scan ?i DefaultTiming)\<lparr>vw_attempt := vw_attempt (scan ?i DefaultTiming) @
         [new_attempt (mk_N (carried att)) p (mk_From (carried att)) (mk_Who (carried att)) (mk_At (carried att))]\<rparr>) (mk_At (carried att))"
    using scan_one_more [OF k(1), of ?i] n(4) unfolding ms tm by metis
  let ?a = "new_attempt (mk_N (carried att)) phase (mk_From (carried att)) (mk_Who (carried att)) (whole_second (wo_Now w))"
  let ?i' = "?i\<lparr>in_Markers := rf_Markers run @ [carried att]\<rparr>"
  let ?v' = "scan ?i' DefaultTiming"
  let ?c = "newCtxFrom ?v' ?i' DefaultTiming"
  have p: "p = phase" using v(1) k(2) by simp
  have v': "vw_valid ?v'" "vw_run ?v' \<noteq> None" "view_last ?v' = Some ?a" "vw_acked ?v' = vw_acked (scan ?i DefaultTiming)"
    "vw_takeover ?v' = vw_takeover (scan ?i DefaultTiming)"
    using v(2-4) k(3) unfolding ms p by (simp_all add: touch_def view_last_def)
  have r: "Reduce ?i = decide_ctx (newCtxFrom (scan ?i DefaultTiming) ?i DefaultTiming)"
    using decide_valid [OF v(2,3)] tm by (simp add: Reduce_def Let_def)
  have "\<not> st_Closed (Reduce ?i)" "st_Name (Reduce ?i) \<notin> {StateManual, StateManualDone}"
    using launch_facts [OF assms(2)] assms(3) by (metis option.inject)+
  then have free: "\<not> vw_acked ?v'" "\<not> vw_takeover ?v'"
    unfolding r v'(4,5) by (auto simp: decide_ctx_def newCtxFrom_def Let_def st_def blank_state_def split: if_splits option.splits)
  have "live ?c ?a = Some (running ?c ?a)"
    by (rule live_launched) (use n(2,3) v'(3) un now assms(5) in \<open>simp_all add: newCtxFrom_def Let_def\<close>)
  then have "decide_ctx ?c = running ?c ?a"
    using free v'(3) assms(6) by (simp add: decide_ctx_def newCtxFrom_def Let_def)
  moreover have "timingOf ?i' = DefaultTiming" using tm unfolding timingOf_def by (simp split: if_splits)
  then have "Reduce ?i' = decide_ctx ?c" using decide_valid [OF v'(1,2)] by (simp add: Reduce_def Let_def)
  ultimately have "live_state (st_Name (Reduce (osUpgradeInputWith w run' unit)))" using n(6) running_live by simp
  then show ?thesis using n(1) by blast
qed



subsection \<open>The owner's word\<close>

definition ack_line :: "surroundings \<Rightarrow> ack_action \<Rightarrow> marker" where
  "ack_line w action = (new_marker MkAck 0)\<lparr>mk_Result := Some (ack_result action), mk_At := wo_Now w\<rparr>"

lemma launch_keeps_current: "mc_Current (fst (launchPrepareLocked w m i p who unit)) = mc_Current m"
  by (simp add: launchPrepareLocked_def put_run_def Let_def split: option.split)

lemma keep_quiet_current [simp]: "mc_Current (osUpgradeKeepQuiet m state) = mc_Current m" "mc_Runs (osUpgradeKeepQuiet m state) = mc_Runs m"
  by (simp_all add: osUpgradeKeepQuiet_def osUpgradeQuietUntil_def)

lemma note_refresh_current [simp]: "mc_Current (osUpgradeNoteRefresh w m run) = mc_Current m" "mc_Runs (osUpgradeNoteRefresh w m run) = mc_Runs m"
  by (simp_all add: osUpgradeNoteRefresh_def Let_def)

lemma drop_plan_current [simp]: "mc_Current (osUpgradeDropPlan m) = mc_Current m" "mc_Runs (osUpgradeDropPlan m) = mc_Runs m"
  by (simp_all add: osUpgradeDropPlan_def)

lemma put_run_fields [simp]: "mc_Current (put_run m run) = mc_Current m" "mc_Runs (put_run m run) (rf_ID run) = Some run"
  by (simp_all add: put_run_def)

lemma clear_busy_fields [simp]:
  "mc_Current (fst (clearOSUpgradeBusy w m)) = mc_Current m" "mc_Runs (fst (clearOSUpgradeBusy w m)) = mc_Runs m"
  by (simp_all add: clearOSUpgradeBusy_def)

lemma clear_current_runs [simp]: "mc_Runs (fst (clearOSUpgradeCurrent w m)) = mc_Runs m"
  by (simp add: clearOSUpgradeCurrent_def)

lemma close_log_written:
  assumes "osUpgradeCloseLog w run (ack_result action) = (run', True)"
  shows "rf_ID run' = rf_ID run \<and> (rf_Nonce run \<noteq> [] \<longrightarrow> rf_Markers run' = rf_Markers run @ [carried (ack_line w action)])"
proof -
  obtain run1 where r: "osUpgradePutAwayBackup w run = Some run1" and
    c: "(if rf_Nonce run1 \<noteq> [] then (case appendOSUpgradeMarker w run1 (ack_line w action) of None \<Rightarrow> (run1, False) | Some run2 \<Rightarrow> (run2, True))
         else (run1, True)) = (run', True)"
    using assms unfolding osUpgradeCloseLog_def ack_line_def [symmetric] by (cases "osUpgradePutAwayBackup w run") simp_all
  have "rf_ID run1 = rf_ID run" "rf_Nonce run1 = rf_Nonce run" "rf_Markers run1 = rf_Markers run"
    using r by (auto simp: osUpgradePutAwayBackup_def split: if_splits)
  then show ?thesis using c by (auto split: if_splits option.splits dest: append_marker)
qed

lemma close_written:
  assumes "mc_Current (fst (closeOSUpgradeRun w m run (ack_result action))) = CurrentNone" "mc_Current m \<noteq> CurrentNone"
  obtains run' where "mc_Runs (fst (closeOSUpgradeRun w m run (ack_result action))) (rf_ID run) = Some run'"
    "rf_Nonce run \<noteq> [] \<longrightarrow> rf_Markers run' = rf_Markers run @ [carried (ack_line w action)]"
proof -
  obtain run' ok where c: "osUpgradeCloseLog w run (ack_result action) = (run', ok)" by fastforce
  then have ok using assms by (cases ok) (simp_all add: closeOSUpgradeRun_def)
  then have w: "rf_ID run' = rf_ID run" "rf_Nonce run \<noteq> [] \<longrightarrow> rf_Markers run' = rf_Markers run @ [carried (ack_line w action)]"
    using close_log_written [of w run action run'] c by simp_all
  obtain m1 ok1 where p: "clearOSUpgradeCurrent w (put_run m run') = (m1, ok1)" by fastforce
  then have "mc_Runs m1 (rf_ID run) = Some run'" using clear_current_runs [of w "put_run m run'"] w(1) put_run_fields(2) [of m run'] by simp
  then have "mc_Runs (fst (closeOSUpgradeRun w m run (ack_result action))) (rf_ID run) = Some run'"
    using c \<open>ok\<close> p by (cases ok1) (simp_all add: closeOSUpgradeRun_def)
  then show thesis using w(2) that by blast
qed

lemma ack_close_gone:
  assumes "mc_Current (fst (ack_close w m action word run state)) = CurrentNone" "mc_Current m \<noteq> CurrentNone"
  shows "action \<noteq> OSUpgradeAckManual \<and> (NeedsAckWord state \<longrightarrow> word = AckWord) \<and>
    (\<exists>run'. mc_Runs (fst (ack_close w m action word run state)) (rf_ID run) = Some run' \<and>
       (rf_Nonce run \<noteq> [] \<longrightarrow> rf_Markers run' = rf_Markers run @ [carried (ack_line w action)]))"
proof -
  define m2 where "m2 = (let m1 = osUpgradeKeepQuiet (osUpgradeNoteRefresh w m run) state in if action = OSUpgradeAckDiscard then osUpgradeDropPlan m1 else m1)"
  have m2: "mc_Current m2 = mc_Current m" by (simp add: m2_def Let_def)
  have a: "action \<noteq> OSUpgradeAckManual"
    using assms by (auto simp: ack_close_def split: option.splits)
  then have c: "ack_close w m action word run state =
      (case osUpgradeCheckWord (NeedsAckWord state) word of
         Some r \<Rightarrow> (m, Inl r)
       | None \<Rightarrow> (case closeOSUpgradeRun w m2 run (ack_result action) of (m3, ok) \<Rightarrow> (m3, if ok then Inr None else Inl OSUpgradeCloseFailed)))"
    by (simp add: ack_close_def m2_def Let_def cong: option.case_cong)
  then have k: "osUpgradeCheckWord (NeedsAckWord state) word = None"
    using assms by (auto split: option.splits)
  then have f: "fst (ack_close w m action word run state) = fst (closeOSUpgradeRun w m2 run (ack_result action))"
    using c by (simp split: prod.split)
  have "NeedsAckWord state \<longrightarrow> word = AckWord" using k by (auto simp: osUpgradeCheckWord_def split: if_splits)
  moreover obtain run' where "mc_Runs (fst (ack_close w m action word run state)) (rf_ID run) = Some run'"
    "rf_Nonce run \<noteq> [] \<longrightarrow> rf_Markers run' = rf_Markers run @ [carried (ack_line w action)]"
    using close_written [of w m2 run action] assms m2 unfolding f by metis
  ultimately show ?thesis using a by blast
qed

lemma half_upgraded_Reduce: "st_HalfUpgraded (Reduce i) = (PNR (in_Files i) \<and> \<not> DonePrereboot (in_Files i))"
proof (cases "placed i")
  case True
  then show ?thesis using sound_decide_ctx [of "newCtx i"] by (simp add: Reduce_placed sound_def)
qed (simp add: Reduce_unplaced blank_state_def)

lemma pnr_Reduce: "st_PNR (Reduce i) = PNR (in_Files i)"
proof (cases "placed i")
  case True
  then show ?thesis using sound_decide_ctx [of "newCtx i"] by (simp add: Reduce_placed sound_def)
qed (simp add: Reduce_unplaced blank_state_def)

lemma discard_not_past: "ActionDiscard \<in> set (ActionsFor s) \<Longrightarrow> st_Name s \<noteq> StateRehearsed \<Longrightarrow> \<not> st_PNR s"
  by (auto simp: ActionsFor_iff want_def Let_def split: if_splits)

lemma half_upgraded_word:
  assumes "ack_button action \<in> set (ActionsFor (Reduce i))" "action \<noteq> OSUpgradeAckManual"
    "\<not> (action = OSUpgradeAckDiscard \<and> st_Name (Reduce i) = StateRehearsed)" "PNR (in_Files i)" "\<not> DonePrereboot (in_Files i)"
  shows "NeedsAckWord (Reduce i)"
  using assms discard_not_past [of "Reduce i"] pnr_Reduce [of i] half_upgraded_Reduce [of i] by (cases action) (auto simp: NeedsAckWord_def)

text \<open>
  (C8) The owner lets go of a run only with what it asks for: the button is one of the state; no unit runs, or systemd has been silent for as long as the
  run says and the word is typed; a machine that needs attention, and one that is past the point of no return with the
  last block before the restart not done, is let go of only with the typed word; and the log says that it was closed. A run that
  cannot be read is let go of with the word and a systemd that answers that nothing runs.
\<close>

theorem let_go_only_with_the_word:
  assumes "mc_Current m \<noteq> CurrentNone" "mc_Current (fst (osUpgradeAckLocked w m action word unit)) = CurrentNone"
  shows "case osUpgradeCurrentWith w m unit of
      Inl e \<Rightarrow> e = OSUpgradeRunUnreadable \<and> action = OSUpgradeAckAcknowledge \<and> word = AckWord \<and> u_Answered unit \<and> \<not> u_Active unit
    | Inr (run, state) \<Rightarrow>
        ack_button action \<in> set (ActionsFor state) \<and> action \<noteq> OSUpgradeAckManual \<and> st_Name state \<noteq> StateRehearsed \<and>
        (u_Answered unit \<and> \<not> u_Active unit \<or> \<not> u_Answered unit \<and> st_Reason state = ReasonSystemdSilent \<and> word = AckWord) \<and>
        (st_Name state = StateNeedsAttention \<or> PNR (rf_Files run) \<and> \<not> DonePrereboot (rf_Files run) \<longrightarrow> word = AckWord) \<and>
        (\<exists>run'. mc_Runs (fst (osUpgradeAckLocked w m action word unit)) (rf_ID run) = Some run' \<and>
           (rf_Nonce run \<noteq> [] \<longrightarrow> rf_Markers run' = rf_Markers run @ [carried (ack_line w action)]))"
proof (cases "osUpgradeCurrentWith w m unit")
  case (Inl e)
  then show ?thesis
    using assms by (auto simp: osUpgradeAckLocked_def osUpgradeLetGoOfUnreadable_def osUpgradeCheckWord_def split: if_splits option.splits prod.splits)
next
  case (Inr rs)
  obtain run state where rs: "rs = (run, state)" by fastforce
  have state: "state = Reduce (osUpgradeInputWith w run unit)"
    using Inr rs by (auto simp: osUpgradeCurrentWith_def split: current_run.splits option.splits)
  have files: "in_Files (osUpgradeInputWith w run unit) = rf_Files run" by (simp add: osUpgradeInputWith_def)
  have b: "ack_button action \<in> set (ActionsFor state)"
    using assms Inr rs by (auto simp: osUpgradeAckLocked_def split: if_splits)
  have d: "\<not> (action = OSUpgradeAckDiscard \<and> st_Name state = StateRehearsed)"
    using assms Inr rs b launch_keeps_current [of w m "rf_ID run" PhaseUnwind WhoOwner unit]
    by (auto simp: osUpgradeAckLocked_def split: prod.splits sum.splits)
  have c: "fst (osUpgradeAckLocked w m action word unit) = fst (ack_close w m action word run state)"
    and u: "u_Answered unit \<and> \<not> u_Active unit \<or> \<not> u_Answered unit \<and> st_Reason state = ReasonSystemdSilent \<and> word = AckWord"
    using assms Inr rs b d by (auto simp: osUpgradeAckLocked_def osUpgradeCheckWord_def silent_word_def split: if_splits option.splits)
  have g: "action \<noteq> OSUpgradeAckManual" "NeedsAckWord state \<longrightarrow> word = AckWord"
    "\<exists>run'. mc_Runs (fst (osUpgradeAckLocked w m action word unit)) (rf_ID run) = Some run' \<and>
       (rf_Nonce run \<noteq> [] \<longrightarrow> rf_Markers run' = rf_Markers run @ [carried (ack_line w action)])"
    using ack_close_gone [of w m action word run state] assms unfolding c by blast+
  have "word = AckWord" if "PNR (rf_Files run)" "\<not> DonePrereboot (rf_Files run)"
    using half_upgraded_word [of action "osUpgradeInputWith w run unit"] b d g(1,2) that state files by simp
  moreover have "word = AckWord" if "st_Name state = StateNeedsAttention"
    using that b g(1,2) by (cases action) (auto simp: NeedsAckWord_def ActionsFor_iff want_def)
  moreover have "st_Name state \<noteq> StateRehearsed"
    using b d g(1) by (cases action) (auto simp: ActionsFor_iff want_def)
  ultimately show ?thesis using Inr rs b u g by auto
qed

text \<open>A machine that is half upgraded and whose run is damaged.\<close>

definition half_run :: run_folder where
  "half_run = (example_run [] begun_files)\<lparr>rf_SumsHold := False\<rparr>"

lemma half_state:
  "st_Name (Reduce (osUpgradeInputWith (example_surroundings 0) half_run quiet_unit)) = StateNeedsAttention"
  by (simp add: half_run_def begun_files_def service_eval reduce_eval attention_def cong: let_weak_cong)

lemma half_ack_written: "\<exists>line. Line (ack_line (example_surroundings 0) OSUpgradeAckAcknowledge) example_nonce = Inr line"
proof -
  have "ack_line (example_surroundings 0) OSUpgradeAckAcknowledge =
      (new_marker MkAck 0)\<lparr>mk_Result := Some ResAcknowledge, mk_At := 63871200000 * second\<rparr>"
    by (simp add: ack_line_def ack_result_def example_surroundings_def)
  moreover have "case Line ((new_marker MkAck 0)\<lparr>mk_Result := Some ResAcknowledge, mk_At := 63871200000 * second\<rparr>) example_nonce of
      Inl e \<Rightarrow> False | Inr line \<Rightarrow> True"
    by code_simp
  ultimately show ?thesis by (simp split: sum.splits)
qed

lemma half_closed:
  "mc_Current (fst (osUpgradeAckLocked (example_surroundings 0) (example_machine half_run) OSUpgradeAckAcknowledge AckWord quiet_unit)) = CurrentNone"
proof -
  let ?w = "example_surroundings 0" and ?m = "example_machine half_run"
  let ?state = "Reduce (osUpgradeInputWith ?w half_run quiet_unit)"
  obtain line where l: "Line (ack_line ?w OSUpgradeAckAcknowledge) example_nonce = Inr line" using half_ack_written by blast
  have "osUpgradeCurrentWith ?w ?m quiet_unit = Inr (half_run, ?state)" by (simp add: osUpgradeCurrentWith_def example_machine_def)
  moreover have "ActionAcknowledge \<in> set (ActionsFor ?state)" using half_state by (simp add: ActionsFor_iff want_def)
  moreover have f: "u_Answered quiet_unit" "\<not> u_Active quiet_unit" "rf_Nonce half_run = example_nonce" "wo_LogWritable ?w" "wo_PointerRemovable ?w"
    "\<not> rf_BackupOutside half_run" "example_nonce \<noteq> []"
    by (simp_all add: half_run_def service_eval example_nonce_def)
  ultimately have "osUpgradeAckLocked ?w ?m OSUpgradeAckAcknowledge AckWord quiet_unit = ack_close ?w ?m OSUpgradeAckAcknowledge AckWord half_run ?state"
    by (simp add: osUpgradeAckLocked_def)
  moreover have "osUpgradeCloseLog ?w half_run (ack_result OSUpgradeAckAcknowledge) =
      (half_run\<lparr>rf_Markers := rf_Markers half_run @ [carried (ack_line ?w OSUpgradeAckAcknowledge)]\<rparr>, True)"
    using l f by (simp add: osUpgradeCloseLog_def osUpgradePutAwayBackup_def appendOSUpgradeMarker_def ack_line_def)
  ultimately show ?thesis
    using f by (simp add: ack_close_def osUpgradeCheckWord_def closeOSUpgradeRun_def clearOSUpgradeCurrent_def clearOSUpgradeBusy_def Let_def split: prod.split)
qed

theorem let_go_only_with_the_word_witness:
  "\<exists>run'. mc_Runs (fst (osUpgradeAckLocked (example_surroundings 0) (example_machine half_run) OSUpgradeAckAcknowledge AckWord quiet_unit)) boot_b = Some run' \<and>
     rf_Markers run' = rf_Markers half_run @ [carried (ack_line (example_surroundings 0) OSUpgradeAckAcknowledge)]"
proof -
  let ?w = "example_surroundings 0" and ?m = "example_machine half_run"
  have "mc_Current ?m \<noteq> CurrentNone" by (simp add: example_machine_def)
  moreover have "osUpgradeCurrentWith ?w ?m quiet_unit = Inr (half_run, Reduce (osUpgradeInputWith ?w half_run quiet_unit))"
    by (simp add: osUpgradeCurrentWith_def example_machine_def)
  moreover have "rf_Nonce half_run \<noteq> []" "rf_ID half_run = boot_b" by (simp_all add: half_run_def example_run_def example_nonce_def)
  ultimately show ?thesis using let_go_only_with_the_word [OF _ half_closed] by auto
qed

subsection \<open>The check after the restart\<close>

text \<open>
  What \<open>no_second_launch\<close> leaves out: the restarted machine reads as resuming until the unit of its check says that it has begun, and a
  launch does not count that state as one on its way, so the log alone does not keep a second check away.
\<close>

definition restarted_run :: run_folder where
  "restarted_run = example_run
     [(of_attempt MkAttempt 1 1)\<lparr>mk_Phase := Some PhaseRun, mk_Who := Some WhoOwner\<rparr>,
      (of_attempt MkUnitStart 1 2)\<lparr>mk_Phase := Some PhaseRun, mk_Boot := boot_b\<rparr>,
      (of_attempt MkRebootPending 1 3)\<lparr>mk_Boot := boot_b\<rparr>, (of_attempt MkUnitEnd 1 4)\<lparr>mk_Result := Some ResOk\<rparr>] pending_files"

definition check_attempt :: "int \<Rightarrow> who \<Rightarrow> marker" where
  "check_attempt n by_whom = (new_marker MkAttempt n)\<lparr>mk_Phase := Some PhaseVerify, mk_Who := Some by_whom, mk_At := example_time 10\<rparr>"

definition checking_run :: run_folder where
  "checking_run = restarted_run\<lparr>rf_Lists := [(2, BlockList PhaseVerify pending_files)], rf_Markers := rf_Markers restarted_run @ [check_attempt 2 WhoAuto]\<rparr>"

lemmas restarted_eval = restarted_run_def checking_run_def check_attempt_def pending_eval service_eval reduce_eval

lemma restarted_reads:
  "st_Name (Reduce (osUpgradeInputWith (example_surroundings 10) restarted_run quiet_unit)) = StateResuming"
  by (simp add: restarted_eval cong: let_weak_cong)

lemma checking_reads:
  "st_Name (Reduce (osUpgradeInputWith (example_surroundings 10) checking_run quiet_unit)) = StateResuming"
  by (simp add: restarted_eval cong: let_weak_cong)

lemma check_next:
  "NextAttempt (osUpgradeInputWith (example_surroundings 10) restarted_run quiet_unit) = 2"
  "NextAttempt ((osUpgradeInputWith (example_surroundings 10) restarted_run quiet_unit)
     \<lparr>in_Markers := rf_Markers restarted_run @ [check_attempt 2 WhoAuto]\<rparr>) = 3"
  "NextAttempt (osUpgradeInputWith (example_surroundings 10) checking_run quiet_unit) = 3"
  "NextAttempt ((osUpgradeInputWith (example_surroundings 10) checking_run quiet_unit)
     \<lparr>in_Markers := rf_Markers checking_run @ [check_attempt 3 WhoOwner]\<rparr>) = 4"
  by (simp_all add: NextAttempt_def restarted_eval cong: let_weak_cong)

lemma check_written:
  "carried (check_attempt 2 WhoAuto) = check_attempt 2 WhoAuto"
  "\<exists>line. Line (check_attempt 2 WhoAuto) example_nonce = Inr line" "\<exists>line. Line (check_attempt 3 WhoOwner) example_nonce = Inr line"
  "Validate \<lparr>at_RunID = boot_b, at_Nonce = example_nonce, at_Phase = phase_word PhaseVerify, at_N = 2\<rparr> = None"
  "Validate \<lparr>at_RunID = boot_b, at_Nonce = example_nonce, at_Phase = phase_word PhaseVerify, at_N = 3\<rparr> = None"
  "BlockList PhaseVerify pending_files \<noteq> []" "list_all (\<lambda>b. b \<in> set (osUpgradeBlockIDs RunHop)) (BlockList PhaseVerify pending_files)"
proof -
  have "case Line (check_attempt 2 WhoAuto) example_nonce of Inl e \<Rightarrow> False | Inr line \<Rightarrow> True"
    "case Line (check_attempt 3 WhoOwner) example_nonce of Inl e \<Rightarrow> False | Inr line \<Rightarrow> True" by code_simp+
  then show "\<exists>line. Line (check_attempt 2 WhoAuto) example_nonce = Inr line" "\<exists>line. Line (check_attempt 3 WhoOwner) example_nonce = Inr line"
    by (simp_all split: sum.splits)
qed code_simp+

text \<open>
  A second check is launched right behind the first one, before its unit has begun. What keeps it away is the guard of the reducer's next
  action, which asks whether an attempt is on its way.
\<close>

theorem check_launched_twice:
  "\<exists>m1 m2. launchPrepareLocked (example_surroundings 10) (example_machine restarted_run) boot_b PhaseVerify WhoAuto quiet_unit =
       (m1, Inr (check_attempt 2 WhoAuto)) \<and>
     launchPrepareLocked (example_surroundings 10) m1 boot_b PhaseVerify WhoOwner quiet_unit = (m2, Inr (check_attempt 3 WhoOwner))"
proof -
  let ?w = "example_surroundings 10"
  define m1 where "m1 = (put_run (example_machine restarted_run) checking_run)\<lparr>mc_Launching := 1\<rparr>"
  have f: "rf_Nonce restarted_run = example_nonce" "rf_ID restarted_run = boot_b" "rf_Files restarted_run = pending_files" "rf_Kind restarted_run = RunHop"
    "rf_SumsHold restarted_run" "length (rf_Markers restarted_run) = 6" "rf_Lists restarted_run = []"
    "wo_Supported ?w" "wo_ListWritable ?w" "wo_LogWritable ?w" "u_Answered quiet_unit" "\<not> u_Active quiet_unit"
    by (simp_all add: restarted_run_def service_eval)
  have g: "rf_Nonce checking_run = example_nonce" "rf_ID checking_run = boot_b" "rf_Files checking_run = pending_files" "rf_Kind checking_run = RunHop"
    "rf_SumsHold checking_run" "length (rf_Markers checking_run) = 7" "mc_Launching (example_machine restarted_run) = 0"
    using f by (simp_all add: checking_run_def example_machine_def)
  have a: "attempt_marker ?w run PhaseVerify by_whom n = check_attempt n by_whom" for run by_whom n
    by (simp add: attempt_marker_def check_attempt_def example_surroundings_def new_marker_def)
  have c: "\<not> st_Closed (Reduce (osUpgradeInputWith ?w restarted_run quiet_unit))" "\<not> st_Closed (Reduce (osUpgradeInputWith ?w checking_run quiet_unit))"
    by (simp_all add: restarted_eval cong: let_weak_cong)
  obtain l2 l3 where l: "Line (check_attempt 2 WhoAuto) example_nonce = Inr l2" "Line (check_attempt 3 WhoOwner) example_nonce = Inr l3"
    using check_written(2,3) by blast
  have r: "mc_Runs (example_machine restarted_run) boot_b = Some restarted_run" "mc_Runs m1 boot_b = Some checking_run"
    using f g by (simp_all add: example_machine_def m1_def put_run_def)
  have "launchPrepareLocked ?w (example_machine restarted_run) boot_b PhaseVerify WhoAuto quiet_unit = (m1, Inr (check_attempt 2 WhoAuto))"
    using launch_goes [OF r(1), where n = 2 and unit = quiet_unit and w = ?w and phase = PhaseVerify and who = WhoAuto and line = l2]
      f g c l a check_written begun_writes(1) check_next restarted_reads by (simp add: live_state_def m1_def checking_run_def)
  moreover have "\<exists>m2. launchPrepareLocked ?w m1 boot_b PhaseVerify WhoOwner quiet_unit = (m2, Inr (check_attempt 3 WhoOwner))"
    using launch_goes [OF r(2), where n = 3 and unit = quiet_unit and w = ?w and phase = PhaseVerify and who = WhoOwner and line = l3]
      f g c l a check_written begun_writes(1) check_next checking_reads by (simp add: live_state_def)
  ultimately show ?thesis by blast
qed

end
