(* ===== verification/OsverifyFacts.thy ===== *)
theory OsverifyFacts
  imports Osverify
begin

section \<open>The judge: what a verdict says\<close>

text \<open>
  Every check of the judge only adds findings of its own codes; the contract is a locale, and each check is an instance of it. From it: the
  verdict has no error exactly when six things are as the upgrade promised, no warning exactly when nine others are, and what is shown is in order, bounded and
  harmless.
\<close>

subsection \<open>The text that is shown\<close>

lemma four_bytes:
  obtains "s = []" | a where "s = [a]" | a b where "s = [a, b]" | a b c where "s = [a, b, c]" | a b c d t where "s = a # b # c # d # t"
  by (metis neq_Nil_conv)

lemma decode_stable:
  assumes "s \<noteq> []" "decode_rune s = (r, n)" "r \<noteq> RuneError \<or> n \<noteq> 1"
  shows "decode_rune (take n s @ u) = (r, n)"
proof -
  have "fst (decode_rune s) \<noteq> RuneError \<or> snd (decode_rune s) \<noteq> 1" using assms by simp
  then have "decode_rune (take (snd (decode_rune s)) s @ u) = decode_rune s"
    using assms(1) by (cases s rule: four_bytes) (simp_all add: decode_rune_def Let_def take_Cons' split: if_splits)
  then show ?thesis using assms(2) by simp
qed

definition good_rune :: "int \<times> string \<Rightarrow> bool" where
  "good_rune p \<longleftrightarrow> snd p \<noteq> [] \<and> (fst p \<noteq> RuneError \<or> length (snd p) \<noteq> 1) \<and> decode_rune (snd p) = (fst p, length (snd p))"

lemma runes_good: "p \<in> set (runes s) \<Longrightarrow> fst p \<noteq> RuneError \<or> length (snd p) \<noteq> 1 \<Longrightarrow> good_rune p"
proof (induction s rule: runes.induct)
  case (2 c s)
  let ?d = "decode_rune (c # s)"
  show ?case
  proof (cases "p = (fst ?d, take (snd ?d) (c # s))")
    case True
    have l: "length (take (snd ?d) (c # s)) = snd ?d" using decode_width_le [of c s] by simp
    then have "decode_rune (take (snd ?d) (c # s) @ []) = ?d"
      using decode_stable [of "c # s" "fst ?d" "snd ?d" "[]"] 2(3) True by simp
    moreover have "take (snd ?d) (c # s) \<noteq> []" using decode_width_pos [of c s] by simp
    ultimately show ?thesis using 2(3) True l by (simp add: good_rune_def)
  next
    case False
    then show ?thesis using 2 by simp
  qed
qed simp

lemma runes_concat: "list_all good_rune ps \<Longrightarrow> runes (concat (map snd ps)) = ps"
proof (induction ps)
  case (Cons p ps)
  obtain c t where c: "snd p = c # t" using Cons(2) by (cases "snd p") (auto simp: good_rune_def)
  have d: "decode_rune (snd p) = (fst p, length (snd p))" "fst p \<noteq> RuneError \<or> length (snd p) \<noteq> 1" using Cons(2) by (auto simp: good_rune_def)
  have "decode_rune (take (length (snd p)) (snd p) @ concat (map snd ps)) = (fst p, length (snd p))"
    by (rule decode_stable [OF _ d(1)]) (use d c in auto)
  then have "decode_rune (c # t @ concat (map snd ps)) = (fst p, Suc (length t))" using c by simp
  then show ?case using Cons c by (cases p) simp
qed simp

lemma valid_concat: "list_all good_rune ps \<Longrightarrow> valid_text (concat (map snd ps))"
  using runes_concat [of ps] by (auto simp: valid_text_def good_rune_def list_all_iff)

lemma until_valid_props: "valid_text (until_valid s) \<and> (\<exists>t. s = until_valid s @ t)"
proof (induction s rule: until_valid.induct)
  case (1 s)
  show ?case
  proof (cases "valid_text s")
    case False
    then have "s \<noteq> []" by auto
    then show ?thesis using 1 [OF False] False by (metis append.assoc append_butlast_last_id until_valid.simps)
  qed (simp add: until_valid.simps)
qed

definition plain_byte :: "char \<Rightarrow> bool" where
  "plain_byte c \<longleftrightarrow> 0x20 \<le> (of_char c :: int) \<and> of_char c \<noteq> (0x7F :: int)"

lemma multi_byte: "decode_rune s = (r, n) \<Longrightarrow> n \<noteq> 1 \<Longrightarrow> c \<in> set (take n s) \<Longrightarrow> 0x80 \<le> (of_char c :: int)"
  by (auto simp: decode_rune_def Let_def byte_in_def second_lo_def split: list.splits if_splits)

lemma shown_plain: "p \<in> set (runes s) \<Longrightarrow> shown_rune (fst p) \<Longrightarrow> c \<in> set (snd p) \<Longrightarrow> plain_byte c"
proof -
  assume p: "p \<in> set (runes s)" "shown_rune (fst p)" "c \<in> set (snd p)"
  then have g: "decode_rune (snd p) = (fst p, length (snd p))" using runes_good [OF p(1)] by (auto simp: shown_rune_def good_rune_def)
  show "plain_byte c"
  proof (cases "length (snd p) = 1")
    case True
    then obtain d where d: "snd p = [d]" by (cases "snd p") auto
    then have "c = d" using p(3) by simp
    moreover have "of_char d = fst p" using g p(2) d by (auto simp: decode_rune_def Let_def shown_rune_def split: if_splits)
    ultimately show ?thesis using p(2) by (auto simp: plain_byte_def shown_rune_def IsControl_def)
  next
    case False
    then have "0x80 \<le> (of_char c :: int)" using multi_byte [OF g False, of c] p(3) by simp
    then show ?thesis by (simp add: plain_byte_def)
  qed
qed

lemma clean_safe: "length (clean s) \<le> 200 \<and> valid_text (clean s) \<and> list_all plain_byte (clean s)"
proof -
  let ?ps = "filter (\<lambda>p. shown_rune (fst p)) (runes s)"
  let ?t = "concat (map snd ?ps)"
  have "list_all good_rune ?ps" using runes_good [of _ s] by (auto simp: list_all_iff shown_rune_def)
  then have v: "valid_text ?t" by (rule valid_concat)
  have b: "list_all plain_byte ?t" using shown_plain [of _ s] by (auto simp: list_all_iff)
  obtain u where u: "take 200 ?t = until_valid (take 200 ?t) @ u" using until_valid_props [of "take 200 ?t"] by blast
  have "length (until_valid (take 200 ?t)) \<le> length (take 200 ?t)" using arg_cong [OF u, of length] by simp
  moreover have "set (until_valid (take 200 ?t)) \<subseteq> set ?t" using arg_cong [OF u, of set] set_take_subset [of 200 ?t] by auto
  ultimately show ?thesis
    using v b until_valid_props [of "take 200 ?t"] by (auto simp: clean_def Let_def list_all_iff)
qed

subsection \<open>The contract of a check\<close>

definition has :: "code \<Rightarrow> judge \<Rightarrow> bool" where
  "has c j \<longleftrightarrow> c \<in> fi_Code ` set (jd_out j)"

definition finding_ok :: "finding \<Rightarrow> bool" where
  "finding_ok f \<longleftrightarrow>
     fi_Severity f = severities (fi_Code f) \<and> length (fi_Arg f) \<le> 200 \<and> valid_text (fi_Arg f) \<and> list_all plain_byte (fi_Arg f)"

definition out_ok :: "judge \<Rightarrow> bool" where
  "out_ok j \<longleftrightarrow> list_all finding_ok (jd_out j) \<and> (\<forall>c. length (filter (\<lambda>f. fi_Code f = c) (jd_out j)) \<le> maxPerCode)"

definition adds_only :: "code set \<Rightarrow> judge \<Rightarrow> judge \<Rightarrow> bool" where
  "adds_only codes j j' \<longleftrightarrow>
     jd_before j' = jd_before j \<and> jd_after j' = jd_after j \<and> jd_restart j' = jd_restart j \<and> jd_bk j' = jd_bk j \<and>
     (\<exists>fs. jd_out j' = jd_out j @ fs \<and> fi_Code ` set fs \<subseteq> codes) \<and> (out_ok j \<longrightarrow> out_ok j')"

named_theorems adds \<open>the steps of the judge add only findings of their codes\<close>

lemma adds_refl [adds]: "adds_only codes j j"
  by (simp add: adds_only_def)

lemma judge_adds_trans: "adds_only codes j j1 \<Longrightarrow> adds_only codes j1 j2 \<Longrightarrow> adds_only codes j j2"
  unfolding adds_only_def by (elim conjE exE) auto

lemma adds_changed [adds]: "adds_only codes j (j\<lparr>jd_changed := xs\<rparr>)"
  by (simp add: adds_only_def out_ok_def)

lemma judge_adds_say [adds]: "c \<in> codes \<Longrightarrow> adds_only codes j (judge_add c arg apps policy j)"
  using clean_safe [of arg] by (auto simp: adds_only_def judge_add_def out_ok_def finding_ok_def)

lemma adds_fold [adds]: "(\<And>x j. adds_only codes j (f x j)) \<Longrightarrow> adds_only codes j (fold f xs j)"
proof (induction xs arbitrary: j)
  case (Cons x xs)
  then show ?case using judge_adds_trans [of codes j "f x j"] by simp
qed (simp add: adds_refl)

lemma has_say [simp]: "has c (judge_add c' arg apps policy j) \<longleftrightarrow> has c j \<or> c = c'"
proof (cases "maxPerCode \<le> length (filter (\<lambda>f. fi_Code f = c') (jd_out j))")
  case True
  then have "filter (\<lambda>f. fi_Code f = c') (jd_out j) \<noteq> []" by (auto simp: maxPerCode_def)
  then have "has c' j" by (auto simp: has_def filter_empty_conv)
  then show ?thesis using True by (auto simp: judge_add_def)
next
  case False
  then show ?thesis by (auto simp: judge_add_def has_def)
qed

lemma has_changed [simp]: "has c (j\<lparr>jd_changed := xs\<rparr>) = has c j"
  by (simp add: has_def)

lemma has_fold_say: "has c (fold (\<lambda>x. judge_add c' (f x) (g x) (h x)) xs j) \<longleftrightarrow> has c j \<or> c = c' \<and> xs \<noteq> []"
  by (induction xs arbitrary: j) auto

locale judge_check =
  fixes check :: "judge \<Rightarrow> judge" and codes :: "code set"
  assumes only_adds: "adds_only codes j (check j)"
begin

lemma inputs:
  "jd_before (check j) = jd_before j" "jd_after (check j) = jd_after j" "jd_restart (check j) = jd_restart j" "jd_bk (check j) = jd_bk j"
  using only_adds [of j] by (simp_all add: adds_only_def)

lemma keeps_out: "out_ok j \<Longrightarrow> out_ok (check j)"
  using only_adds [of j] by (simp add: adds_only_def)

lemma other_codes: "c \<notin> codes \<Longrightarrow> has c (check j) = has c j"
proof -
  assume c: "c \<notin> codes"
  obtain fs where "jd_out (check j) = jd_out j @ fs" "fi_Code ` set fs \<subseteq> codes" using only_adds [of j] unfolding adds_only_def by blast
  then show ?thesis using c unfolding has_def by (simp add: image_Un) blast
qed

lemma keeps_found: "has c j \<Longrightarrow> has c (check j)"
  using only_adds [of j] by (auto simp: adds_only_def has_def)

end

interpretation kernel: judge_check judge_kernel "{CodeKernelUnexpected}"
  by unfold_locales (auto simp: judge_kernel_def intro: adds split: list.split)

lemma adds_unit [adds]: "adds_only {CodeCasaosUnitDown} j (judge_unit before u j)"
  by (auto simp: judge_unit_def Let_def intro: adds)

interpretation units: judge_check judge_casaosUnits "{CodeCasaosUnitDown}"
  by unfold_locales (auto simp: judge_casaosUnits_def Let_def intro: adds)

interpretation dockerDown: judge_check judge_dockerDown "{CodeDockerDown}"
  by unfold_locales (auto simp: judge_dockerDown_def intro: adds)

interpretation mounts: judge_check judge_mounts "{CodeMountsMissing}"
  by unfold_locales (auto simp: judge_mounts_def Let_def intro!: adds)

interpretation dpkgQuiet: judge_check judge_dpkgQuiet "{CodeDpkgNotQuiet}"
  by unfold_locales (auto simp: judge_dpkgQuiet_def intro: adds)

interpretation ready: judge_check judge_systemReady "{CodeSystemNotReady}"
  by unfold_locales (auto simp: judge_systemReady_def intro: adds)

interpretation failed: judge_check judge_failedUnits "{CodeUnitsFailedNew}"
  by unfold_locales (auto simp: judge_failedUnits_def intro!: adds split: option.split)

interpretation ports: judge_check judge_ports "{CodePortsMissing}"
  by unfold_locales (auto simp: judge_ports_def intro!: adds split: option.split)

interpretation samba: judge_check judge_samba "{CodeSambaUsersChanged}"
  by unfold_locales (auto simp: judge_samba_def intro: adds)

interpretation route: judge_check judge_route "{CodeRouteMissing}"
  by unfold_locales (auto simp: judge_route_def intro: adds)

interpretation dns: judge_check judge_dns "{CodeDNSMissing}"
  by unfold_locales (auto simp: judge_dns_def intro: adds)

interpretation dockerVersion: judge_check judge_dockerVersion "{CodeDockerVersionChanged}"
  by unfold_locales (auto simp: judge_dockerVersion_def Let_def intro: adds)

interpretation dockerSource: judge_check judge_dockerSource "{CodeDockerSourceUnreachable, CodeDockerSourceNotPublished}"
  by unfold_locales (auto simp: judge_dockerSource_def intro: adds split: list.split)

interpretation warnings: judge_check judge_prerebootWarnings "{CodePrerebootWarning}"
  by unfold_locales (auto simp: judge_prerebootWarnings_def intro!: adds)

lemma adds_container [adds]: "adds_only {CodeContainerNotReturned} j (judge_container off c j)"
  by (auto simp: judge_container_def intro: adds split: prod.split)

interpretation containers: judge_check judge_containers "{CodeContainerNotReturned}"
  by unfold_locales (auto simp: judge_containers_def intro: adds)

interpretation dpkgFiles: judge_check judge_dpkgFiles "{CodeDpkgDistNew}"
  by unfold_locales (auto simp: judge_dpkgFiles_def intro!: adds split: option.split)

interpretation paused: judge_check judge_paused "{CodeDockerSourcePaused, CodeSourcesLeftPaused}"
  by unfold_locales (auto simp: judge_paused_def intro!: adds)

interpretation incomplete: judge_check judge_incomplete "{CodeFactsIncomplete}"
  by unfold_locales (auto simp: judge_incomplete_def intro: adds)

interpretation changed: judge_check judge_addChanged "{CodeChangedSinceSnapshot}"
  by unfold_locales (auto simp: judge_addChanged_def intro!: adds)

lemmas check_inputs = kernel.inputs units.inputs dockerDown.inputs mounts.inputs dpkgQuiet.inputs ready.inputs failed.inputs ports.inputs samba.inputs
  route.inputs dns.inputs dockerVersion.inputs dockerSource.inputs warnings.inputs containers.inputs dpkgFiles.inputs paused.inputs incomplete.inputs
  changed.inputs

lemmas check_keeps = kernel.keeps_out units.keeps_out dockerDown.keeps_out mounts.keeps_out dpkgQuiet.keeps_out ready.keeps_out failed.keeps_out ports.keeps_out
  samba.keeps_out route.keeps_out dns.keeps_out dockerVersion.keeps_out dockerSource.keeps_out warnings.keeps_out containers.keeps_out dpkgFiles.keeps_out
  paused.keeps_out incomplete.keeps_out changed.keeps_out

lemmas check_others = kernel.other_codes units.other_codes dockerDown.other_codes mounts.other_codes dpkgQuiet.other_codes ready.other_codes failed.other_codes
  ports.other_codes samba.other_codes route.other_codes dns.other_codes dockerVersion.other_codes dockerSource.other_codes warnings.other_codes
  containers.other_codes dpkgFiles.other_codes paused.other_codes incomplete.other_codes changed.other_codes

subsection \<open>What each check looks for\<close>

definition kernel_expected :: "bk_files \<Rightarrow> string option" where
  "kernel_expected bk = (case bk_list bk BKKernel of k # _ \<Rightarrow> if kernelPattern k then Some k else None | [] \<Rightarrow> None)"

definition kernel_wrong :: "facts \<Rightarrow> bk_files \<Rightarrow> bool" where
  "kernel_wrong a bk \<longleftrightarrow> Knows a FactKernel \<and> (\<exists>k. kernel_expected bk = Some k \<and> fa_Kernel a \<noteq> k)"

definition unit_lost :: "facts \<Rightarrow> bk_files \<Rightarrow> facts \<Rightarrow> string \<Rightarrow> bool" where
  "unit_lost a bk r u \<longleftrightarrow>
     map_of (casaosUnitStates bk) u = Some ''active'' \<and> u \<notin> set transientUnits \<and> lookup_or [] (fa_Units a) u \<notin> {''unknown'', ''active'', ''reloading''} \<and>
     \<not> (Knows r FactUnits \<and> lookup_or [] (fa_Units r) u = ''inactive'')"

definition docker_lost :: "facts \<Rightarrow> facts \<Rightarrow> bk_files \<Rightarrow> bool" where
  "docker_lost b a bk \<longleftrightarrow>
     Knows a FactDocker \<and> dk_State (fa_Docker a) \<noteq> DockerUp \<and>
     (if Knows b FactDocker then dk_State (fa_Docker b) = DockerUp else bkRunning bk \<noteq> [])"

text \<open>A mount that matters is lost: a pool, a branch of a pool that is there, or a mount that an app or a pool depends on.\<close>

definition app_on :: "facts \<Rightarrow> string \<Rightarrow> bool" where
  "app_on b mp \<longleftrightarrow> Knows b FactContainers \<and> (\<exists>c\<in>set (dk_Containers (fa_Docker b)). \<exists>x\<in>set (ct_Binds c). within x mp \<or> within mp x)"

definition pool_on :: "facts \<Rightarrow> string \<Rightarrow> bool" where
  "pool_on b mp \<longleftrightarrow> (\<exists>pool\<in>fst ` set (fa_Pools b). mp \<in> set (branchMounts (lookup_or [] (fa_Pools b) pool) (fa_Mounts b)))"

definition mount_lost :: "facts \<Rightarrow> facts \<Rightarrow> bool" where
  "mount_lost b a \<longleftrightarrow>
     Knows b FactMounts \<and> Knows a FactMounts \<and>
     (\<not> set (fa_Mergerfs b) \<subseteq> set (fa_Mergerfs a) \<or>
      (\<exists>pool\<in>fst ` set (fa_Pools b). pool \<in> set (fa_Mergerfs a) \<and> \<not> set (lookup_or [] (fa_Pools b) pool) \<subseteq> set (lookup_or [] (fa_Pools a) pool)) \<or>
      (\<exists>mp\<in>set (fa_Mounts b). mp \<noteq> ''/'' \<and> mp \<notin> set (fa_Mounts a) \<and> (app_on b mp \<or> pool_on b mp)))"

lemma has_kernel: "has c (judge_kernel j) \<longleftrightarrow> has c j \<or> c = CodeKernelUnexpected \<and> kernel_wrong (jd_after j) (jd_bk j)"
  by (auto simp: judge_kernel_def kernel_wrong_def kernel_expected_def split: list.split)

lemma unit_inputs [simp]:
  "jd_after (judge_unit before u j) = jd_after j" "jd_restart (judge_unit before u j) = jd_restart j" "jd_bk (judge_unit before u j) = jd_bk j"
  using adds_unit [of j before u] by (simp_all add: adds_only_def)

lemma has_unit:
  "has c (judge_unit (casaosUnitStates bk) u j) \<longleftrightarrow> has c j \<or> c = CodeCasaosUnitDown \<and> unit_lost (jd_after j) bk (jd_restart j) u"
  by (auto simp: judge_unit_def unit_lost_def upStates_def unitUnknown_def Let_def, auto simp: lookup_or_def split: option.splits)

lemma has_units_fold:
  "has c (fold (judge_unit (casaosUnitStates bk)) us j) \<longleftrightarrow> has c j \<or> c = CodeCasaosUnitDown \<and> (\<exists>u\<in>set us. unit_lost (jd_after j) bk (jd_restart j) u)"
  by (induction us arbitrary: j) (auto simp: has_unit)

lemma set_sortedKeys [simp]: "set (sortedKeys m) = fst ` set m"
  by (simp add: sortedKeys_def)

lemma has_units:
  "has c (judge_casaosUnits j) \<longleftrightarrow>
     has c j \<or> c = CodeCasaosUnitDown \<and> Knows (jd_after j) FactUnits \<and> (\<exists>u. unit_lost (jd_after j) (jd_bk j) (jd_restart j) u)"
proof -
  have k: "u \<in> fst ` set (casaosUnitStates bk)" if "unit_lost a bk r u" for a bk r u
    using that unfolding unit_lost_def by (metis domI dom_map_of_conv_image_fst)
  have u: "(\<exists>u\<in>set (sortedKeys (casaosUnitStates bk)). unit_lost a bk r u) \<longleftrightarrow> (\<exists>u. unit_lost a bk r u)" for a bk r
    unfolding set_sortedKeys using k [of a bk r] by (simp only: Bex_def) blast
  show ?thesis
  proof (cases "Knows (jd_after j) FactUnits")
    case True
    then have "judge_casaosUnits j = fold (judge_unit (casaosUnitStates (jd_bk j))) (sortedKeys (casaosUnitStates (jd_bk j))) j"
      by (simp add: judge_casaosUnits_def Let_def)
    then have "has c (judge_casaosUnits j) \<longleftrightarrow> has c j \<or> c = CodeCasaosUnitDown \<and> (\<exists>u. unit_lost (jd_after j) (jd_bk j) (jd_restart j) u)"
      unfolding u [symmetric] has_units_fold [symmetric] by (rule arg_cong)
    then show ?thesis using True by blast
  qed (simp add: judge_casaosUnits_def)
qed

lemma has_dockerDown: "has c (judge_dockerDown j) \<longleftrightarrow> has c j \<or> c = CodeDockerDown \<and> docker_lost (jd_before j) (jd_after j) (jd_bk j)"
  by (auto simp: judge_dockerDown_def docker_lost_def)

subsection \<open>Mounts\<close>

lemma fold_nonempty:
  assumes "\<And>x a. f x a \<noteq> [] \<longleftrightarrow> a \<noteq> [] \<or> P x"
  shows "fold f xs a \<noteq> [] \<longleftrightarrow> a \<noteq> [] \<or> (\<exists>x\<in>set xs. P x)"
  using assms by (induction xs arbitrary: a) auto

lemma say_apps_nonempty [simp]: "say_apps mp found a \<noteq> []"
  by (simp add: say_apps_def put_def)

lemma fold_say_apps: "a \<noteq> [] \<Longrightarrow> fold (\<lambda>x. say_apps (f x) (g x)) xs a \<noteq> []"
  by (induction xs arbitrary: a) auto

lemma lookup_say_apps: "lookup_or [] (say_apps k v m) x = (if x = k then lookup_or [] m k @ v else lookup_or [] m x)"
proof -
  have "map_of (filter (\<lambda>p. fst p \<noteq> k) m) x = map_of m x" if "x \<noteq> k" using that by (induction m) auto
  then show ?thesis by (simp add: say_apps_def put_def lookup_or_def)
qed

lemma lookup_fold_say: "lookup_or [] (fold (\<lambda>br. say_apps br [pool]) brs m) x \<noteq> [] \<longleftrightarrow> lookup_or [] m x \<noteq> [] \<or> x \<in> set brs"
  by (induction brs arbitrary: m) (auto simp: lookup_say_apps)

lemma branch_of_iff: "lookup_or [] (branch_of b) mp \<noteq> [] \<longleftrightarrow> pool_on b mp"
proof -
  have "lookup_or [] (fold (\<lambda>pool m. fold (\<lambda>br. say_apps br [pool]) (g pool) m) ps m) mp \<noteq> [] \<longleftrightarrow> lookup_or [] m mp \<noteq> [] \<or> (\<exists>pool\<in>set ps. mp \<in> set (g pool))"
    for g :: "string \<Rightarrow> string list" and ps m
  proof (induction ps arbitrary: m)
    case (Cons p ps)
    then show ?case using lookup_fold_say [of p "g p" m mp] by auto
  qed simp
  note iff = this
  have "lookup_or [] ([] :: (string \<times> string list) list) mp = []" by (simp add: lookup_or_def)
  then show ?thesis using iff [of "\<lambda>pool. branchMounts (lookup_or [] (fa_Pools b) pool) (fa_Mounts b)" "sortedKeys (fa_Pools b)" "[]"]
    by (simp add: branch_of_def pool_on_def)
qed

lemma appsOn_iff: "appsOn j mp \<noteq> [] \<longleftrightarrow> app_on (jd_before j) mp"
  by (auto simp: appsOn_def app_on_def known_containers_def filter_empty_conv list_ex_iff)

lemma lost_pools_iff: "lost_pools j a \<noteq> [] \<longleftrightarrow> a \<noteq> [] \<or> \<not> set (fa_Mergerfs (jd_before j)) \<subseteq> set (fa_Mergerfs (jd_after j))"
  unfolding lost_pools_def by (subst fold_nonempty [where P = "\<lambda>mp. mp \<notin> set (fa_Mergerfs (jd_after j))"]) auto

lemma lost_branches_iff:
  "lost_branches j a \<noteq> [] \<longleftrightarrow>
     a \<noteq> [] \<or> (\<exists>pool\<in>fst ` set (fa_Pools (jd_before j)). pool \<in> set (fa_Mergerfs (jd_after j)) \<and>
       \<not> set (lookup_or [] (fa_Pools (jd_before j)) pool) \<subseteq> set (lookup_or [] (fa_Pools (jd_after j)) pool))"
proof -
  let ?P = "\<lambda>pool. pool \<in> set (fa_Mergerfs (jd_after j)) \<and> \<not> set (lookup_or [] (fa_Pools (jd_before j)) pool) \<subseteq> set (lookup_or [] (fa_Pools (jd_after j)) pool)"
  have i: "fold (\<lambda>br a. if br \<in> set (lookup_or [] (fa_Pools (jd_after j)) pool) then a else say_apps br (appsUnder j pool) a) brs a \<noteq> [] \<longleftrightarrow>
      a \<noteq> [] \<or> \<not> set brs \<subseteq> set (lookup_or [] (fa_Pools (jd_after j)) pool)" for pool brs a
    by (subst fold_nonempty [where P = "\<lambda>br. br \<notin> set (lookup_or [] (fa_Pools (jd_after j)) pool)"]) auto
  show ?thesis
    unfolding lost_branches_def by (subst fold_nonempty [where P = ?P]) (auto simp: i)
qed

lemma lost_mounts_iff:
  "lost_mounts j a \<noteq> [] \<longleftrightarrow>
     a \<noteq> [] \<or> (\<exists>mp\<in>set (fa_Mounts (jd_before j)). mp \<noteq> ''/'' \<and> mp \<notin> set (fa_Mounts (jd_after j)) \<and> (app_on (jd_before j) mp \<or> pool_on (jd_before j) mp))"
proof -
  let ?P = "\<lambda>mp. mp \<noteq> ''/'' \<and> mp \<notin> set (fa_Mounts (jd_after j)) \<and> (app_on (jd_before j) mp \<or> pool_on (jd_before j) mp)"
  have f: "fold (\<lambda>pool. say_apps mp (appsUnder j pool)) ps (say_apps mp found a) \<noteq> []" for mp ps found a
    by (rule fold_say_apps [where f = "\<lambda>_. mp"]) simp
  show ?thesis
    unfolding lost_mounts_def
    by (subst fold_nonempty [where P = ?P]) (auto simp: Let_def f appsOn_iff [symmetric] branch_of_iff [symmetric])
qed

lemma has_mounts: "has c (judge_mounts j) \<longleftrightarrow> has c j \<or> c = CodeMountsMissing \<and> mount_lost (jd_before j) (jd_after j)"
proof -
  let ?apps = "lost_mounts j (lost_branches j (lost_pools j []))"
  have "sortedKeys ?apps \<noteq> [] \<longleftrightarrow> ?apps \<noteq> []" by (metis set_sortedKeys image_is_empty set_empty)
  then show ?thesis
    by (auto simp: judge_mounts_def Let_def has_fold_say mount_lost_def lost_mounts_iff lost_branches_iff lost_pools_iff)
qed

subsection \<open>What the warnings are for\<close>

definition lists_of :: "facts \<Rightarrow> bk_files \<Rightarrow> bk_name \<Rightarrow> bk_name \<Rightarrow> fact \<Rightarrow> (facts \<Rightarrow> string list) \<Rightarrow> string list \<Rightarrow> string list \<Rightarrow> bool" where
  "lists_of a bk was is x now old new \<longleftrightarrow>
     bkLines bk was = Some old \<and> (if Knows a x then new = now a else bkLines bk is = Some new)"

definition unit_fails :: "facts \<Rightarrow> bk_files \<Rightarrow> bool" where
  "unit_fails a bk \<longleftrightarrow>
     (\<exists>old new. lists_of a bk BKFailedUnits BKFailedUnitsAfter FactFailed fa_Failed old new \<and> (\<exists>u\<in>set new. u \<notin> set old \<and> unitNamePattern u))"

definition port_lost :: "facts \<Rightarrow> bk_files \<Rightarrow> bool" where
  "port_lost a bk \<longleftrightarrow>
     (\<exists>old new. lists_of a bk BKListening BKListeningAfter FactListening fa_Listening old new \<and>
        (\<exists>p. p < ephemeralPort \<and> Some p \<in> port_of ` set old \<and> Some p \<notin> port_of ` set new))"

definition docker_changed :: "facts \<Rightarrow> facts \<Rightarrow> bool" where
  "docker_changed b a \<longleftrightarrow>
     Knows b FactDocker \<and> Knows a FactDocker \<and> dk_State (fa_Docker b) = DockerUp \<and> dk_State (fa_Docker a) = DockerUp \<and>
     (let v = dk_Version (fa_Docker b); w = dk_Version (fa_Docker a); e = dk_EngineID (fa_Docker b); f = dk_EngineID (fa_Docker a)
      in v \<noteq> [] \<and> w \<noteq> [] \<and> v \<noteq> w \<or> e \<noteq> [] \<and> f \<noteq> [] \<and> e \<noteq> f)"

text \<open>The first line of a container in the list that block 2 wrote of those that ran: its policy.\<close>

definition runs_first :: "string list \<Rightarrow> string \<Rightarrow> string \<Rightarrow> bool" where
  "runs_first lines n p \<longleftrightarrow>
     (\<exists>ls line rs. lines = ls @ line # rs \<and> container_line line = Some (n, p, ''running'') \<and>
        (\<forall>l\<in>set ls. \<forall>q. container_line l \<noteq> Some (n, q, ''running'')))"

definition ran_with :: "bk_files \<Rightarrow> string \<Rightarrow> string \<Rightarrow> bool" where
  "ran_with bk n p \<longleftrightarrow> runs_first (bk_list bk BKContainers) n p"

definition runs_in :: "facts \<Rightarrow> string \<Rightarrow> bool" where
  "runs_in f n \<longleftrightarrow> n \<in> ct_Name ` set (dk_Containers (fa_Docker f))"

definition containers_seen :: "facts \<Rightarrow> bool" where
  "containers_seen f \<longleftrightarrow> Knows f FactDocker \<and> Knows f FactContainers \<and> dk_State (fa_Docker f) = DockerUp"

definition container_lost :: "facts \<Rightarrow> bk_files \<Rightarrow> facts \<Rightarrow> bool" where
  "container_lost a bk r \<longleftrightarrow>
     containers_seen a \<and>
     (\<exists>n p. ran_with bk n p \<and> \<not> runs_in a n \<and> p \<notin> {[], ''no''} \<and> \<not> (containers_seen r \<and> \<not> runs_in r n))"

lemma new_lines_set: "set (new_lines old ls valid) = {l \<in> set ls. l \<notin> set old \<and> valid l}"
  by (induction old ls valid rule: new_lines.induct) auto

lemma nonempty_set: "xs \<noteq> [] \<longleftrightarrow> (\<exists>x. x \<in> set xs)"
  by (cases xs) auto

lemma two_lists_iff: "two_lists j was is x now = Some (old, new) \<longleftrightarrow> lists_of (jd_after j) (jd_bk j) was is x now old new"
  by (auto simp: two_lists_def lists_of_def Let_def split: option.splits)

lemma has_failedUnits: "has c (judge_failedUnits j) \<longleftrightarrow> has c j \<or> c = CodeUnitsFailedNew \<and> unit_fails (jd_after j) (jd_bk j)"
proof (cases "two_lists j BKFailedUnits BKFailedUnitsAfter FactFailed fa_Failed")
  case None
  then have "\<not> unit_fails (jd_after j) (jd_bk j)" unfolding unit_fails_def two_lists_iff [symmetric] by simp
  then show ?thesis using None by (simp add: judge_failedUnits_def)
next
  case (Some p)
  obtain old new where p: "p = (old, new)" by fastforce
  have "unit_fails (jd_after j) (jd_bk j) \<longleftrightarrow> newLines old new unitNamePattern \<noteq> []"
    using Some p unfolding unit_fails_def two_lists_iff [symmetric] nonempty_set by (auto simp: newLines_def new_lines_set)
  then show ?thesis using Some p has_fold_say [where f = "\<lambda>x. x" and g = "\<lambda>_. []" and h = "\<lambda>_. []"] by (simp add: judge_failedUnits_def)
qed

lemma set_portsOf: "p \<in> set (portsOf ls) \<longleftrightarrow> Some p \<in> port_of ` set ls"
proof -
  have "p \<in> set (portsOf ls) \<longleftrightarrow> (\<exists>l\<in>set ls. port_of l = Some p)"
    by (induction ls) (auto simp: portsOf_def List.map_filter_def split: option.splits)
  then show ?thesis by (auto simp: image_iff dest: sym intro: sym)
qed

lemma has_ports: "has c (judge_ports j) \<longleftrightarrow> has c j \<or> c = CodePortsMissing \<and> port_lost (jd_after j) (jd_bk j)"
proof (cases "two_lists j BKListening BKListeningAfter FactListening fa_Listening")
  case None
  then have "\<not> port_lost (jd_after j) (jd_bk j)" unfolding port_lost_def two_lists_iff [symmetric] by simp
  then show ?thesis using None by (simp add: judge_ports_def)
next
  case (Some p)
  obtain old new where p: "p = (old, new)" by fastforce
  let ?gone = "sort (filter (\<lambda>p. p < ephemeralPort \<and> p \<notin> set (portsOf new)) (portsOf old))"
  have "port_lost (jd_after j) (jd_bk j) \<longleftrightarrow> ?gone \<noteq> []"
    using Some p unfolding port_lost_def two_lists_iff [symmetric] nonempty_set by (simp add: set_portsOf) blast
  then show ?thesis using Some p by (simp add: judge_ports_def has_fold_say)
qed

lemma has_samba:
  "has c (judge_samba j) \<longleftrightarrow> has c j \<or> c = CodeSambaUsersChanged \<and> Knows (jd_before j) FactSamba \<and> Knows (jd_after j) FactSamba \<and>
     fa_SambaUsers (jd_before j) \<noteq> fa_SambaUsers (jd_after j)"
  by (auto simp: judge_samba_def)

lemma has_route:
  "has c (judge_route j) \<longleftrightarrow> has c j \<or> c = CodeRouteMissing \<and> Knows (jd_before j) FactRoute \<and> fa_Route (jd_before j) \<noteq> [] \<and>
     Knows (jd_after j) FactRoute \<and> fa_Route (jd_after j) = []"
  by (auto simp: judge_route_def)

lemma has_dns:
  "has c (judge_dns j) \<longleftrightarrow> has c j \<or> c = CodeDNSMissing \<and> Knows (jd_before j) FactDNS \<and> fa_DNS (jd_before j) \<and>
     Knows (jd_after j) FactDNS \<and> \<not> fa_DNS (jd_after j)"
  by (auto simp: judge_dns_def)

lemma has_dockerVersion: "has c (judge_dockerVersion j) \<longleftrightarrow> has c j \<or> c = CodeDockerVersionChanged \<and> docker_changed (jd_before j) (jd_after j)"
  by (auto simp: judge_dockerVersion_def docker_changed_def Let_def)

definition source_noted :: "bk_files \<Rightarrow> bool" where
  "source_noted bk \<longleftrightarrow> (\<exists>ls. bk_list bk BKDockerSourceNote = ''unreachable'' # ls \<or> bk_list bk BKDockerSourceNote = ''no_curl'' # ls)"

lemma has_dockerSource:
  "has CodeDockerSourceUnreachable (judge_dockerSource j) \<longleftrightarrow> has CodeDockerSourceUnreachable j \<or> source_noted (jd_bk j)"
  by (auto simp: judge_dockerSource_def source_noted_def split: list.split)

lemma runs_first_Nil [simp]: "\<not> runs_first [] n p"
  by (simp add: runs_first_def)

lemma runs_first_Cons:
  "runs_first (line # lines) n p \<longleftrightarrow>
     container_line line = Some (n, p, ''running'') \<or> (\<forall>q. container_line line \<noteq> Some (n, q, ''running'')) \<and> runs_first lines n p"
    (is "?L \<longleftrightarrow> ?R")
proof
  assume ?L
  then obtain ls l rs where l: "line # lines = ls @ l # rs" "container_line l = Some (n, p, ''running'')" "\<forall>l\<in>set ls. \<forall>q. container_line l \<noteq> Some (n, q, ''running'')"
    unfolding runs_first_def by blast
  then show ?R by (cases ls) (auto simp: runs_first_def)
next
  assume ?R
  then show ?L
  proof (elim disjE conjE)
    assume "container_line line = Some (n, p, ''running'')"
    then show ?L unfolding runs_first_def by (intro exI [of _ "[]"] exI [of _ line] exI [of _ lines]) simp
  next
    assume h: "\<forall>q. container_line line \<noteq> Some (n, q, ''running'')" "runs_first lines n p"
    then obtain ls l rs where "lines = ls @ l # rs" "container_line l = Some (n, p, ''running'')" "\<forall>l\<in>set ls. \<forall>q. container_line l \<noteq> Some (n, q, ''running'')"
      unfolding runs_first_def by blast
    then show ?L using h(1) unfolding runs_first_def by (intro exI [of _ "line # ls"] exI [of _ l] exI [of _ rs]) simp
  qed
qed

lemma not_returned_iff: "(n, p) \<in> set (not_returned up seen lines) \<longleftrightarrow> n \<notin> set up \<and> n \<notin> set seen \<and> runs_first lines n p"
proof (induction up seen lines rule: not_returned.induct)
  case (2 up seen line lines)
  show ?case
  proof (cases "container_line line")
    case None
    then show ?thesis using 2(1) [OF None] by (simp add: runs_first_Cons)
  next
    case (Some t)
    obtain n' p' q' where t: "container_line line = Some (n', p', q')" using Some by (cases t) auto
    show ?thesis
    proof (cases "q' \<noteq> ''running'' \<or> n' \<in> set up \<or> n' \<in> set seen")
      case True
      then have "not_returned up seen (line # lines) = not_returned up seen lines" using t by simp
      then show ?thesis using 2(2) [OF t refl refl True] True t by (auto simp: runs_first_Cons)
    next
      case False
      then have "not_returned up seen (line # lines) = (n', p') # not_returned up (n' # seen) lines" using t by simp
      then show ?thesis using 2(3) [OF t refl refl False] False t by (auto simp: runs_first_Cons)
    qed
  qed
qed simp

lemma container_inputs [simp]: "jd_after (judge_container off x j) = jd_after j" "jd_restart (judge_container off x j) = jd_restart j" "jd_bk (judge_container off x j) = jd_bk j"
  using adds_container [of j off x] by (simp_all add: adds_only_def)

lemma has_container:
  "has c (judge_container off x j) \<longleftrightarrow> has c j \<or> c = CodeContainerNotReturned \<and> snd x \<notin> {[], ''no''} \<and> fst x \<notin> set off"
  by (cases x) (simp add: judge_container_def)

lemma has_containers_fold:
  "has c (fold (judge_container off) cs j) \<longleftrightarrow>
     has c j \<or> c = CodeContainerNotReturned \<and> (\<exists>x\<in>set cs. snd x \<notin> {[], ''no''} \<and> fst x \<notin> set off)"
  by (induction cs arbitrary: j) (simp_all add: has_container, blast)

lemma put_keys: "fst ` set (put k v m) = insert k (fst ` set m)"
  by (auto simp: put_def image_iff)

lemma running_keys: "n \<in> fst ` set (bkRunning bk) \<longleftrightarrow> (\<exists>p. ran_with bk n p)"
proof -
  define f :: "(string \<times> string) list \<Rightarrow> string \<Rightarrow> (string \<times> string) list"
    where "f = (\<lambda>m line. case container_line line of Some (n, p, s) \<Rightarrow> if s = ''running'' then put n p m else m | None \<Rightarrow> m)"
  have step: "n \<in> fst ` set (f m l) \<longleftrightarrow> n \<in> fst ` set m \<or> (\<exists>p. container_line l = Some (n, p, ''running''))" for m l
  proof (cases "container_line l")
    case (Some t)
    obtain n' p' q' where "t = (n', p', q')" by (cases t) auto
    then have "f m l = (if q' = ''running'' then put n' p' m else m)" "container_line l = Some (n', p', q')" using Some by (simp_all add: f_def)
    then show ?thesis using put_keys [of n' p' m] by auto
  qed (simp add: f_def)
  have "n \<in> fst ` set (foldl f m ls) \<longleftrightarrow> n \<in> fst ` set m \<or> (\<exists>p. runs_first ls n p)" for ls m
  proof (induction ls arbitrary: m)
    case (Cons l ls)
    have "(\<exists>p. runs_first (l # ls) n p) \<longleftrightarrow> (\<exists>p. container_line l = Some (n, p, ''running'')) \<or> (\<exists>p. runs_first ls n p)"
      unfolding runs_first_Cons by blast
    then show ?case using Cons [of "f m l"] step [of m l] by simp
  qed (use runs_first_Nil [of n] in auto)
  from this [of "[]" "bk_list bk BKContainers"] show ?thesis by (simp add: bkRunning_def ran_with_def f_def)
qed

lemma has_containers: "has c (judge_containers j) \<longleftrightarrow> has c j \<or> c = CodeContainerNotReturned \<and> container_lost (jd_after j) (jd_bk j) (jd_restart j)"
proof -
  have s: "n \<in> set (stoppedBeforeRestart j) \<longleftrightarrow> containers_seen (jd_restart j) \<and> \<not> runs_in (jd_restart j) n" if "ran_with (jd_bk j) n p" for n p
    using that running_keys [of n "jd_bk j"] by (auto simp: stoppedBeforeRestart_def containers_seen_def runs_in_def Let_def)
  have r: "(n, p) \<in> set (NotReturned (jd_bk j) (jd_after j)) \<longleftrightarrow> containers_seen (jd_after j) \<and> ran_with (jd_bk j) n p \<and> \<not> runs_in (jd_after j) n" for n p
    by (auto simp: NotReturned_def not_returned_iff containers_seen_def ran_with_def runs_in_def)
  have "(\<exists>x\<in>set (NotReturned (jd_bk j) (jd_after j)). snd x \<notin> {[], ''no''} \<and> fst x \<notin> set (stoppedBeforeRestart j)) \<longleftrightarrow>
      (\<exists>n p. (n, p) \<in> set (NotReturned (jd_bk j) (jd_after j)) \<and> p \<notin> {[], ''no''} \<and> n \<notin> set (stoppedBeforeRestart j))"
    by (metis fst_conv snd_conv prod.collapse)
  also have "\<dots> \<longleftrightarrow> container_lost (jd_after j) (jd_bk j) (jd_restart j)"
    unfolding r container_lost_def using s by blast
  finally show ?thesis by (simp only: judge_containers_def has_containers_fold)
qed

definition seen_in_part :: "facts \<Rightarrow> facts \<Rightarrow> bk_files \<Rightarrow> bool" where
  "seen_in_part b a bk \<longleftrightarrow>
     \<not> fa_Taken a \<or> (\<exists>(x, because)\<in>set (needs (new_judge b a bk b)). because \<and> \<not> Knows a x) \<or> unsaid_unit (new_judge b a bk b) \<or>
     (\<exists>x\<in>set (fa_Unknown a). cut_prefix UnreadablePrefix x \<noteq> None)"

lemma needs_inputs: "jd_before j = jd_before i \<Longrightarrow> jd_after j = jd_after i \<Longrightarrow> jd_bk j = jd_bk i \<Longrightarrow> needs j = needs i \<and> unsaid_unit j = unsaid_unit i"
  by (simp add: needs_def unsaid_unit_def docker_ran_def Let_def)

lemma has_incomplete: "has c (judge_incomplete j) \<longleftrightarrow> has c j \<or> c = CodeFactsIncomplete \<and> seen_in_part (jd_before j) (jd_after j) (jd_bk j)"
proof -
  have "needs (new_judge (jd_before j) (jd_after j) (jd_bk j) (jd_before j)) = needs j"
    "unsaid_unit (new_judge (jd_before j) (jd_after j) (jd_bk j) (jd_before j)) = unsaid_unit j"
    using needs_inputs [of "new_judge (jd_before j) (jd_after j) (jd_bk j) (jd_before j)" j] by (simp_all add: new_judge_def)
  then have "seen_in_part (jd_before j) (jd_after j) (jd_bk j) \<longleftrightarrow> \<not> fa_Taken (jd_after j) \<or> missing_facts j \<noteq> []"
    by (auto simp: seen_in_part_def missing_facts_def filter_empty_conv)
  then show ?thesis by (auto simp: judge_incomplete_def)
qed

subsection \<open>The verdict\<close>

definition the_judge :: "facts \<Rightarrow> facts \<Rightarrow> bk_files \<Rightarrow> facts \<Rightarrow> judge" where
  "the_judge b a bk r = fold id judge_checks (new_judge b a bk r)"

lemma new_judge_fields [simp]:
  "jd_before (new_judge b a bk r) = b" "jd_after (new_judge b a bk r) = a" "jd_restart (new_judge b a bk r) = r" "jd_bk (new_judge b a bk r) = bk"
  "\<not> has c (new_judge b a bk r)" "out_ok (new_judge b a bk r)"
  by (simp_all add: new_judge_def has_def out_ok_def)

lemma has_dpkgQuiet: "has c (judge_dpkgQuiet j) \<longleftrightarrow> has c j \<or> c = CodeDpkgNotQuiet \<and> Knows (jd_after j) FactDpkg \<and> \<not> fa_DpkgQuiet (jd_after j)"
  by (auto simp: judge_dpkgQuiet_def)

lemma has_systemReady:
  "has c (judge_systemReady j) \<longleftrightarrow> has c j \<or> c = CodeSystemNotReady \<and> Knows (jd_after j) FactSystem \<and> \<not> systemReady (fa_System (jd_after j))"
  by (auto simp: judge_systemReady_def)

lemmas has_checks = has_kernel has_units has_dockerDown has_mounts has_dpkgQuiet has_systemReady has_failedUnits has_ports has_samba has_route has_dns
  has_dockerVersion has_containers has_incomplete

lemma the_judge_ok: "out_ok (the_judge b a bk r)"
  by (simp add: the_judge_def judge_checks_def check_keeps)

lemma has_the_judge:
  "has CodeKernelUnexpected (the_judge b a bk r) \<longleftrightarrow> kernel_wrong a bk"
  "has CodeCasaosUnitDown (the_judge b a bk r) \<longleftrightarrow> Knows a FactUnits \<and> (\<exists>u. unit_lost a bk r u)"
  "has CodeDockerDown (the_judge b a bk r) \<longleftrightarrow> docker_lost b a bk"
  "has CodeMountsMissing (the_judge b a bk r) \<longleftrightarrow> mount_lost b a"
  "has CodeDpkgNotQuiet (the_judge b a bk r) \<longleftrightarrow> Knows a FactDpkg \<and> \<not> fa_DpkgQuiet a"
  "has CodeSystemNotReady (the_judge b a bk r) \<longleftrightarrow> Knows a FactSystem \<and> \<not> systemReady (fa_System a)"
  "has CodeUnitsFailedNew (the_judge b a bk r) \<longleftrightarrow> unit_fails a bk"
  "has CodePortsMissing (the_judge b a bk r) \<longleftrightarrow> port_lost a bk"
  "has CodeSambaUsersChanged (the_judge b a bk r) \<longleftrightarrow> Knows b FactSamba \<and> Knows a FactSamba \<and> fa_SambaUsers b \<noteq> fa_SambaUsers a"
  "has CodeRouteMissing (the_judge b a bk r) \<longleftrightarrow> Knows b FactRoute \<and> fa_Route b \<noteq> [] \<and> Knows a FactRoute \<and> fa_Route a = []"
  "has CodeDNSMissing (the_judge b a bk r) \<longleftrightarrow> Knows b FactDNS \<and> fa_DNS b \<and> Knows a FactDNS \<and> \<not> fa_DNS a"
  "has CodeDockerVersionChanged (the_judge b a bk r) \<longleftrightarrow> docker_changed b a"
  "has CodeDockerSourceUnreachable (the_judge b a bk r) \<longleftrightarrow> source_noted bk"
  "has CodeContainerNotReturned (the_judge b a bk r) \<longleftrightarrow> container_lost a bk r"
  "has CodeFactsIncomplete (the_judge b a bk r) \<longleftrightarrow> seen_in_part b a bk"
  by (simp_all add: the_judge_def judge_checks_def check_inputs check_others has_checks has_dockerSource)

lemma summarize_step:
  "vr_Errors (foldl (\<lambda>r f. case fi_Severity f of SeverityError \<Rightarrow> r\<lparr>vr_Errors := vr_Errors r + 1\<rparr> | SeverityWarn \<Rightarrow> r\<lparr>vr_Warnings := vr_Warnings r + 1\<rparr> | SeverityInfo \<Rightarrow> r) r fs) =
     vr_Errors r + of_nat (length (filter (\<lambda>f. fi_Severity f = SeverityError) fs))"
  "vr_Warnings (foldl (\<lambda>r f. case fi_Severity f of SeverityError \<Rightarrow> r\<lparr>vr_Errors := vr_Errors r + 1\<rparr> | SeverityWarn \<Rightarrow> r\<lparr>vr_Warnings := vr_Warnings r + 1\<rparr> | SeverityInfo \<Rightarrow> r) r fs) =
     vr_Warnings r + of_nat (length (filter (\<lambda>f. fi_Severity f = SeverityWarn) fs))"
  by (induction fs arbitrary: r) (simp_all split: severity.split)

lemma summarize_zero:
  "vr_Errors (Summarize fs) = 0 \<longleftrightarrow> (\<forall>f\<in>set fs. fi_Severity f \<noteq> SeverityError)"
  "vr_Warnings (Summarize fs) = 0 \<longleftrightarrow> (\<forall>f\<in>set fs. fi_Severity f \<noteq> SeverityWarn)"
  by (simp_all add: Summarize_def summarize_step filter_empty_conv)

lemma judged_set: "JudgeWith b a bk r = sort_key (rank \<circ> fi_Code) (jd_out (the_judge b a bk r))"
  by (simp add: JudgeWith_def the_judge_def)

lemma no_severity:
  "(\<forall>f\<in>set (JudgeWith b a bk r). fi_Severity f \<noteq> s) \<longleftrightarrow> (\<forall>c. severities c = s \<longrightarrow> \<not> has c (the_judge b a bk r))"
proof -
  have "fi_Severity f = severities (fi_Code f)" if "f \<in> set (jd_out (the_judge b a bk r))" for f
    using the_judge_ok [of b a bk r] that by (simp add: out_ok_def finding_ok_def list_all_iff)
  then show ?thesis unfolding judged_set set_sort has_def image_iff by metis
qed

lemma of_severity:
  "(\<forall>c. severities c = SeverityError \<longrightarrow> P c) \<longleftrightarrow>
     P CodeKernelUnexpected \<and> P CodeCasaosUnitDown \<and> P CodeDockerDown \<and> P CodeMountsMissing \<and> P CodeDpkgNotQuiet \<and> P CodeSystemNotReady"
  "(\<forall>c. severities c = SeverityWarn \<longrightarrow> P c) \<longleftrightarrow>
     P CodeUnitsFailedNew \<and> P CodePortsMissing \<and> P CodeSambaUsersChanged \<and> P CodeRouteMissing \<and> P CodeDNSMissing \<and> P CodeDockerVersionChanged \<and>
     P CodeDockerSourceUnreachable \<and> P CodeContainerNotReturned \<and> P CodeFactsIncomplete"
proof -
  have a: "(\<forall>c. P c) \<longleftrightarrow> (\<forall>c\<in>set Codes. P c)" for P by (auto simp: Codes_def intro: code.induct)
  show "(\<forall>c. severities c = SeverityError \<longrightarrow> P c) \<longleftrightarrow>
     P CodeKernelUnexpected \<and> P CodeCasaosUnitDown \<and> P CodeDockerDown \<and> P CodeMountsMissing \<and> P CodeDpkgNotQuiet \<and> P CodeSystemNotReady"
    by (subst a) (simp add: Codes_def)
  show "(\<forall>c. severities c = SeverityWarn \<longrightarrow> P c) \<longleftrightarrow>
     P CodeUnitsFailedNew \<and> P CodePortsMissing \<and> P CodeSambaUsersChanged \<and> P CodeRouteMissing \<and> P CodeDNSMissing \<and> P CodeDockerVersionChanged \<and>
     P CodeDockerSourceUnreachable \<and> P CodeContainerNotReturned \<and> P CodeFactsIncomplete"
    by (subst a) (simp add: Codes_def)
qed

text \<open>
  (C11) The verdict after an upgrade has no error exactly when: the kernel that runs is the one the last block expected, every unit of CasaOS that was active is so
  again (or the owner had stopped it before the restart), Docker is up when it was, no pool, no branch of a pool and no mount that an app or a pool depends on is gone,
  dpkg has nothing left half done, and systemd calls the system ready; each of them as far as the machine could be asked.
\<close>

theorem judge_errors_exactly:
  "vr_Errors (Summarize (JudgeWith b a bk r)) = 0 \<longleftrightarrow>
     \<not> kernel_wrong a bk \<and> \<not> (Knows a FactUnits \<and> (\<exists>u. unit_lost a bk r u)) \<and> \<not> docker_lost b a bk \<and> \<not> mount_lost b a \<and>
     \<not> (Knows a FactDpkg \<and> \<not> fa_DpkgQuiet a) \<and> \<not> (Knows a FactSystem \<and> \<not> systemReady (fa_System a))"
  unfolding summarize_zero no_severity of_severity has_the_judge by (rule refl)

text \<open>
  (C12) The verdict has no warning exactly when: no unit fails that did not before, no port that is not an ephemeral one is closed that was open, the number of Samba users,
  the default route, the resolution of names, Docker's version and engine are as before, the source of Docker's packages could be asked, every container that ran and
  is to be restarted runs (or had been stopped before the restart), and everything that was needed could be seen.
\<close>

theorem judge_warnings_exactly:
  "vr_Warnings (Summarize (JudgeWith b a bk r)) = 0 \<longleftrightarrow>
     \<not> unit_fails a bk \<and> \<not> port_lost a bk \<and>
     \<not> (Knows b FactSamba \<and> Knows a FactSamba \<and> fa_SambaUsers b \<noteq> fa_SambaUsers a) \<and>
     \<not> (Knows b FactRoute \<and> fa_Route b \<noteq> [] \<and> Knows a FactRoute \<and> fa_Route a = []) \<and>
     \<not> (Knows b FactDNS \<and> fa_DNS b \<and> Knows a FactDNS \<and> \<not> fa_DNS a) \<and>
     \<not> docker_changed b a \<and> \<not> source_noted bk \<and> \<not> container_lost a bk r \<and> \<not> seen_in_part b a bk"
  unfolding summarize_zero no_severity of_severity has_the_judge by (rule refl)


end
