(* ===== verification/UpgradeLookFacts.thy ===== *)
theory UpgradeLookFacts
  imports UpgradeLook UpgradeServiceFacts OsverifyFacts
begin

section \<open>Looks and buttons: what they keep\<close>

text \<open>
  Every operation of the core on the runs keeps their folders and only appends to their logs; the contract is a locale, and each handler is an
  instance of it. On top of it: a restart is asked for only where it may be, and a run that was closed is forgotten by the next look.
\<close>

subsection \<open>The contract of an operation\<close>

definition same_run :: "run_folder \<Rightarrow> run_folder \<Rightarrow> bool" where
  "same_run run run' \<longleftrightarrow>
     rf_ID run' = rf_ID run \<and> rf_Kind run' = rf_Kind run \<and> rf_PlanID run' = rf_PlanID run \<and> rf_Hop run' = rf_Hop run \<and>
     rf_CreatedAt run' = rf_CreatedAt run \<and> rf_Nonce run' = rf_Nonce run \<and> rf_Files run' = rf_Files run \<and>
     (\<exists>ms. rf_Markers run' = rf_Markers run @ ms)"

definition kept :: "machine \<Rightarrow> machine \<Rightarrow> bool" where
  "kept m m' \<longleftrightarrow>
     folders_ok m' \<and> (\<forall>i. mc_Runs m i = None \<longrightarrow> mc_Runs m' i = None) \<and>
     (\<forall>i run. mc_Runs m i = Some run \<longrightarrow> (\<exists>run'. mc_Runs m' i = Some run' \<and> same_run run run'))"

named_theorems keeps \<open>the operations that keep the runs\<close>

lemma same_run_refl [simp]: "same_run run run"
  by (simp add: same_run_def)

lemma same_run_trans: "same_run r s \<Longrightarrow> same_run s t \<Longrightarrow> same_run r t"
  by (auto simp: same_run_def)

lemma kept_refl: "folders_ok m \<Longrightarrow> kept m m"
  by (simp add: kept_def)

lemma runs_kept_trans:
  assumes "kept m m1" "kept m1 m2"
  shows "kept m m2"
  unfolding kept_def
proof (intro conjI allI impI)
  show "folders_ok m2" using assms(2) by (simp add: kept_def)
  show "mc_Runs m2 i = None" if "mc_Runs m i = None" for i using that assms by (simp add: kept_def)
  fix i run
  assume "mc_Runs m i = Some run"
  then obtain run1 where "mc_Runs m1 i = Some run1" "same_run run run1" using assms(1) unfolding kept_def by blast
  moreover from this obtain run2 where "mc_Runs m2 i = Some run2" "same_run run1 run2" using assms(2) unfolding kept_def by blast
  ultimately show "\<exists>run'. mc_Runs m2 i = Some run' \<and> same_run run run'" using same_run_trans by blast
qed

lemma kept_folders: "kept m m' \<Longrightarrow> folders_ok m'"
  by (simp add: kept_def)

lemma kept_same_runs: "folders_ok m \<Longrightarrow> mc_Runs m' = mc_Runs m \<Longrightarrow> kept m m'"
  by (simp add: kept_def folders_ok_def)

lemma kept_update: "kept m m' \<Longrightarrow> mc_Runs m2 = mc_Runs m' \<Longrightarrow> kept m m2"
  by (simp add: kept_def folders_ok_def)

lemma kept_put:
  assumes "folders_ok m" "mc_Runs m (rf_ID run) = Some run" "same_run run run'"
  shows "kept m (put_run m run')"
proof -
  have i: "rf_ID run' = rf_ID run" using assms(3) by (simp add: same_run_def)
  have r: "mc_Runs (put_run m run') j = (if j = rf_ID run then Some run' else mc_Runs m j)" for j by (simp add: put_run_def i)
  have "rf_ID run \<noteq> []" using assms(1,2) unfolding folders_ok_def by blast
  then have "folders_ok (put_run m run')" using assms(1) i unfolding folders_ok_def r by (simp split: if_split)
  then show ?thesis unfolding kept_def r using assms(2,3) by simp
qed

lemma append_same:
  assumes "appendOSUpgradeMarker w run mk = Some run'"
  shows "same_run run run'"
  unfolding append_marker [OF assms] same_run_def by simp

locale service_op =
  fixes op :: "machine \<Rightarrow> machine"
  assumes keeps_runs: "folders_ok m \<Longrightarrow> kept m (op m)"
begin

lemma op_folders: "folders_ok m \<Longrightarrow> folders_ok (op m)"
  using keeps_runs kept_folders by blast

lemma op_after: "kept m m1 \<Longrightarrow> kept m (op m1)"
  using keeps_runs kept_folders runs_kept_trans by blast

lemma op_again: "folders_ok m \<Longrightarrow> kept m ((op ^^ n) m)"
  by (induction n) (auto intro: kept_refl op_after)

end

subsection \<open>The operations\<close>

lemma id_folders: "folders_ok m \<Longrightarrow> mc_Runs m i = Some run \<Longrightarrow> mc_Runs m (rf_ID run) = Some run"
  by (auto simp: folders_ok_def)

lemma runs_simps [simp]:
  "mc_Runs (setOSUpgradeBusy w m i n t) = mc_Runs m" "mc_Runs (osUpgradeQuietUntil m t) = mc_Runs m"
  by (simp_all add: setOSUpgradeBusy_def osUpgradeQuietUntil_def)

lemma failed_same: "same_run run (appendAttemptThatFailed w run mk)"
  unfolding appendAttemptThatFailed_def by (auto split: option.split dest!: append_same intro: same_run_trans)

lemma keeps_launch [keeps]:
  assumes "folders_ok m"
  shows "kept m (fst (launchPrepareLocked w m i phase who unit))"
proof (cases "mc_Runs m i")
  case None
  then show ?thesis using assms by (simp add: launchPrepareLocked_def kept_refl)
next
  case (Some run)
  note put = kept_put [OF assms id_folders [OF assms Some]]
  have l: "same_run run (run\<lparr>rf_Lists := ls\<rparr>)" for ls by (simp add: same_run_def)
  have a: "kept m ((put_run m run2)\<lparr>mc_Launching := k\<rparr>)" if "appendOSUpgradeMarker w (run\<lparr>rf_Lists := ls\<rparr>) mk = Some run2" for ls mk run2 k
    by (rule kept_update [OF put [OF same_run_trans [OF l append_same [OF that]]]]) simp
  show ?thesis
    using Some assms put [OF failed_same] put [OF l] a
    by (simp add: launchPrepareLocked_def kept_refl Let_def split: option.split)
qed

lemma keeps_launchRun [keeps]:
  assumes "folders_ok m"
  shows "kept m (fst (launchRun w m i attempt answer))"
proof (cases "\<exists>run. mc_Runs m i = Some run")
  case False
  then show ?thesis using assms by (auto simp: launchRun_def Let_def split: systemd_run.split intro!: kept_same_runs)
next
  case True
  then obtain run where run: "mc_Runs m i = Some run" by blast
  have "kept m (put_run (m\<lparr>mc_Launching := k\<rparr>) run1)" if "appendOSUpgradeMarker w run mk = Some run1" for k mk run1
    by (rule kept_update [OF kept_put [OF assms id_folders [OF assms run] append_same [OF that]]]) (simp add: put_run_def)
  then show ?thesis
    using run assms kept_same_runs [OF assms]
    by (simp add: launchRun_def Let_def split: systemd_run.split option.split)
qed

lemma keeps_attempt [keeps]: "folders_ok m \<Longrightarrow> kept m (fst (launchAttempt w g m i phase who))"
  using keeps_launch [of m w i phase who "si_UnitNow g"] keeps_launchRun runs_kept_trans kept_folders
  by (fastforce simp: launchAttempt_def split: prod.split sum.split)

lemma runs_kept [simp]:
  "mc_Runs (osUpgradeDropStrayFlag w m) = mc_Runs m" "mc_Runs (osUpgradeHoldUnread w m i) = mc_Runs m"
  "mc_Runs (osUpgradeForget w m run) = mc_Runs m" "mc_Runs (fst (osUpgradeForgetDeadStart w m run unit)) = mc_Runs m"
  "mc_Runs (osUpgradeKeepFlagLocked w m run state unit) = mc_Runs m"
proof -
  show "mc_Runs (osUpgradeDropStrayFlag w m) = mc_Runs m" "mc_Runs (osUpgradeHoldUnread w m i) = mc_Runs m"
    "mc_Runs (osUpgradeForget w m run) = mc_Runs m"
    by (simp_all add: osUpgradeDropStrayFlag_def osUpgradeHoldUnread_def osUpgradeForget_def)
  show "mc_Runs (fst (osUpgradeForgetDeadStart w m run unit)) = mc_Runs m"
    using clear_current_runs [of w m] by (cases "clearOSUpgradeCurrent w m") (auto simp: osUpgradeForgetDeadStart_def split: bool.split)
  show "mc_Runs (osUpgradeKeepFlagLocked w m run state unit) = mc_Runs m"
    using clear_busy_fields(2) [of w m] by (cases "clearOSUpgradeBusy w m") (auto simp: osUpgradeKeepFlagLocked_def split: option.split bool.split)
qed

lemma keeps_barrier [keeps]:
  assumes "folders_ok m"
  shows "kept m (fst (osUpgradeKeepBarrier g m run state))"
proof -
  have "kept m (put_run m (fresh\<lparr>rf_Barrier := d\<rparr>))" if "mc_Runs m (rf_ID run) = Some fresh" for fresh d
    by (rule kept_put [OF assms id_folders [OF assms that]]) (simp add: same_run_def)
  then show ?thesis using assms by (simp add: osUpgradeKeepBarrier_def kept_refl Let_def split: option.split)
qed

lemma keeps_judge [keeps]:
  assumes "folders_ok m"
  shows "kept m (fst (osUpgradeJudge w g m run since))"
proof -
  have "kept m (put_run m (fresh\<lparr>rf_Verify := d\<rparr>))" if "mc_Runs m (rf_ID run) = Some fresh" for fresh d
    by (rule kept_put [OF assms id_folders [OF assms that]]) (simp add: same_run_def)
  then show ?thesis using assms by (simp add: osUpgradeJudge_def kept_refl split: option.split)
qed

lemma keeps_verdict [keeps]:
  assumes "folders_ok m"
  shows "kept m (removeOSUpgradeVerdict g m run)"
proof -
  have "kept m (put_run m (fresh\<lparr>rf_Verify := d\<rparr>))" if "mc_Runs m (rf_ID run) = Some fresh" for fresh d
    by (rule kept_put [OF assms id_folders [OF assms that]]) (simp add: same_run_def)
  then show ?thesis using assms by (simp add: removeOSUpgradeVerdict_def kept_refl split: option.split)
qed

lemma keeps_seeBoot [keeps]:
  assumes "folders_ok m" "mc_Runs m (rf_ID run) = Some run"
  shows "kept m (osUpgradeSeeBoot w g m run state)"
  using assms kept_put [OF assms append_same] by (simp add: osUpgradeSeeBoot_def kept_refl split: option.split)

lemma keeps_do [keeps]:
  assumes "folders_ok m"
  shows "kept m (fst (osUpgradeDo w g m run state act))"
proof -
  have f: "kept m (osUpgradeForget w m run)" using assms by (intro kept_same_runs) simp_all
  have j: "kept m (fst (case osUpgradeJudge w g m run (st_Since state) of (m1, j) \<Rightarrow> (m1, if j = JudgeMade then Some DoJudge else None)))"
    using keeps_judge [OF assms, of w g run "st_Since state"] by (simp add: split_def)
  have l: "kept m (fst (case launchAttempt w g m i p who of (m1, e) \<Rightarrow> (m1, if e = None then Some k else None)))" for i p who k
    using keeps_attempt [OF assms, of w g i p who] by (simp add: split_def)
  show ?thesis
    by (cases "ac_Kind act"; cases "ac_Phase act"; cases "ac_Who act") (simp_all add: osUpgradeDo_def assms kept_refl f j l)
qed

lemma keeps_rest [keeps]:
  assumes "folders_ok m"
  shows "kept m (fst (look_rest w g m run i state))"
proof -
  let ?m1 = "osUpgradeNoteRefresh w m run"
  let ?m2 = "fst (osUpgradeKeepBarrier g ?m1 run state)"
  have 1: "kept m ?m1" using assms by (intro kept_same_runs) simp_all
  have 2: "kept m ?m2" by (rule runs_kept_trans [OF 1 keeps_barrier [OF kept_folders [OF 1]]])
  have "kept m (fst (osUpgradeDo w g ?m2 run state act))" for act by (rule runs_kept_trans [OF 2 keeps_do [OF kept_folders [OF 2]]])
  then have "kept m (osUpgradeKeepQuiet (fst (osUpgradeDo w g ?m2 run state act)) state)" for act by (rule kept_update) simp
  then show ?thesis by (simp add: look_rest_def Let_def split_def)
qed

lemma keeps_look_run [keeps]:
  assumes "folders_ok m" "mc_Runs m (rf_ID run) = Some run"
  shows "kept m (fst (look_run w g m run))"
proof (cases "osUpgradeForgetDeadStart w m run (si_Unit g)")
  case (Pair m1 gone)
  then have r: "mc_Runs m1 = mc_Runs m" using runs_kept(4) [of w m run "si_Unit g"] by simp
  let ?state = "osUpgradeStateOf run (osUpgradeInputWith w run (si_Unit g))"
  let ?m2 = "osUpgradeKeepFlagLocked w m1 run ?state (si_Unit g)"
  let ?m3 = "osUpgradeSeeBoot w g ?m2 run ?state"
  have 1: "kept m m1" and 2: "kept m ?m2" using assms(1) r by (auto intro: kept_same_runs)
  have 3: "kept m ?m3"
    by (rule runs_kept_trans [OF 2 keeps_seeBoot [OF kept_folders [OF 2]]]) (use assms(2) r in simp)
  have "kept m (fst (look_rest w g m' run' i s))" if "kept m m'" for m' run' i s
    by (rule runs_kept_trans [OF that keeps_rest [OF kept_folders [OF that]]])
  then show ?thesis
    using Pair 1 2 3 by (cases gone) (auto simp: look_run_def Let_def split: option.split)
qed

lemma keeps_settle:
  assumes "folders_ok m"
  shows "kept m (fst (osUpgradeSettleOnce w g m))"
proof -
  have "kept m (osUpgradeDropStrayFlag w m)" "kept m (osUpgradeHoldUnread w m i)" for i using assms by (simp_all add: kept_same_runs)
  then show ?thesis
    using keeps_look_run [OF assms id_folders [OF assms]] by (simp add: osUpgradeSettleOnce_def split: current_run.split option.split)
qed

lemma keeps_close:
  assumes "folders_ok m" "mc_Runs m (rf_ID run) = Some run"
  shows "kept m (fst (closeOSUpgradeRun w m run how))"
proof -
  obtain run1 ok where c: "osUpgradeCloseLog w run how = (run1, ok)" by fastforce
  have "same_run run run1"
  proof -
    have b: "same_run run r" if "osUpgradePutAwayBackup w run = Some r" for r
      using that by (auto simp: osUpgradePutAwayBackup_def same_run_def split: if_splits)
    show ?thesis
      using c by (auto simp: osUpgradeCloseLog_def split: option.splits if_splits dest!: b append_same intro: same_run_trans)
  qed
  then have k: "kept m (put_run m run1)" by (rule kept_put [OF assms])
  have "mc_Runs (fst (closeOSUpgradeRun w m run how)) = mc_Runs (put_run m run1)"
    using c clear_current_runs [of w "put_run m run1"] clear_busy_fields(2) [of w]
    by (cases "clearOSUpgradeCurrent w (put_run m run1)") (auto simp: closeOSUpgradeRun_def split: bool.split)
  then show ?thesis by (rule kept_update [OF k])
qed

lemma keeps_ack_close:
  assumes "folders_ok m" "mc_Runs m (rf_ID run) = Some run"
  shows "kept m (fst (ack_close w m action word run state))"
proof -
  define m1 where "m1 = osUpgradeKeepQuiet (osUpgradeNoteRefresh w m run) state"
  have r: "mc_Runs (if d then osUpgradeDropPlan m1 else m1) = mc_Runs m" for d by (simp add: m1_def)
  have "kept m (fst (closeOSUpgradeRun w (if d then osUpgradeDropPlan m1 else m1) run how))" for d how
  proof -
    have 1: "kept m (if d then osUpgradeDropPlan m1 else m1)" using assms(1) r by (rule kept_same_runs)
    show ?thesis by (rule runs_kept_trans [OF 1 keeps_close [OF kept_folders [OF 1]]]) (use assms(2) r in simp)
  qed
  then show ?thesis
    using assms kept_put [OF assms append_same]
    by (simp add: ack_close_def kept_refl Let_def split_def m1_def [symmetric] split: option.split)
qed

lemma current_run:
  "osUpgradeCurrentWith w m unit = Inr (run, state) \<Longrightarrow> folders_ok m \<Longrightarrow>
     mc_Runs m (rf_ID run) = Some run \<and> mc_Current m = CurrentRun (rf_ID run) \<and> state = Reduce (osUpgradeInputWith w run unit)"
  by (auto simp: osUpgradeCurrentWith_def folders_ok_def split: current_run.splits option.splits)

lemma keeps_ack: "folders_ok m \<Longrightarrow> kept m (fst (osUpgradeAckLocked w m action word unit))"
proof -
  assume ok: "folders_ok m"
  have u: "mc_Runs (fst (osUpgradeLetGoOfUnreadable w m word unit)) = mc_Runs m"
    using clear_current_runs [of w m] clear_busy_fields(2) [of w]
    by (cases "clearOSUpgradeCurrent w m") (auto simp: osUpgradeLetGoOfUnreadable_def split_def split: option.split)
  show ?thesis
  proof (cases "osUpgradeCurrentWith w m unit")
    case (Inl r)
    have "kept m (fst (osUpgradeLetGoOfUnreadable w m word unit))" using u ok by (simp add: kept_same_runs)
    then show ?thesis
      using Inl ok by (cases "osUpgradeLetGoOfUnreadable w m word unit") (simp add: osUpgradeAckLocked_def kept_refl split: option.split)
  next
    case (Inr rs)
    then obtain run state where rs: "rs = (run, state)" "mc_Runs m (rf_ID run) = Some run" using current_run ok by (metis surj_pair)
    have "kept m (fst (case launchPrepareLocked w m (rf_ID run) PhaseUnwind WhoOwner unit of
        (m1, Inl e) \<Rightarrow> (m1, Inl (osUpgradeLaunchRefusal e)) | (m1, Inr attempt) \<Rightarrow> (m1, Inr (Some attempt))))"
      using keeps_launch [OF ok, of w "rf_ID run" PhaseUnwind WhoOwner unit] by (auto split: prod.split sum.split)
    then show ?thesis using Inr rs ok keeps_ack_close [OF ok rs(2)] by (simp add: osUpgradeAckLocked_def kept_refl split: option.split)
  qed
qed

subsection \<open>The restart\<close>

lemma asked_written:
  assumes "restart_asked w g m = Inr (m', run')" "folders_ok m"
  obtains run state where "osUpgradeCurrentWith w m (si_UnitNow g) = Inr (run, state)" "osUpgradeCanRestart run state"
    "run' = run\<lparr>rf_Markers := rf_Markers run @ [carried (reboot_marker MkRebootRequested w)]\<rparr>" "m' = put_run m run'"
    "mc_Runs m (rf_ID run) = Some run"
proof -
  obtain run state where c: "osUpgradeCurrentWith w m (si_UnitNow g) = Inr (run, state)"
    using assms(1) by (auto simp: restart_asked_def split: sum.splits)
  then have "osUpgradeCanRestart run state" "appendOSUpgradeMarker w run (reboot_marker MkRebootRequested w) = Some run'" "m' = put_run m run'"
    using assms(1) by (auto simp: restart_asked_def split: if_splits option.splits)
  then show thesis using that [OF c] append_marker current_run [OF c assms(2)] by blast
qed

definition failed_line :: "surroundings \<Rightarrow> restart_refusal option \<Rightarrow> marker list \<Rightarrow> bool" where
  "failed_line w r ms \<longleftrightarrow> (if r = None then ms = [] else r = Some OSUpgradeRebootFailed \<and> (ms = [] \<or> ms = [carried (reboot_marker MkRebootFailed w)]))"

text \<open>The click in two: what is asked before the lock is taken, and what is done behind it.\<close>

definition restart_admitted :: "surroundings \<Rightarrow> sight \<Rightarrow> machine \<Rightarrow> run_folder \<Rightarrow> run_state \<Rightarrow> bool" where
  "restart_admitted w g m run state \<longleftrightarrow>
     osUpgradeCurrentWith w m (si_Unit g) = Inr (run, state) \<and> osUpgradeCanRestart run state \<and>
     (st_Name state \<noteq> StateRebootFirst \<longrightarrow> bar_OK (osUpgradeBarrier g)) \<and> osUpgradeUnitQuiet (si_UnitAsked g) \<and> si_Lock g = LockFree"

lemma barrier_given:
  "osUpgradeCanRestart run state \<Longrightarrow>
     snd (osUpgradeKeepBarrier g m run state) = (if st_Name state = StateRebootFirst then None else Some (osUpgradeBarrier g))"
  by (auto simp: osUpgradeCanRestart_def osUpgradeKeepBarrier_def Let_def)

lemma restart_cases:
  assumes "RebootSystemOSUpgrade w g m = (m', asked, r)"
  obtains (refused) "\<not> asked" "r \<noteq> None" "m' = m \<or> (\<exists>run state. m' = fst (osUpgradeKeepBarrier g m run state))"
    | (asked) run state m2 run2 where asked "restart_admitted w g m run state"
      "restart_asked w g (fst (osUpgradeKeepBarrier g m run state)) = Inr (m2, run2)"
      "(r = None \<and> m' = m2) \<or> (r = Some OSUpgradeRebootFailed \<and>
         (m' = m2 \<or> (\<exists>run3. appendOSUpgradeMarker w run2 (reboot_marker MkRebootFailed w) = Some run3 \<and> m' = put_run m2 run3)))"
proof (cases "osUpgradeCurrentWith w m (si_Unit g)")
  case (Inl e)
  then show thesis using assms by (intro refused) (auto simp: RebootSystemOSUpgrade_def)
next
  case (Inr rs)
  obtain run state where rs: "rs = (run, state)" by fastforce
  show thesis
  proof (cases "restart_admitted w g m run state")
    case False
    then show thesis
      using assms Inr rs refused barrier_given [of run state g m]
      by (auto simp: RebootSystemOSUpgrade_def restart_admitted_def osUpgradeLockRefusal_def split_def split: if_splits option.splits lock_sight.splits)
  next
    case True
    then have c: "osUpgradeCanRestart run state" by (simp add: restart_admitted_def)
    obtain m1 doc where k: "osUpgradeKeepBarrier g m run state = (m1, doc)" by fastforce
    then have d: "\<not> (case doc of None \<Rightarrow> False | Some d \<Rightarrow> \<not> bar_OK d)"
      using barrier_given [OF c, of g m] True by (auto simp: restart_admitted_def split: option.splits if_splits)
    have e: "RebootSystemOSUpgrade w g m =
        (case restart_asked w g m1 of
           Inl r \<Rightarrow> (m1, False, Some r)
         | Inr (m2, run2) \<Rightarrow>
             if si_PowerOK g then (m2, True, None)
             else (case appendOSUpgradeMarker w run2 (reboot_marker MkRebootFailed w) of
                     None \<Rightarrow> (m2, True, Some OSUpgradeRebootFailed)
                   | Some run3 \<Rightarrow> (put_run m2 run3, True, Some OSUpgradeRebootFailed)))"
      using True c d k Inr rs by (simp add: RebootSystemOSUpgrade_def restart_admitted_def osUpgradeLockRefusal_def)
    show thesis
    proof (cases "restart_asked w g m1")
      case (Inl x)
      then show thesis using assms e k by (intro refused) (auto intro!: exI [of _ run] exI [of _ state])
    next
      case (Inr y)
      obtain m2 run2 where y: "y = (m2, run2)" by fastforce
      show thesis
        by (rule asked [OF _ True, of m2 run2]) (use assms e k Inr y in \<open>auto split: if_splits option.splits\<close>)
    qed
  qed
qed

lemma barrier_markers: "map_option rf_Markers (mc_Runs (fst (osUpgradeKeepBarrier g m run state)) i) = map_option rf_Markers (mc_Runs m i)" if "folders_ok m"
  using that by (auto simp: osUpgradeKeepBarrier_def put_run_def folders_ok_def Let_def split: option.split)

lemma barrier_green: "bar_OK (osUpgradeBarrier g) \<longleftrightarrow> (\<forall>code\<in>set osUpgradeBarrierChecks. \<exists>sev. si_Checks g code = Some sev \<and> sev \<noteq> ''refuse'')"
  by (auto simp: osUpgradeBarrier_def osUpgradeBarrierChecks_def barrier_item_def Let_def split: option.splits)


text \<open>A hop that waits for its restart.\<close>

definition quiet_facts :: facts where
  "quiet_facts =
     \<lparr>fa_Taken = True, fa_Unknown = [], fa_Kernel = ''6.1'', fa_System = ''running'', fa_DpkgQuiet = True, fa_SambaUsers = 0, fa_Mergerfs = [], fa_Pools = [], fa_Mounts = [],
      fa_Route = [], fa_DNS = True, fa_Units = [], fa_Paused = [],
      fa_Docker = \<lparr>dk_State = DockerAbsent, dk_Version = [], dk_EngineID = [], dk_Containers = []\<rparr>, fa_Listening = [], fa_Failed = []\<rparr>"

definition example_sight :: sight where
  "example_sight =
     \<lparr>si_Unit = quiet_unit, si_UnitAsked = quiet_unit, si_UnitNow = quiet_unit, si_Started = RunStarted, si_AptUnits = [], si_System = ''running'',
      si_Docker = [], si_Route = False, si_Checks = (\<lambda>c. Some ''ok''), si_Warnings = None,
      si_ResultWritable = True, si_ToldToStop = False, si_FactsBefore = quiet_facts, si_FactsRestart = quiet_facts, si_FactsNow = quiet_facts,
      si_BKDir = ''/var/backups/casaos-os-upgrade-12-13'', si_ReadFile = (\<lambda>_. ReadNotExist), si_VerdictRemovable = True, si_Lock = LockFree, si_PowerOK = True\<rparr>"

definition waiting_run :: "barrier option \<Rightarrow> run_folder" where
  "waiting_run b = (example_run
     [(of_attempt MkAttempt 1 1)\<lparr>mk_Phase := Some PhaseRun, mk_Who := Some WhoOwner\<rparr>,
      (of_attempt MkUnitStart 1 2)\<lparr>mk_Phase := Some PhaseRun, mk_Boot := boot_a\<rparr>,
      (of_attempt MkRebootPending 1 3)\<lparr>mk_Boot := boot_a\<rparr>, (of_attempt MkUnitEnd 1 4)\<lparr>mk_Result := Some ResOk\<rparr>] pending_files)\<lparr>rf_Barrier := b\<rparr>"

lemma waiting_reads:
  "st_Name (Reduce (osUpgradeInputWith (example_surroundings 10) (waiting_run None) quiet_unit)) = StateAwaitingReboot"
  "st_Name (Reduce (osUpgradeInputWith (example_surroundings 10) (waiting_run (Some \<lparr>bar_OK = True, bar_Checks = cs\<rparr>)) quiet_unit)) = StateAwaitingReboot"
  by (simp_all add: waiting_run_def waiting_def pending_eval service_eval reduce_eval cong: let_weak_cong)

lemma waiting_restarts:
  "\<exists>m'. RebootSystemOSUpgrade (example_surroundings 10) example_sight (example_machine (waiting_run None)) = (m', True, None)"
proof -
  let ?w = "example_surroundings 10" and ?m = "example_machine (waiting_run None)"
  let ?state = "Reduce (osUpgradeInputWith ?w (waiting_run None) quiet_unit)"
  let ?doc = "osUpgradeBarrier example_sight"
  let ?m1 = "put_run ?m (waiting_run (Some ?doc))"
  have f: "rf_ID (waiting_run b) = boot_b" "rf_Kind (waiting_run b) = RunHop" "DonePrereboot (rf_Files (waiting_run b))"
    "rf_Nonce (waiting_run b) = example_nonce" "rf_Barrier (waiting_run b) = b" "(waiting_run b)\<lparr>rf_Barrier := b2\<rparr> = waiting_run b2"
    "wo_LogWritable ?w" for b b2
    by (simp_all add: waiting_run_def service_eval pending_eval)
  have g: "si_Unit example_sight = quiet_unit" "si_UnitNow example_sight = quiet_unit" "si_UnitAsked example_sight = quiet_unit" "si_Lock example_sight = LockFree"
    "si_PowerOK example_sight" "si_ResultWritable example_sight" "osUpgradeUnitQuiet quiet_unit"
    by (simp_all add: example_sight_def quiet_unit_def osUpgradeUnitQuiet_def)
  have d: "bar_OK ?doc" by (simp add: osUpgradeBarrier_def osUpgradeBarrierChecks_def barrier_item_def example_sight_def Let_def)
  then obtain cs where doc: "?doc = \<lparr>bar_OK = True, bar_Checks = cs\<rparr>" by (cases ?doc) simp
  have c: "osUpgradeCurrentWith ?w ?m quiet_unit = Inr (waiting_run None, ?state)"
    "osUpgradeCurrentWith ?w ?m1 quiet_unit = Inr (waiting_run (Some ?doc), Reduce (osUpgradeInputWith ?w (waiting_run (Some ?doc)) quiet_unit))"
    using f by (simp_all add: osUpgradeCurrentWith_def example_machine_def put_run_def)
  have b: "osUpgradeKeepBarrier example_sight ?m (waiting_run None) ?state = (?m1, Some ?doc)"
    using waiting_reads(1) f g by (simp add: osUpgradeKeepBarrier_def example_machine_def Let_def)
  have l: "\<exists>line. Line (reboot_marker MkRebootRequested ?w) example_nonce = Inr line"
  proof -
    have "reboot_marker MkRebootRequested ?w = (new_marker MkRebootRequested 0)\<lparr>mk_At := 63871200600 * second\<rparr>"
      by (simp add: reboot_marker_def example_surroundings_def)
    moreover have "case Line ((new_marker MkRebootRequested 0)\<lparr>mk_At := 63871200600 * second\<rparr>) example_nonce of Inl e \<Rightarrow> False | Inr line \<Rightarrow> True"
      by code_simp
    ultimately show ?thesis by (simp split: sum.splits)
  qed
  then obtain m2 run2 where "restart_asked ?w example_sight ?m1 = Inr (m2, run2)"
    using c(2) g f waiting_reads(2) doc by (auto simp: restart_asked_def osUpgradeCanRestart_def appendOSUpgradeMarker_def)
  then show ?thesis
    using c(1) b d f g waiting_reads(1) by (simp add: RebootSystemOSUpgrade_def osUpgradeCanRestart_def osUpgradeLockRefusal_def)
qed

lemma waiting_folders: "folders_ok (example_machine (waiting_run None))"
  by (rule example_folders) (simp add: waiting_run_def example_run_def boot_b_def)


subsection \<open>A run that was closed\<close>

lemma closed_reading:
  assumes "st_Closed (Reduce i)"
  shows "placed i" "st_Name (Reduce i) = StateIdle" "\<not> st_Busy (Reduce i)"
proof -
  show p: "placed i"
  proof (rule ccontr)
    assume "\<not> placed i"
    then show False using assms by (simp add: Reduce_unplaced blank_state_def split: if_splits)
  qed
  then show n: "st_Name (Reduce i) = StateIdle" using assms sound_decide_ctx [of "newCtx i"] by (auto simp: Reduce_placed sound_def)
  then show "\<not> st_Busy (Reduce i)" using busy_Reduce [of i] by (simp add: busyOf_def)
qed

lemma placed_not_dead:
  assumes "placed (osUpgradeInputWith w run unit)"
  shows "\<not> dead_start w run"
proof
  assume "dead_start w run"
  then obtain q where "rf_Markers run = [q]" by (auto simp: dead_start_def split: list.splits)
  then have "vw_run (scan (osUpgradeInputWith w run unit) tm) = None" for tm by (simp add: scan_def osUpgradeInputWith_def empty_view_def)
  then show False using assms by (simp add: placed_iff)
qed

lemma forget_clears:
  assumes "mc_Current m = CurrentRun (rf_ID run)" "wo_PointerRemovable w" "wo_FlagRemovable w"
  shows "mc_Current (osUpgradeForget w m run) = CurrentNone" "mc_Flag (osUpgradeForget w m run) = None"
  using assms by (auto simp: osUpgradeForget_def clearOSUpgradeCurrent_def clearOSUpgradeBusy_def)

lemma flag_current [simp]: "mc_Current (osUpgradeKeepFlagLocked w m run state unit) = mc_Current m"
  using clear_busy_fields(1) [of w m]
  by (cases "clearOSUpgradeBusy w m") (auto simp: osUpgradeKeepFlagLocked_def setOSUpgradeBusy_def osUpgradeQuietUntil_def split: option.split bool.split)


definition closed_run :: run_folder where
  "closed_run = example_run [(of_attempt MkAck 0 1)\<lparr>mk_Result := Some ResAcknowledge\<rparr>] no_files"


subsection \<open>Every history of the core\<close>

lemma keeps_reboot:
  assumes "folders_ok m"
  shows "kept m (fst (RebootSystemOSUpgrade w g m))"
proof -
  obtain m' a r where e: "RebootSystemOSUpgrade w g m = (m', a, r)" by (metis surj_pair)
  have "kept m m'" using e
  proof (cases rule: restart_cases)
    case refused
    then show ?thesis using assms keeps_barrier kept_refl by blast
  next
    case (asked run state m2 run2)
    let ?m1 = "fst (osUpgradeKeepBarrier g m run state)"
    have k: "kept m ?m1" by (rule keeps_barrier [OF assms])
    obtain run1 state1 where a: "run2 = run1\<lparr>rf_Markers := rf_Markers run1 @ [carried (reboot_marker MkRebootRequested w)]\<rparr>" "m2 = put_run ?m1 run2"
      "mc_Runs ?m1 (rf_ID run1) = Some run1"
      by (rule asked_written [OF asked(3) kept_folders [OF k]])
    have "same_run run1 run2" unfolding a(1) by (simp add: same_run_def)
    then have k2: "kept m m2" using runs_kept_trans [OF k kept_put [OF kept_folders [OF k] a(3)]] a(2) by simp
    have r2: "mc_Runs m2 (rf_ID run2) = Some run2" by (simp add: a(2))
    have "kept m (put_run m2 run3)" if "appendOSUpgradeMarker w run2 mk = Some run3" for mk run3
      by (rule runs_kept_trans [OF k2 kept_put [OF kept_folders [OF k2] r2 append_same [OF that]]])
    then show ?thesis using asked(4) k2 by blast
  qed
  then show ?thesis by (simp add: e)
qed

lemma keeps_resume_launch:
  assumes "folders_ok m"
  shows "kept m (fst (resume_launch w g m run phase))"
proof (cases "launchPrepareLocked w m (rf_ID run) phase WhoOwner (si_UnitNow g)")
  case (Pair m1 x)
  then have 1: "kept m m1" using keeps_launch [OF assms, of w "rf_ID run" phase WhoOwner "si_UnitNow g"] by simp
  let ?m2 = "if phase = PhaseVerify then removeOSUpgradeVerdict g m1 run else m1"
  have 2: "kept m ?m2" using 1 runs_kept_trans [OF 1 keeps_verdict [OF kept_folders [OF 1]]] by simp
  have 3: "kept m (fst (launchRun w ?m2 (rf_ID run) att (si_Started g)))" for att by (rule runs_kept_trans [OF 2 keeps_launchRun [OF kept_folders [OF 2]]])
  have "fst (case launchRun w ?m2 (rf_ID run) att (si_Started g) of (m3, None) \<Rightarrow> (m3, None) | (m3, Some e) \<Rightarrow> (m3, Some (ResumeRefused (osUpgradeLaunchRefusal e)))) =
      fst (launchRun w ?m2 (rf_ID run) att (si_Started g))" for att
    by (simp split: prod.split option.split)
  then show ?thesis using Pair 1 3 by (cases x) (simp_all add: resume_launch_def Let_def)
qed

lemma keeps_resume:
  assumes "folders_ok m"
  shows "kept m (fst (ResumeSystemOSUpgrade w g m))"
proof (cases "osUpgradeCurrentWith w m (si_Unit g)")
  case (Inl r)
  then show ?thesis using assms by (simp add: ResumeSystemOSUpgrade_def kept_refl)
next
  case (Inr rs)
  obtain run state where rs: "rs = (run, state)" by fastforce
  have "kept m (fst (osUpgradeJudgeAgain w g m (rf_ID run)))"
    using assms keeps_verdict [OF assms] by (simp add: osUpgradeJudgeAgain_def kept_refl split: sum.split prod.split)
  then have "kept m (fst (case osUpgradeJudgeAgain w g m (rf_ID run) of (m1, r) \<Rightarrow> (m1, map_option ResumeRefused r)))" by (simp add: split_def)
  then show ?thesis using Inr rs assms keeps_resume_launch [OF assms] by (simp add: ResumeSystemOSUpgrade_def kept_refl)
qed

interpretation look: service_op "\<lambda>m. fst (osUpgradeSettleOnce w g m)" for w g
  by unfold_locales (rule keeps_settle)

interpretation ack: service_op "\<lambda>m. fst (osUpgradeAckLocked w m action word unit)" for w action word unit
  by unfold_locales (rule keeps_ack)

interpretation reboot: service_op "\<lambda>m. fst (RebootSystemOSUpgrade w g m)" for w g
  by unfold_locales (rule keeps_reboot)

interpretation resume: service_op "\<lambda>m. fst (ResumeSystemOSUpgrade w g m)" for w g
  by unfold_locales (rule keeps_resume)

text \<open>A history: looks and clicks in any order, each with what the machine answered then.\<close>

datatype core_event =
  Looked surroundings sight
| Acked surroundings ack_action string unit_sight
| Restarted surroundings sight
| WentOn surroundings sight

primrec happens :: "core_event \<Rightarrow> machine \<Rightarrow> machine" where
  "happens (Looked w g) m = fst (osUpgradeSettleOnce w g m)"
| "happens (Acked w action word unit) m = fst (osUpgradeAckLocked w m action word unit)"
| "happens (Restarted w g) m = fst (RebootSystemOSUpgrade w g m)"
| "happens (WentOn w g) m = fst (ResumeSystemOSUpgrade w g m)"

lemma happens_kept: "kept m m1 \<Longrightarrow> kept m (happens e m1)"
  by (cases e) (auto intro: look.op_after ack.op_after reboot.op_after resume.op_after)



end
