(* ===== verification/UpgradeVerdict.thy ===== *)
theory UpgradeVerdict
  imports UpgradeLookFacts
begin

section \<open>The verdict that a look writes down\<close>

text \<open>
  The look of the core and the judge put together: when a look judged the machine, what stands in the folder of the run is the judge's word on what the machine answered in this
  look, so that a verdict without errors is one on a machine that is as the upgrade promised.
\<close>

lemma knows_judged [simp]: "Knows (judged_facts g) x \<longleftrightarrow> Knows (si_FactsNow g) x"
  by (cases x) (auto simp: Knows_def judged_facts_def UnreadablePrefix_def Let_def)

lemma judged_fields [simp]:
  "fa_Kernel (judged_facts g) = fa_Kernel (si_FactsNow g)" "fa_Units (judged_facts g) = fa_Units (si_FactsNow g)"
  "fa_Docker (judged_facts g) = fa_Docker (si_FactsNow g)" "fa_Mergerfs (judged_facts g) = fa_Mergerfs (si_FactsNow g)"
  "fa_Pools (judged_facts g) = fa_Pools (si_FactsNow g)" "fa_Mounts (judged_facts g) = fa_Mounts (si_FactsNow g)"
  "fa_DpkgQuiet (judged_facts g) = fa_DpkgQuiet (si_FactsNow g)" "fa_System (judged_facts g) = fa_System (si_FactsNow g)"
  by (simp_all add: judged_facts_def Let_def)

lemma judged_words [simp]:
  "kernel_wrong (judged_facts g) bk = kernel_wrong (si_FactsNow g) bk" "unit_lost (judged_facts g) bk r u = unit_lost (si_FactsNow g) bk r u"
  "docker_lost b (judged_facts g) bk = docker_lost b (si_FactsNow g) bk" "mount_lost b (judged_facts g) = mount_lost b (si_FactsNow g)"
  by (simp_all add: kernel_wrong_def unit_lost_def docker_lost_def mount_lost_def)

definition verdict_on :: "sight \<Rightarrow> run_folder \<Rightarrow> machine \<Rightarrow> bool" where
  "verdict_on g run m \<longleftrightarrow>
     DoneAfter (rf_Files run) \<and> u_Answered (si_UnitNow g) \<and> \<not> si_ToldToStop g \<and> Knows (si_FactsNow g) FactSystem \<and>
     map_option rf_Verify (mc_Runs m (rf_ID run)) = Some (Some (Summarize (judge_findings g)))"

lemma judge_made:
  assumes "folders_ok m" "osUpgradeJudge w g m run since = (m1, JudgeMade)"
  shows "verdict_on g run m1"
proof -
  from assms(2) obtain fresh where f: "mc_Runs m (rf_ID run) = Some fresh" "m1 = put_run m (fresh\<lparr>rf_Verify := Some (Summarize (judge_findings g))\<rparr>)"
    and guards: "DoneAfter (rf_Files run)" "u_Answered (si_UnitNow g)" "\<not> si_ToldToStop g" "Knows (si_FactsNow g) FactSystem"
    by (auto simp: osUpgradeJudge_def split: if_splits option.splits)
  have "rf_ID fresh = rf_ID run" using assms(1) f(1) by (auto simp: folders_ok_def)
  then show ?thesis using f(2) guards by (simp add: verdict_on_def put_run_def)
qed

lemma did_judge:
  assumes "osUpgradeDo w g m run state act = (m1, Some DoJudge)"
  shows "osUpgradeJudge w g m run (st_Since state) = (m1, JudgeMade)"
proof (cases "ac_Kind act = DoJudge")
  case True
  obtain m2 j where j: "osUpgradeJudge w g m run (st_Since state) = (m2, j)" by fastforce
  have "osUpgradeDo w g m run state act = (m2, if j = JudgeMade then Some DoJudge else None)"
    using True j by (cases "ac_Phase act"; cases "ac_Who act") (simp_all add: osUpgradeDo_def)
  then show ?thesis using assms j by (simp split: if_splits)
next
  case False
  then have "snd (osUpgradeDo w g m run state act) \<noteq> Some DoJudge"
    by (cases "ac_Kind act") (auto simp: osUpgradeDo_def split: option.splits prod.splits)
  then show ?thesis using assms by simp
qed

lemma rest_judged:
  assumes "folders_ok m" "look_rest w g m run i state = (m', Some DoJudge)"
  shows "verdict_on g run m'"
proof -
  let ?m1 = "osUpgradeNoteRefresh w m run"
  obtain m2 doc where b: "osUpgradeKeepBarrier g ?m1 run state = (m2, doc)" by fastforce
  let ?i = "if st_Name state = StateResuming then i\<lparr>in_Ready := osUpgradeReady g\<rparr> else i"
  obtain m3 did where d: "osUpgradeDo w g m2 run state (NextAction state ?i) = (m3, did)" by fastforce
  have e: "did = Some DoJudge" "m' = osUpgradeKeepQuiet m3 state" using assms(2) b d by (simp_all add: look_rest_def Let_def)
  have "folders_ok ?m1" using assms(1) by (simp add: folders_ok_def)
  then have "folders_ok m2" using keeps_barrier [of ?m1 g run state] b kept_folders by fastforce
  then have "verdict_on g run m3" using judge_made did_judge d e(1) by blast
  then show ?thesis by (simp add: e(2) verdict_on_def osUpgradeKeepQuiet_def)
qed

lemma look_judged:
  assumes "folders_ok m" "mc_Runs m (rf_ID run) = Some run" "look_run w g m run = (m', Some DoJudge)"
  shows "verdict_on g run m'"
proof -
  let ?i = "osUpgradeInputWith w run (si_Unit g)"
  let ?state = "osUpgradeStateOf run ?i"
  obtain m1 where d: "osUpgradeForgetDeadStart w m run (si_Unit g) = (m1, False)"
  proof (cases "osUpgradeForgetDeadStart w m run (si_Unit g)")
    case (Pair m1 dead)
    then show ?thesis using assms(3) that by (cases dead) (simp_all add: look_run_def)
  qed
  then have r1: "mc_Runs m1 = mc_Runs m" using runs_kept(4) [of w m run "si_Unit g"] by simp
  let ?m2 = "osUpgradeKeepFlagLocked w m1 run ?state (si_Unit g)" let ?m3 = "osUpgradeSeeBoot w g ?m2 run ?state"
  have ok: "folders_ok ?m2" "mc_Runs ?m2 (rf_ID run) = Some run" using assms(1,2) unfolding folders_ok_def runs_kept r1 by (blast, blast)
  note k = keeps_seeBoot [OF ok, of w g ?state]
  obtain again where again: "mc_Runs ?m3 (rf_ID run) = Some again" "same_run run again" using k ok(2) unfolding kept_def by blast
  let ?i2 = "osUpgradeInputWith w again (si_Unit g)"
  consider "look_rest w g ?m2 run ?i ?state = (m', Some DoJudge)" | "look_rest w g ?m3 again ?i2 (osUpgradeStateOf again ?i2) = (m', Some DoJudge)"
  proof (cases "b_OK (wo_Boot w) \<and> st_Busy ?state \<and> \<not> BootKnown (rf_Markers run) (b_Now (wo_Boot w))")
    case True
    then have "look_run w g m run = look_rest w g ?m3 again ?i2 (osUpgradeStateOf again ?i2)"
      using d again(1) by (simp add: look_run_def Let_def)
    then show ?thesis using assms(3) that(2) by simp
  next
    case False
    then have "look_run w g m run = look_rest w g ?m2 run ?i ?state" using d unfolding look_run_def Let_def by auto
    then show ?thesis using assms(3) that(1) by simp
  qed
  then show ?thesis
  proof cases
    case 1
    then show ?thesis using rest_judged [OF ok(1)] by blast
  next
    case 2
    then have "verdict_on g again m'" using rest_judged [OF kept_folders [OF k]] by blast
    then show ?thesis using again(2) by (simp add: verdict_on_def same_run_def)
  qed
qed

text \<open>
  (C10) A verdict without errors is earned: when a look of the core judged the machine and the verdict that stands in the folder of the run then has no error, the last block of the
  check had ended, systemd answered, and in this look the machine said that it is ready; the kernel, the units of CasaOS, Docker, the mounts and dpkg are as the upgrade
  promised, as far as they could be asked.
\<close>

theorem green_verdict_is_earned:
  assumes "folders_ok m" "mc_Current m = CurrentRun i" "osUpgradeSettleOnce w g m = (m', Some DoJudge)"
    and "mc_Runs m' i = Some run'" "rf_Verify run' = Some v" "vr_Errors v = 0"
  shows "DoneAfter (rf_Files run') \<and> u_Answered (si_UnitNow g) \<and> systemReady (fa_System (si_FactsNow g)) \<and>
    \<not> kernel_wrong (si_FactsNow g) (bk_of g) \<and> \<not> docker_lost (si_FactsBefore g) (si_FactsNow g) (bk_of g) \<and> \<not> mount_lost (si_FactsBefore g) (si_FactsNow g) \<and>
    \<not> (Knows (si_FactsNow g) FactUnits \<and> (\<exists>u. unit_lost (si_FactsNow g) (bk_of g) (si_FactsRestart g) u)) \<and>
    \<not> (Knows (si_FactsNow g) FactDpkg \<and> \<not> fa_DpkgQuiet (si_FactsNow g))"
proof -
  obtain run where run: "mc_Runs m i = Some run" "look_run w g m run = (m', Some DoJudge)"
    using assms(2,3) by (cases "mc_Runs m i") (simp_all add: osUpgradeSettleOnce_def)
  then have id: "rf_ID run = i" "mc_Runs m (rf_ID run) = Some run" using assms(1) by (auto simp: folders_ok_def)
  have v: "verdict_on g run m'" using look_judged [OF assms(1) id(2) run(2)] .
  have "kept m m'" using keeps_settle [OF assms(1), of w g] assms(3) by simp
  then have s: "same_run run run'" using run(1) assms(4) unfolding kept_def by fastforce
  have "v = Summarize (judge_findings g)" using v id(1) assms(4,5) by (simp add: verdict_on_def)
  then have "vr_Errors (Summarize (JudgeWith (si_FactsBefore g) (judged_facts g) (bk_of g) (si_FactsRestart g))) = 0"
    using assms(6) by (simp add: judge_findings_def)
  then have e: "\<not> kernel_wrong (si_FactsNow g) (bk_of g) \<and> \<not> (Knows (si_FactsNow g) FactUnits \<and> (\<exists>u. unit_lost (si_FactsNow g) (bk_of g) (si_FactsRestart g) u)) \<and>
    \<not> docker_lost (si_FactsBefore g) (si_FactsNow g) (bk_of g) \<and> \<not> mount_lost (si_FactsBefore g) (si_FactsNow g) \<and>
    \<not> (Knows (si_FactsNow g) FactDpkg \<and> \<not> fa_DpkgQuiet (si_FactsNow g)) \<and> \<not> (Knows (si_FactsNow g) FactSystem \<and> \<not> systemReady (fa_System (si_FactsNow g)))"
    unfolding summarize_zero no_severity of_severity has_the_judge judged_words judged_fields knows_judged .
  moreover have "DoneAfter (rf_Files run')" "u_Answered (si_UnitNow g)" "Knows (si_FactsNow g) FactSystem"
    using v s by (simp_all add: verdict_on_def same_run_def)
  ultimately show ?thesis by blast
qed

definition checked_run :: run_folder where
  "checked_run = example_run
     [(of_attempt MkAttempt 1 1)\<lparr>mk_Phase := Some PhaseRun, mk_Who := Some WhoOwner\<rparr>,
      (of_attempt MkUnitStart 1 2)\<lparr>mk_Phase := Some PhaseRun, mk_Boot := boot_b\<rparr>,
      (of_attempt MkRebootPending 1 3)\<lparr>mk_Boot := boot_b\<rparr>, (of_attempt MkUnitEnd 1 4)\<lparr>mk_Result := Some ResOk\<rparr>,
      (of_attempt MkBootSeen 0 5)\<lparr>mk_Boot := boot_a\<rparr>, (of_attempt MkAttempt 2 5)\<lparr>mk_Phase := Some PhaseVerify, mk_Who := Some WhoAuto\<rparr>,
      (of_attempt MkUnitStart 2 6)\<lparr>mk_Phase := Some PhaseVerify, mk_Boot := boot_a\<rparr>, of_attempt MkVerifyDone 2 7,
      (of_attempt MkUnitEnd 2 8)\<lparr>mk_Result := Some ResOk\<rparr>] all_files"

abbreviation checked_state :: run_state where
  "checked_state \<equiv> osUpgradeStateOf checked_run (osUpgradeInputWith (example_surroundings 10) checked_run quiet_unit)"

lemma checked_reads:
  "st_Name checked_state = StateVerifying"
  "ac_Kind (NextAction checked_state (osUpgradeInputWith (example_surroundings 10) checked_run quiet_unit)) = DoJudge"
  "BootKnown (rf_Markers checked_run) boot_a"
  by (simp_all add: checked_run_def osUpgradeStateOf_def action_eval all_files_def service_eval reduce_eval cong: let_weak_cong)

lemma quiet_findings:
  "\<not> container_lost (judged_facts example_sight) (bk_of example_sight) (si_FactsRestart example_sight)"
  "vr_Errors (Summarize (judge_findings example_sight)) = 0"
proof -
  have k: "bk_of example_sight = (\<lambda>_. None)" "si_FactsNow example_sight = quiet_facts" "si_FactsBefore example_sight = quiet_facts" "si_FactsRestart example_sight = quiet_facts"
    by (simp_all add: example_sight_def bk_of_def ReadBKUnreadable_def bk_answer_def)
  have b: "bk_list (\<lambda>_. None) n = []" for n by (simp add: bk_list_def bkLines_def)
  show "\<not> container_lost (judged_facts example_sight) (bk_of example_sight) (si_FactsRestart example_sight)"
    by (simp add: container_lost_def ran_with_def k b)
  have "\<not> kernel_wrong quiet_facts (\<lambda>_. None)" "\<not> unit_lost quiet_facts (\<lambda>_. None) quiet_facts u" "\<not> docker_lost quiet_facts quiet_facts (\<lambda>_. None)"
    "\<not> mount_lost quiet_facts quiet_facts" "fa_DpkgQuiet quiet_facts" "systemReady (fa_System quiet_facts)" for u
    by (simp_all add: kernel_wrong_def kernel_expected_def unit_lost_def casaosUnitStates_def docker_lost_def mount_lost_def systemReady_def b quiet_facts_def)
  then show "vr_Errors (Summarize (judge_findings example_sight)) = 0"
    unfolding judge_findings_def summarize_zero no_severity of_severity has_the_judge judged_words judged_fields knows_judged k by simp
qed

lemma checked_judged:
  "\<exists>m' run'. osUpgradeSettleOnce (example_surroundings 10) example_sight (example_machine checked_run) = (m', Some DoJudge) \<and>
     mc_Runs m' boot_b = Some run' \<and> rf_Verify run' = Some (Summarize (judge_findings example_sight))"
proof -
  let ?w = "example_surroundings 10" and ?m = "example_machine checked_run" and ?g = example_sight
  let ?m2 = "osUpgradeKeepFlagLocked ?w ?m checked_run checked_state quiet_unit"
  have f: "rf_ID checked_run = boot_b" "rf_Kind checked_run = RunHop" "DoneAfter (rf_Files checked_run)" "\<not> dead_start ?w checked_run"
    "mc_Current ?m = CurrentRun boot_b" "mc_Runs ?m boot_b = Some checked_run" "b_Now (wo_Boot ?w) = boot_a"
    by (simp_all add: checked_run_def service_eval dead_start_def all_files_def)
  have g: "si_Unit ?g = quiet_unit" "si_UnitNow ?g = quiet_unit" "u_Answered quiet_unit" "\<not> si_ToldToStop ?g" "Knows (si_FactsNow ?g) FactSystem" "si_ResultWritable ?g"
    by (simp_all add: example_sight_def quiet_unit_def Knows_def quiet_facts_def)
  let ?m4 = "put_run ?m2 (checked_run\<lparr>rf_Verify := Some (Summarize (judge_findings ?g))\<rparr>)"
  have "\<not> has CodeContainerNotReturned (the_judge (si_FactsBefore ?g) (judged_facts ?g) (bk_of ?g) (si_FactsRestart ?g))"
    unfolding has_the_judge by (rule quiet_findings(1))
  then have "\<not> list_ex (\<lambda>f. fi_Code f = CodeContainerNotReturned) (judge_findings ?g)"
    unfolding judge_findings_def judged_set has_def list_ex_iff set_sort image_iff by metis
  then have j: "osUpgradeJudge ?w ?g ?m2 checked_run (st_Since checked_state) = (?m4, JudgeMade)"
    using f g by (simp add: osUpgradeJudge_def)
  obtain act where a: "NextAction checked_state (osUpgradeInputWith ?w checked_run quiet_unit) = act" "ac_Kind act = DoJudge" using checked_reads(2) by blast
  have d: "osUpgradeDo ?w ?g ?m2 checked_run checked_state act = (?m4, Some DoJudge)"
    using a(2) j by (cases "ac_Phase act"; cases "ac_Who act") (simp_all add: osUpgradeDo_def)
  have "osUpgradeSettleOnce ?w ?g ?m = look_rest ?w ?g ?m2 checked_run (osUpgradeInputWith ?w checked_run quiet_unit) checked_state"
    using f g checked_reads(3) by (simp add: osUpgradeSettleOnce_def look_run_def osUpgradeForgetDeadStart_def Let_def del: BootKnown.simps)
  also have "\<dots> = (osUpgradeKeepQuiet ?m4 checked_state, Some DoJudge)"
    using f d a checked_reads(1) by (simp add: look_rest_def osUpgradeNoteRefresh_def osUpgradeKeepBarrier_def Let_def)
  finally show ?thesis using f by (simp add: osUpgradeKeepQuiet_def put_run_def)
qed

theorem green_verdict_is_earned_witness:
  "DoneAfter (rf_Files checked_run) \<and> systemReady (fa_System (si_FactsNow example_sight))"
proof -
  obtain m' run' where m: "osUpgradeSettleOnce (example_surroundings 10) example_sight (example_machine checked_run) = (m', Some DoJudge)"
    "mc_Runs m' boot_b = Some run'" "rf_Verify run' = Some (Summarize (judge_findings example_sight))"
    using checked_judged by blast
  have "folders_ok (example_machine checked_run)" by (rule example_folders) (simp add: checked_run_def example_run_def boot_b_def)
  moreover have "mc_Current (example_machine checked_run) = CurrentRun boot_b" "DoneAfter (rf_Files checked_run)"
    by (simp_all add: checked_run_def service_eval all_files_def)
  ultimately show ?thesis using green_verdict_is_earned [OF _ _ m quiet_findings(2)] by blast
qed

end
