(* ===== verification/LineText.thy ===== *)
theory LineText
  imports Prelude
begin

section \<open>Lines of a log as they may be shown\<close>

text \<open>
  Models the cleaning of a line that some tool printed before it is shown or written: \<open>sanitizeLine\<close> of
  \<open>pkg/osplan/parse.go\<close> and \<open>printable\<close> of \<open>pkg/modulecmd/job.go\<close>. The regular expression \<open>urlPart\<close> is a scan: every
  part of it but the first letter is a run of a class of characters that the next part does not begin with, so the
  leftmost match is the first place where a letter, a run of scheme characters and \<open>://\<close> follow each other.
\<close>

subsection \<open>Addresses\<close>

definition lower :: "char \<Rightarrow> bool" where
  "lower c \<longleftrightarrow> CHR ''a'' \<le> c \<and> c \<le> CHR ''z''"

definition letter :: "char \<Rightarrow> bool" where
  "letter c \<longleftrightarrow> lower c \<or> CHR ''A'' \<le> c \<and> c \<le> CHR ''Z''"

definition scheme_char :: "char \<Rightarrow> bool" where
  "scheme_char c \<longleftrightarrow> letter c \<or> is_digit c \<or> c \<in> set ''+.-''"

text \<open>The blanks and the quotes that end an address: the class \<open>\s\<close> and both quotes.\<close>

definition address_end :: "char \<Rightarrow> bool" where
  "address_end c \<longleftrightarrow> c \<in> {CHR 0x09, CHR 0x0A, CHR 0x0C, CHR 0x0D, CHR '' '', CHR 0x27, CHR 0x22}"

text \<open>The part between a scheme and the host that ends with an at sign.\<close>

definition drop_user :: "string \<Rightarrow> string" where
  "drop_user s =
     (case dropWhile (\<lambda>c. \<not> address_end c \<and> c \<notin> set ''/@'') s of
        c # r \<Rightarrow> if c = CHR ''@'' then r else s
      | [] \<Rightarrow> s)"

definition host_char :: "char \<Rightarrow> bool" where
  "host_char c \<longleftrightarrow> \<not> address_end c \<and> c \<notin> set ''/?#''"

text \<open>A match at the head of a text: what replaces it and what comes behind it.\<close>

definition url_at :: "string \<Rightarrow> (string \<times> string) option" where
  "url_at s =
     (case s of
        [] \<Rightarrow> None
      | c # r \<Rightarrow>
          if \<not> letter c then None
          else (case cut_prefix ''://'' (dropWhile scheme_char r) of
                  None \<Rightarrow> None
                | Some r1 \<Rightarrow>
                    (let r2 = drop_user r1
                     in Some (c # takeWhile scheme_char r @ ''://'' @ takeWhile host_char r2,
                              dropWhile (\<lambda>c. \<not> address_end c) (dropWhile host_char r2)))))"

lemma length_drop_user: "length (drop_user s) \<le> length s"
  using length_dropWhile_le [of "\<lambda>c. \<not> address_end c \<and> c \<notin> set ''/@''" s]
  by (auto simp: drop_user_def split: list.split)

lemma url_at_shorter: "url_at s = Some (u, r) \<Longrightarrow> length r < length s"
proof (cases s)
  case (Cons c s')
  assume "url_at s = Some (u, r)"
  with Cons obtain r1 where r1: "dropWhile scheme_char s' = ''://'' @ r1"
    and r: "r = dropWhile (\<lambda>c. \<not> address_end c) (dropWhile host_char (drop_user r1))"
    by (auto simp: url_at_def Let_def cut_prefix_Some_iff simp del: append_Cons split: if_splits option.splits)
  have "length r \<le> length (drop_user r1)"
    unfolding r using length_dropWhile_le order_trans by blast
  also have "\<dots> \<le> length r1" by (rule length_drop_user)
  also have "\<dots> < length (dropWhile scheme_char s')" unfolding r1 by simp
  also have "\<dots> \<le> length s'" by (rule length_dropWhile_le)
  finally show ?thesis using Cons by simp
qed (simp add: url_at_def)

text \<open>\<open>urlPart.ReplaceAllString(l, "${1}${2}")\<close>\<close>

function replace_urls :: "string \<Rightarrow> string" where
  "replace_urls s =
     (case url_at s of
        Some (u, r) \<Rightarrow> u @ replace_urls r
      | None \<Rightarrow> (case s of [] \<Rightarrow> [] | c # r \<Rightarrow> c # replace_urls r))"
  by pat_completeness auto
termination
  by (relation "measure length") (auto simp: url_at_shorter)

declare replace_urls.simps [simp del]

subsection \<open>Printable ASCII\<close>

definition printable_char :: "char \<Rightarrow> bool" where
  "printable_char c \<longleftrightarrow> CHR '' '' \<le> c \<and> c \<le> CHR ''~''"

definition ascii_char :: "char \<Rightarrow> char" where
  "ascii_char c = (if c < CHR '' '' \<or> c > CHR ''~'' then CHR ''?'' else c)"

definition maxDetailChars :: nat where
  "maxDetailChars = 200"

definition sanitizeLine :: "string \<Rightarrow> string" where
  "sanitizeLine l =
     (let t = trim_space (map ascii_char (replace_urls l))
      in if length t > maxDetailChars then take (maxDetailChars - 3) t @ ''...'' else t)"

text \<open>\<open>printable(s, max)\<close>: the first bytes, the ones that are not printable as a question mark.\<close>

definition printable :: "string \<Rightarrow> nat \<Rightarrow> string" where
  "printable s mx = map ascii_char (take mx s)"

subsection \<open>What they leave\<close>

lemma printable_ascii_char [simp]: "printable_char (ascii_char c)"
  by (auto simp: printable_char_def ascii_char_def not_less)

lemma ascii_char_id [simp]: "printable_char c \<Longrightarrow> ascii_char c = c"
  by (auto simp: printable_char_def ascii_char_def)

lemma set_trim_space: "set (trim_space s) \<subseteq> set s"
  by (auto simp: trim_space_def dest!: set_dropWhileD)

lemma sanitizeLine_printable: "c \<in> set (sanitizeLine l) \<Longrightarrow> printable_char c"
proof -
  let ?t = "trim_space (map ascii_char (replace_urls l))"
  assume "c \<in> set (sanitizeLine l)"
  then have "c \<in> set ?t \<or> c \<in> set ''...''"
    by (auto simp: sanitizeLine_def Let_def dest: in_set_takeD split: if_splits)
  moreover have "printable_char c" if "c \<in> set ?t"
    using that set_trim_space by fastforce
  moreover have "printable_char c" if "c \<in> set ''...''"
    using that by (auto simp: printable_char_def)
  ultimately show ?thesis by blast
qed

lemma sanitizeLine_length: "length (sanitizeLine l) \<le> maxDetailChars"
  by (auto simp: sanitizeLine_def Let_def maxDetailChars_def)

lemma printable_printable: "c \<in> set (printable s n) \<Longrightarrow> printable_char c"
  by (auto simp: printable_def)

lemma printable_length: "length (printable s n) \<le> n"
  by (simp add: printable_def)

lemma printable_no_newline: "CHR 0x0A \<notin> set (printable s n)"
  using printable_printable [of "CHR 0x0A" s n] by (auto simp: printable_char_def)

subsection \<open>Nonces\<close>

text \<open>\<open>dockerpkg.ValidNonce\<close>, the nonce of the jobs and of the updates of Docker: 32 hexadecimal digits in lower case.\<close>

definition nonceOK :: "string \<Rightarrow> bool" where
  "nonceOK s \<longleftrightarrow> length s = 32 \<and> list_all (\<lambda>c. is_digit c \<or> CHR ''a'' \<le> c \<and> c \<le> CHR ''f'') s"

lemma nonceOK_free: "nonceOK s \<Longrightarrow> c \<in> {CHR '' '', CHR 0x0A, CHR 0x0D} \<Longrightarrow> c \<notin> set s"
  by (auto simp: nonceOK_def list_all_iff)

lemma nonceOK_not_Nil: "nonceOK s \<Longrightarrow> s \<noteq> []"
  by (auto simp: nonceOK_def)

end
