(* ===== verification/DockerPlan.thy ===== *)
theory DockerPlan
  imports LineText "HOL-Library.List_Lexorder" "HOL-Library.Multiset"
begin

section \<open>The plan of an update of Docker\<close>

text \<open>
  Models \<open>pkg/dockerpkg/plan.go\<close>, \<open>engine.go\<close> and the names and commands of \<open>dockerpkg.go\<close>: which packages are the engine's, what a simulation
  of apt would do, what of it the button refuses, the arguments that are made of it, the text that the identity of a
  plan is the hash of (the hash itself is a parameter), and the commands that are shown. Strings are bytes and compare
  byte by byte, as Go's do; the blanks are those of ASCII. A set that Go keeps as a map and then sorts is a list without
  doubles that is sorted.
\<close>

subsection \<open>Names and versions\<close>

definition name_base :: "string \<Rightarrow> string" where
  "name_base name = takeWhile (\<lambda>c. c \<noteq> CHR '':'') name"

definition EngineNames :: "string list" where
  "EngineNames =
     [''containerd.io'', ''docker-buildx-plugin'', ''docker-ce'', ''docker-ce-cli'', ''docker-ce-rootless-extras'',
      ''docker-compose-plugin'', ''docker-model-plugin'']"

definition family :: "string list" where
  "family = EngineNames @ [''docker.io'', ''docker-compose-v2'', ''docker-buildx'', ''containerd'']"

definition restarts :: "string list" where
  "restarts = [''docker-ce'', ''containerd.io'', ''docker.io'', ''containerd'']"

definition IsEngineName :: "string \<Rightarrow> bool" where
  "IsEngineName name \<longleftrightarrow> name_base name \<in> set EngineNames"

definition IsFamily :: "string \<Rightarrow> bool" where
  "IsFamily name \<longleftrightarrow> name_base name \<in> set family"

definition RestartsEngine :: "string list \<Rightarrow> bool" where
  "RestartsEngine names \<longleftrightarrow> list_ex (\<lambda>n. name_base n \<in> set restarts) names"

definition IsDistributionDocker :: "string \<Rightarrow> bool" where
  "IsDistributionDocker name \<longleftrightarrow> IsFamily name \<and> \<not> IsEngineName name"

definition name_char :: "char \<Rightarrow> bool" where
  "name_char c \<longleftrightarrow> lower c \<or> is_digit c \<or> c \<in> set ''+.-''"

definition arch_char :: "char \<Rightarrow> bool" where
  "arch_char c \<longleftrightarrow> lower c \<or> is_digit c"

definition ValidName :: "string \<Rightarrow> bool" where
  "ValidName name \<longleftrightarrow>
     length name \<le> 128 \<and>
     (case name_base name of c # r \<Rightarrow> arch_char c \<and> list_all name_char r | [] \<Rightarrow> False) \<and>
     (case drop (length (name_base name)) name of [] \<Rightarrow> True | _ # arch \<Rightarrow> arch \<noteq> [] \<and> list_all arch_char arch)"

definition version_char :: "char \<Rightarrow> bool" where
  "version_char c \<longleftrightarrow> letter c \<or> is_digit c \<or> c \<in> set ''.+~-''"

definition upstream_ok :: "string \<Rightarrow> bool" where
  "upstream_ok v \<longleftrightarrow> (case v of c # r \<Rightarrow> is_digit c \<and> list_all version_char r | [] \<Rightarrow> False)"

definition maxVersionLen :: nat where
  "maxVersionLen = 100"

definition ValidVersion :: "string \<Rightarrow> bool" where
  "ValidVersion v \<longleftrightarrow>
     length v \<le> maxVersionLen \<and>
     (case drop (length (name_base v)) v of
        [] \<Rightarrow> upstream_ok v
      | _ # rest \<Rightarrow> name_base v \<noteq> [] \<and> list_all (\<lambda>c. is_digit c) (name_base v) \<and> upstream_ok rest)"

text \<open>\<open>EngineVersion\<close>: an epoch when there is one before digits, then digits and the dots between digits.\<close>

function dotted :: "string \<Rightarrow> string" where
  "dotted s =
     (case s of
        p # c # r \<Rightarrow>
          if p = CHR ''.'' \<and> is_digit c
          then p # c # takeWhile (\<lambda>c. is_digit c) r @ dotted (dropWhile (\<lambda>c. is_digit c) r)
          else []
      | _ \<Rightarrow> [])"
  by pat_completeness auto
termination
  by (relation "measure length") (auto intro: le_imp_less_Suc le_SucI length_dropWhile_le)

declare dotted.simps [simp del]

definition engine_digits :: "string \<Rightarrow> string" where
  "engine_digits s =
     (if takeWhile (\<lambda>c. is_digit c) s = [] then []
      else takeWhile (\<lambda>c. is_digit c) s @ dotted (dropWhile (\<lambda>c. is_digit c) s))"

definition EngineVersion :: "string \<Rightarrow> string" where
  "EngineVersion dpkg =
     (let s = trim_space dpkg;
          rest = dropWhile (\<lambda>c. is_digit c) s
      in if takeWhile (\<lambda>c. is_digit c) s \<noteq> [] \<and> rest \<noteq> [] \<and> hd rest = CHR '':'' \<and> engine_digits (tl rest) \<noteq> []
         then engine_digits (tl rest) else engine_digits s)"

definition Major :: "string \<Rightarrow> string" where
  "Major v =
     (let version = EngineVersion v;
          major = dropWhile (\<lambda>c. c = CHR ''0'') (takeWhile (\<lambda>c. c \<noteq> CHR ''.'') version)
      in if major = [] \<and> version \<noteq> [] then ''0'' else major)"

definition MajorJump :: "string \<Rightarrow> string \<Rightarrow> bool" where
  "MajorJump from to \<longleftrightarrow> Major from \<noteq> [] \<and> Major to \<noteq> [] \<and> Major from \<noteq> Major to"

subsection \<open>What a simulation says\<close>

record plan_package =
  pp_Name :: string
  pp_Current :: string
  pp_Candidate :: string
  pp_New :: bool

record plan =
  pl_Packages :: "plan_package list"
  pl_Removed :: "string list"
  pl_Held :: "string list"

text \<open>The class \<open>\s\<close> of a regular expression, and \<open>strings.Fields\<close>.\<close>

definition re_space :: "char \<Rightarrow> bool" where
  "re_space c \<longleftrightarrow> c \<in> {CHR 0x09, CHR 0x0A, CHR 0x0C, CHR 0x0D, CHR '' ''}"

function fields :: "string \<Rightarrow> string list" where
  "fields s =
     (let t = dropWhile white s
      in if t = [] then [] else takeWhile (\<lambda>c. \<not> white c) t # fields (dropWhile (\<lambda>c. \<not> white c) t))"
  by pat_completeness auto
termination
proof (relation "measure length")
  fix s t :: string
  assume t: "t = dropWhile white s" "t \<noteq> []"
  then have "\<not> white (hd t)" using hd_dropWhile by blast
  then have "length (dropWhile (\<lambda>c. \<not> white c) t) < length t" using t(2) by (cases t) (auto simp: le_imp_less_Suc length_dropWhile_le)
  also have "\<dots> \<le> length s" unfolding t(1) by (rule length_dropWhile_le)
  finally show "(dropWhile (\<lambda>c. \<not> white c) t, s) \<in> measure length" by simp
qed simp

declare fields.simps [simp del]

text \<open>\<open>planLinePattern\<close> on a trimmed line: the word, and what follows the blanks behind it.\<close>

definition plan_line :: "string \<Rightarrow> (string \<times> string) option" where
  "plan_line l =
     (let word = take 4 l; rest = drop 4 l
      in if word \<notin> {''Inst'', ''Remv'', ''Purg''} then None
         else if rest = [] then Some (word, [])
         else if re_space (hd rest) then Some (word, dropWhile re_space rest)
         else None)"

text \<open>\<open>planInstPattern\<close>: the name, the version in square brackets when they are there, the version behind the round bracket.\<close>

definition inst_brackets :: "string \<Rightarrow> (string \<times> string) option" where
  "inst_brackets s =
     (case dropWhile re_space s of
        c # r \<Rightarrow>
          if s \<noteq> [] \<and> re_space (hd s) \<and> c = CHR ''['' \<and> CHR '']'' \<in> set r
          then Some (takeWhile (\<lambda>c. c \<noteq> CHR '']'') r, tl (dropWhile (\<lambda>c. c \<noteq> CHR '']'') r))
          else None
      | [] \<Rightarrow> None)"

definition inst_candidate :: "string \<Rightarrow> string" where
  "inst_candidate s =
     (case dropWhile re_space s of
        c # r \<Rightarrow> if s \<noteq> [] \<and> re_space (hd s) \<and> c = CHR ''('' then takeWhile (\<lambda>c. \<not> re_space c) r else []
      | [] \<Rightarrow> [])"

definition inst_package :: "string \<Rightarrow> plan_package" where
  "inst_package s =
     (let name = takeWhile (\<lambda>c. \<not> re_space c) s; rest = dropWhile (\<lambda>c. \<not> re_space c) s
      in if name = [] then \<lparr>pp_Name = [], pp_Current = [], pp_Candidate = [], pp_New = True\<rparr>
         else (case inst_brackets rest of
                 Some (current, rest') \<Rightarrow>
                   \<lparr>pp_Name = name, pp_Current = current, pp_Candidate = inst_candidate rest', pp_New = False\<rparr>
               | None \<Rightarrow> \<lparr>pp_Name = name, pp_Current = [], pp_Candidate = inst_candidate rest, pp_New = True\<rparr>))"

definition add_line :: "plan \<Rightarrow> string \<Rightarrow> plan" where
  "add_line p line =
     (case plan_line (trim_space line) of
        None \<Rightarrow> p
      | Some (word, rest) \<Rightarrow>
          if word \<noteq> ''Inst''
          then p\<lparr>pl_Removed := pl_Removed p @ [case fields rest of [] \<Rightarrow> [] | f # _ \<Rightarrow> f]\<rparr>
          else p\<lparr>pl_Packages := pl_Packages p @ [inst_package rest]\<rparr>)"

definition ParsePlan :: "string \<Rightarrow> plan" where
  "ParsePlan simulation =
     foldl add_line \<lparr>pl_Packages = [], pl_Removed = [], pl_Held = []\<rparr> (split_on CHR 0x0A simulation)"

subsection \<open>What the button refuses\<close>

definition InvalidName :: string where "InvalidName = ''(invalid name)''"
definition TooManyNew :: string where "TooManyNew = ''(more than 10 new packages)''"
definition MaxNewPackages :: nat where "MaxNewPackages = 10"

definition pkg_offending :: "plan_package \<Rightarrow> bool" where
  "pkg_offending pkg =
     (if \<not> ValidName (pp_Name pkg) \<or> \<not> ValidVersion (pp_Candidate pkg) then True
      else if pp_New pkg then IsDistributionDocker (pp_Name pkg)
      else \<not> IsEngineName (pp_Name pkg) \<or> \<not> ValidVersion (pp_Current pkg))"

definition shown_name :: "string \<Rightarrow> string" where
  "shown_name name = (if \<not> ValidName name then InvalidName else name)"

definition Offending :: "plan \<Rightarrow> string list" where
  "Offending p =
     sort (remdups (map shown_name (pl_Removed p) @
                    map (\<lambda>pkg. shown_name (pp_Name pkg)) (filter pkg_offending (pl_Packages p)) @
                    (if length (filter pp_New (pl_Packages p)) > MaxNewPackages then [TooManyNew] else [])))"

text \<open>The lines that the identity of a plan is the hash of.\<close>

definition package_line :: "plan_package \<Rightarrow> string" where
  "package_line pkg = pp_Name pkg @ '' '' @ pp_Current pkg @ ''>'' @ pp_Candidate pkg"

definition heldLine :: "string list \<Rightarrow> string" where
  "heldLine held = ''held '' @ join_on CHR '' '' (sort held)"

definition plan_lines :: "plan \<Rightarrow> string list" where
  "plan_lines p = sort (map package_line (pl_Packages p) @ (if pl_Held p \<noteq> [] then [heldLine (pl_Held p)] else []))"

definition ID :: "(string \<Rightarrow> string) \<Rightarrow> plan \<Rightarrow> string" where
  "ID digest p = digest (join_on CHR 0x0A (plan_lines p))"

definition Pins :: "plan \<Rightarrow> string list" where
  "Pins p =
     sort (map (\<lambda>pkg. pp_Name pkg @ ''='' @ pp_Candidate pkg) (filter (\<lambda>pkg. \<not> pp_New pkg \<and> \<not> pkg_offending pkg) (pl_Packages p)))"

definition Names :: "plan \<Rightarrow> string list" where
  "Names p = sort (map pp_Name (filter (\<lambda>pkg. \<not> pkg_offending pkg) (pl_Packages p)))"

definition Dependencies :: "plan \<Rightarrow> string list" where
  "Dependencies p =
     sort (map pp_Name (filter (\<lambda>pkg. pp_New pkg \<and> \<not> pkg_offending pkg \<and> \<not> IsEngineName (pp_Name pkg)) (pl_Packages p)))"

definition Engine :: "plan \<Rightarrow> string \<times> string" where
  "Engine p =
     (case List.find (\<lambda>pkg. name_base (pp_Name pkg) = ''docker-ce'') (pl_Packages p) of
        Some pkg \<Rightarrow> (EngineVersion (pp_Current pkg), EngineVersion (pp_Candidate pkg))
      | None \<Rightarrow> ([], []))"

subsection \<open>Commands that are shown\<close>

datatype origin = OriginDockerRepo | OriginDistribution | OriginSnap | OriginUnknown

definition CanSeeUpdates :: "origin \<Rightarrow> bool" where
  "CanSeeUpdates o' \<longleftrightarrow> o' = OriginDockerRepo \<or> o' = OriginDistribution"

primrec defaultPackages :: "origin \<Rightarrow> string list option" where
  "defaultPackages OriginDockerRepo =
     Some [''docker-ce'', ''docker-ce-cli'', ''containerd.io'', ''docker-buildx-plugin'', ''docker-compose-plugin'']"
| "defaultPackages OriginDistribution = Some [''docker.io'']"
| "defaultPackages OriginSnap = None"
| "defaultPackages OriginUnknown = None"

definition sortedNames :: "string list \<Rightarrow> string list" where
  "sortedNames names = sort (remdups names)"

definition manualNames :: "origin \<Rightarrow> string list \<Rightarrow> string list option" where
  "manualNames org pending =
     (case defaultPackages org of
        None \<Rightarrow> None
      | Some defaults \<Rightarrow>
          (let chosen = map name_base (filter IsFamily pending) in Some (if chosen = [] then defaults else chosen)))"

definition holdNames :: "string list \<Rightarrow> string list" where
  "holdNames names = sortedNames (filter (\<lambda>n. IsFamily n \<and> CHR '':'' \<notin> set n) names)"

definition manualHead :: string where
  "manualHead = ''sudo apt-get update && sudo apt-get install --only-upgrade ''"

definition allowHeldFlag :: string where
  "allowHeldFlag = ''--allow-change-held-packages''"

definition ManualCommand :: "origin \<Rightarrow> string list \<Rightarrow> string" where
  "ManualCommand org pending =
     (if org = OriginSnap then ''sudo snap refresh docker''
      else (case manualNames org pending of
              None \<Rightarrow> []
            | Some chosen \<Rightarrow> manualHead @ join_on CHR '' '' (sortedNames chosen)))"

definition ManualCommandHeld :: "origin \<Rightarrow> string list \<Rightarrow> string list \<Rightarrow> string list \<Rightarrow> string" where
  "ManualCommandHeld org pending installed held =
     (let holds = holdNames held
      in case manualNames org pending of
           None \<Rightarrow> ManualCommand org pending
         | Some chosen \<Rightarrow>
             if holds = [] then ManualCommand org pending
             else manualHead @ allowHeldFlag @ '' '' @ join_on CHR '' '' (sortedNames (chosen @ holdNames installed @ holds)) @
                  '' ; sudo apt-mark hold '' @ join_on CHR '' '' holds)"

end
