(* ===== verification/LineReader.thy ===== *)
theory LineReader
  imports Prelude
begin

section \<open>Readers of logs\<close>

text \<open>
  The contract of a reader that is fed a log line by line: a step on a state, an equivalence of states that says what of the state
  matters, and the lines that say nothing in a state. A reader that keeps the contract reads a log as it reads the log without
  any number of such lines. The readers of the log of a module and of the log of a Docker update are instances.
\<close>

locale line_reader =
  fixes step :: "'s \<Rightarrow> 'l \<Rightarrow> 's"
    and same :: "'s \<Rightarrow> 's \<Rightarrow> bool"
    and silent :: "'s \<Rightarrow> 'l \<Rightarrow> bool"
  assumes same_refl: "same s s"
    and same_trans: "same s t \<Longrightarrow> same t u \<Longrightarrow> same s u"
    and step_same: "same s t \<Longrightarrow> same (step s x) (step t x)"
    and silent_same: "same s t \<Longrightarrow> silent t x \<Longrightarrow> silent s x"
    and silent_step: "silent s x \<Longrightarrow> same (step s x) s"
begin

lemma fold_same: "same s t \<Longrightarrow> same (foldl step s xs) (foldl step t xs)"
  by (induction xs arbitrary: s t) (auto intro: step_same)

lemma fold_silent: "list_all (silent s) zs \<Longrightarrow> same (foldl step s zs) s"
proof (induction zs rule: rev_induct)
  case Nil
  show ?case by (simp add: same_refl)
next
  case (snoc z zs)
  then have s: "same (foldl step s zs) s" by simp
  then have "silent (foldl step s zs) z" using snoc.prems silent_same by simp
  then show ?case using silent_step [of _ z] same_trans [OF _ s] by simp
qed

lemma silent_lines: "list_all (silent s) zs \<Longrightarrow> same (foldl step s (zs @ ys)) (foldl step s ys)"
  using fold_same [OF fold_silent] by simp

end

text \<open>
  The contract of a reader whose state keeps a rule and only grows, in a sense of its own: then so does the reading of any number of
  lines.
\<close>

locale growing_reader =
  fixes step :: "'s \<Rightarrow> 'l \<Rightarrow> 's"
    and rule :: "'s \<Rightarrow> bool"
    and grows :: "'s \<Rightarrow> 's \<Rightarrow> bool"
  assumes step_rule: "rule s \<Longrightarrow> rule (step s x)"
    and grows_refl: "grows s s"
    and grows_trans: "grows s t \<Longrightarrow> grows t u \<Longrightarrow> grows s u"
    and step_grows: "rule s \<Longrightarrow> grows s (step s x)"
begin

lemma fold_rule: "rule s \<Longrightarrow> rule (foldl step s xs)"
  by (induction xs arbitrary: s) (auto intro: step_rule)

lemma fold_grows: "rule s \<Longrightarrow> grows s (foldl step s xs)"
  by (induction xs rule: rev_induct) (auto intro: grows_refl grows_trans step_grows fold_rule)

end

end
