(* ===== verification/DockerRun.thy ===== *)
theory DockerRun
  imports DockerPlan Calendar LineReader
begin

section \<open>The log of an update of Docker\<close>

text \<open>
  Models \<open>pkg/dockerpkg/run.go\<close>, \<open>marker.go\<close> and the checks of names of \<open>containers.go\<close>: the update runs in a unit of its own and reports in a
  log to which apt, dpkg, the scripts of packages and Docker write too. The first line, which the core writes, carries
  the nonce; a line behind it counts only when it is a marker with that nonce, and all its fields are checked again.
\<close>

subsection \<open>Words\<close>

definition dockerPrefix :: string where
  "dockerPrefix = ''CASAOS_DOCKER_UPDATE_''"

datatype terminal = TerminalSuccess | TerminalRestartPending | TerminalFailed

datatype fail_reason = FailGuard | FailDownload | FailInstall | FailDaemon | FailStart

primrec fail_word :: "fail_reason \<Rightarrow> string" where
  "fail_word FailGuard = ''guard''"
| "fail_word FailDownload = ''download''"
| "fail_word FailInstall = ''install''"
| "fail_word FailDaemon = ''daemon''"
| "fail_word FailStart = ''start''"

definition FailReasons :: "fail_reason list" where
  "FailReasons = [FailGuard, FailDownload, FailInstall, FailDaemon, FailStart]"

interpretation fail: vocabulary fail_word FailReasons
proof
  show "x \<in> set FailReasons" for x by (cases x) (simp_all add: FailReasons_def)
  show "distinct (map fail_word FailReasons)" by (simp add: FailReasons_def)
  show "plain_word (fail_word x)" for x by (cases x) simp_all
qed

datatype docker_phase =
  PhasePreparing | PhaseDownloading | PhaseInstalling | PhaseWaitingDocker | PhaseWaitingContainers

text \<open>\<open>NewNonce\<close>: the bytes that the system's source gave, in hexadecimal digits.\<close>

definition hex_digit :: "nat \<Rightarrow> char" where
  "hex_digit d = (if d < 10 then digit_char d else char_of (87 + d))"

definition NewNonce :: "nat list \<Rightarrow> string" where
  "NewNonce bytes = concat (map (\<lambda>b. [hex_digit (b div 16), hex_digit (b mod 16)]) bytes)"

subsection \<open>The lines that the core writes\<close>

definition QueuedMarker :: "string \<Rightarrow> instant \<Rightarrow> string" where
  "QueuedMarker nonce at = dockerPrefix @ ''QUEUED '' @ nonce @ '' '' @ FormatTime at @ [CHR 0x0A]"

definition FailedMarker :: "string \<Rightarrow> instant \<Rightarrow> fail_reason \<Rightarrow> string" where
  "FailedMarker nonce at reason = dockerPrefix @ ''FAILED '' @ nonce @ '' '' @ FormatTime at @ '' '' @ fail_word reason @ [CHR 0x0A]"

definition validPlanVersion :: "string \<Rightarrow> bool" where
  "validPlanVersion v \<longleftrightarrow>
     length v \<le> maxVersionLen \<and>
     list_all (\<lambda>w. w \<noteq> [] \<and> list_all (\<lambda>c. is_digit c) w) (split_on CHR ''.'' v)"

definition planVersion :: "string \<Rightarrow> string" where
  "planVersion v = (if validPlanVersion v then v else ''-'')"

definition PlanMarker :: "string \<Rightarrow> string \<Rightarrow> string \<Rightarrow> bool \<Rightarrow> string" where
  "PlanMarker nonce from to majorJump =
     dockerPrefix @ ''PLAN '' @ nonce @ '' '' @ planVersion from @ '' '' @ planVersion to @ '' '' @
     (if majorJump then ''1'' else ''0'') @ [CHR 0x0A]"

subsection \<open>The fields of the markers\<close>

definition plan_field :: "string \<Rightarrow> string option" where
  "plan_field f = (if f = ''-'' then Some [] else if validPlanVersion f then Some f else None)"

definition planFields :: "string list \<Rightarrow> (string \<times> string \<times> bool) option" where
  "planFields fs =
     (case fs of
        [a, b, jump] \<Rightarrow>
          (case plan_field a of
             None \<Rightarrow> None
           | Some from \<Rightarrow>
               (case plan_field b of
                  None \<Rightarrow> None
                | Some to \<Rightarrow> if jump = ''0'' then Some (from, to, False) else if jump = ''1'' then Some (from, to, True) else None))
      | _ \<Rightarrow> None)"

definition oneTime :: "string list \<Rightarrow> instant option" where
  "oneTime fs = (case fs of [t] \<Rightarrow> parse_rfc3339 t | _ \<Rightarrow> None)"

definition validPin :: "string \<Rightarrow> bool" where
  "validPin pin \<longleftrightarrow>
     (let name = takeWhile (\<lambda>c. c \<noteq> CHR ''='') pin
      in CHR ''='' \<in> set pin \<and> ValidName name \<and> IsEngineName name \<and> ValidVersion (drop (length name + 1) pin))"

fun valid_pins_from :: "string list \<Rightarrow> string list \<Rightarrow> string list" where
  "valid_pins_from seen [] = []"
| "valid_pins_from seen (pin # pins) =
     (if pin \<in> set seen \<or> \<not> validPin pin then valid_pins_from seen pins else pin # valid_pins_from (pin # seen) pins)"

definition validPins :: "string list \<Rightarrow> string list option" where
  "validPins fs = (let pins = valid_pins_from [] fs in if pins = [] then None else Some pins)"

definition heldNames :: "string list \<Rightarrow> string list option" where
  "heldNames fs =
     (if fs = [''-''] then Some []
      else if fs = [] then None
      else if distinct fs \<and> list_all (\<lambda>n. CHR '':'' \<notin> set n \<and> IsEngineName n) fs then Some (sort fs)
      else None)"

definition container_char :: "char \<Rightarrow> bool" where
  "container_char c \<longleftrightarrow> letter c \<or> is_digit c \<or> c \<in> set ''_.-''"

definition validContainerName :: "string \<Rightarrow> bool" where
  "validContainerName n \<longleftrightarrow>
     length n \<le> 128 \<and> (case n of c # r \<Rightarrow> (letter c \<or> is_digit c) \<and> list_all container_char r | [] \<Rightarrow> False)"

definition validRestartPolicy :: "string \<Rightarrow> bool" where
  "validRestartPolicy p \<longleftrightarrow> length p \<le> 32 \<and> list_all (\<lambda>c. lower c \<or> c = CHR ''-'') p"

definition validDaemonVersion :: "string \<Rightarrow> bool" where
  "validDaemonVersion v \<longleftrightarrow>
     length v \<le> 100 \<and>
     (case v of c # r \<Rightarrow> (letter c \<or> is_digit c) \<and> list_all (\<lambda>c. letter c \<or> is_digit c \<or> c \<in> set ''.+~_-'') r | [] \<Rightarrow> False)"

definition notReturned :: "string list \<Rightarrow> (string \<times> string) option" where
  "notReturned fs =
     (if fs = [] \<or> length fs > 2 then None
      else (let name = fs ! 0; policy = (if length fs = 2 then fs ! 1 else [])
            in if \<not> validContainerName name \<or> \<not> validRestartPolicy policy then None else Some (name, policy)))"

subsection \<open>The reader\<close>

record docker_run =
  dr_Nonce :: string
  dr_QueuedAt :: instant
  dr_StartedAt :: instant
  dr_DownloadedAt :: instant
  dr_InstalledAt :: instant
  dr_CompletedAt :: instant
  dr_PreviousSeen :: bool
  dr_Terminal :: "terminal option"
  dr_FailReason :: "fail_reason option"
  dr_Previous :: "string list option"
  dr_DaemonVersion :: string
  dr_NotReturned :: "(string \<times> string) list"
  dr_From :: string
  dr_To :: string
  dr_MajorJump :: bool
  dr_Held :: "string list option"
  dr_Holds :: "string list option"

definition no_run :: docker_run where
  "no_run =
     \<lparr>dr_Nonce = [], dr_QueuedAt = zero_time, dr_StartedAt = zero_time, dr_DownloadedAt = zero_time, dr_InstalledAt = zero_time,
      dr_CompletedAt = zero_time, dr_PreviousSeen = False, dr_Terminal = None, dr_FailReason = None, dr_Previous = None,
      dr_DaemonVersion = [], dr_NotReturned = [], dr_From = [], dr_To = [], dr_MajorJump = False, dr_Held = None, dr_Holds = None\<rparr>"

text \<open>\<open>strings.Cut\<close> on a blank: what is before it and, when it is there, what is behind.\<close>

definition cut_blank :: "string \<Rightarrow> string \<times> string option" where
  "cut_blank s =
     (takeWhile (\<lambda>c. c \<noteq> CHR '' '') s,
      case dropWhile (\<lambda>c. c \<noteq> CHR '' '') s of [] \<Rightarrow> None | _ # r \<Rightarrow> Some r)"

definition markerOf :: "string \<Rightarrow> string \<Rightarrow> (string \<times> string list) option" where
  "markerOf line nonce =
     (case cut_prefix dockerPrefix line of
        None \<Rightarrow> None
      | Some rest \<Rightarrow>
          (case cut_blank rest of
             (kind, None) \<Rightarrow> None
           | (kind, Some rest1) \<Rightarrow>
               (case cut_blank rest1 of
                  (given, rest2) \<Rightarrow>
                    if given \<noteq> nonce then None else Some (kind, DockerPlan.fields (case rest2 of None \<Rightarrow> [] | Some r \<Rightarrow> r)))))"

definition trim_cr :: "string \<Rightarrow> string" where
  "trim_cr s = rev (dropWhile (\<lambda>c. c = CHR 0x0D) (rev s))"

text \<open>What a marker does to a run; the flag is whether a plan was seen.\<close>

definition take_docker :: "string \<Rightarrow> string list \<Rightarrow> docker_run \<times> bool \<Rightarrow> docker_run \<times> bool" where
  "take_docker kind fs s =
     (case s of (run, planSeen) \<Rightarrow>
        if kind = ''STARTED''
        then (case oneTime fs of Some t \<Rightarrow> if dr_StartedAt run = zero_time then (run\<lparr>dr_StartedAt := t\<rparr>, planSeen) else s | None \<Rightarrow> s)
        else if kind = ''DOWNLOADED''
        then (case oneTime fs of Some t \<Rightarrow> if dr_DownloadedAt run = zero_time then (run\<lparr>dr_DownloadedAt := t\<rparr>, planSeen) else s | None \<Rightarrow> s)
        else if kind = ''INSTALLED''
        then (case oneTime fs of Some t \<Rightarrow> if dr_InstalledAt run = zero_time then (run\<lparr>dr_InstalledAt := t\<rparr>, planSeen) else s | None \<Rightarrow> s)
        else if kind = ''PREVIOUS''
        then (run\<lparr>dr_PreviousSeen := True, dr_Previous := (if dr_Previous run = None then validPins fs else dr_Previous run)\<rparr>, planSeen)
        else if kind = ''PLAN''
        then (case planFields fs of
                Some (from, to, jump) \<Rightarrow>
                  if \<not> planSeen then (run\<lparr>dr_From := from, dr_To := to, dr_MajorJump := jump\<rparr>, True) else s
              | None \<Rightarrow> s)
        else if kind = ''HELD''
        then (case heldNames fs of Some ns \<Rightarrow> if dr_Held run = None then (run\<lparr>dr_Held := Some ns\<rparr>, planSeen) else s | None \<Rightarrow> s)
        else if kind = ''HOLDS''
        then (case heldNames fs of Some ns \<Rightarrow> (run\<lparr>dr_Holds := Some ns\<rparr>, planSeen) | None \<Rightarrow> s)
        else if kind = ''DAEMON''
        then (case fs of [v] \<Rightarrow> if validDaemonVersion v then (run\<lparr>dr_DaemonVersion := v\<rparr>, planSeen) else s | _ \<Rightarrow> s)
        else if kind = ''NOTRETURNED''
        then (case notReturned fs of Some c \<Rightarrow> (run\<lparr>dr_NotReturned := dr_NotReturned run @ [c]\<rparr>, planSeen) | None \<Rightarrow> s)
        else if kind = ''SUCCESS'' \<or> kind = ''RESTART_PENDING''
        then (case oneTime fs of
                Some t \<Rightarrow>
                  (run\<lparr>dr_Terminal := Some (if kind = ''RESTART_PENDING'' then TerminalRestartPending else TerminalSuccess),
                       dr_FailReason := None, dr_CompletedAt := t\<rparr>, planSeen)
              | None \<Rightarrow> s)
        else if kind = ''FAILED''
        then (case fs of
                [a, b] \<Rightarrow>
                  (case lookup_word fail_word FailReasons b of
                     None \<Rightarrow> s
                   | Some reason \<Rightarrow>
                       (case parse_rfc3339 a of
                          Some t \<Rightarrow> (run\<lparr>dr_Terminal := Some TerminalFailed, dr_FailReason := Some reason, dr_CompletedAt := t\<rparr>, planSeen)
                        | None \<Rightarrow> s))
              | _ \<Rightarrow> s)
        else s)"

definition docker_line :: "docker_run \<times> bool \<Rightarrow> string \<Rightarrow> docker_run \<times> bool" where
  "docker_line s line =
     (case markerOf (trim_cr line) (dr_Nonce (fst s)) of
        None \<Rightarrow> s
      | Some (kind, fs) \<Rightarrow> take_docker kind fs s)"

definition queued_run :: "string \<Rightarrow> docker_run option" where
  "queued_run head =
     (case split_on CHR '' '' (trim_cr head) of
        [word, nonce, at] \<Rightarrow>
          if word \<noteq> dockerPrefix @ ''QUEUED'' \<or> \<not> nonceOK nonce then None
          else (case parse_rfc3339 at of None \<Rightarrow> None | Some t \<Rightarrow> Some (no_run\<lparr>dr_Nonce := nonce, dr_QueuedAt := t\<rparr>))
      | _ \<Rightarrow> None)"

definition ParseRun :: "string \<Rightarrow> docker_run" where
  "ParseRun log =
     (let lines = split_on CHR 0x0A log
      in case queued_run (hd lines) of
           None \<Rightarrow> no_run
         | Some run \<Rightarrow> fst (foldl docker_line (run, False) (tl lines)))"

text \<open>\<open>Phase\<close>: \<open>None\<close> for no run and for one that has ended.\<close>

definition Phase :: "docker_run \<Rightarrow> docker_phase option" where
  "Phase r =
     (if dr_Nonce r = [] \<or> dr_Terminal r \<noteq> None then None
      else if dr_DaemonVersion r \<noteq> [] then Some PhaseWaitingContainers
      else if dr_InstalledAt r \<noteq> zero_time then Some PhaseWaitingDocker
      else if dr_DownloadedAt r \<noteq> zero_time then Some PhaseInstalling
      else if dr_PreviousSeen r then Some PhaseDownloading
      else Some PhasePreparing)"

definition HoldsKept :: "docker_run \<Rightarrow> bool" where
  "HoldsKept r =
     (case dr_Held r of
        None \<Rightarrow> False
      | Some held \<Rightarrow> held \<noteq> [] \<and> list_all (\<lambda>n. n \<in> set (case dr_Holds r of None \<Rightarrow> [] | Some hs \<Rightarrow> hs)) held)"

subsection \<open>The command that goes back\<close>

definition rollbackHead :: string where
  "rollbackHead = ''sudo apt-get install --allow-downgrades ''"

definition RollbackCommand :: "string list \<Rightarrow> string" where
  "RollbackCommand previous =
     (let pins = filter validPin previous in if pins = [] then [] else rollbackHead @ join_on CHR '' '' pins)"

text \<open>\<open>strings.Replace(s, old, new, 1)\<close>\<close>

fun replace_first :: "string \<Rightarrow> string \<Rightarrow> string \<Rightarrow> string" where
  "replace_first old new s =
     (case cut_prefix old s of
        Some r \<Rightarrow> new @ r
      | None \<Rightarrow> (case s of [] \<Rightarrow> [] | c # r \<Rightarrow> c # replace_first old new r))"

declare replace_first.simps [simp del]

definition RollbackCommandHeld :: "string list \<Rightarrow> string list \<Rightarrow> string" where
  "RollbackCommandHeld previous held =
     (let command = RollbackCommand previous; holds = holdNames held
      in if command = [] \<or> holds = [] then command
         else replace_first ''--allow-downgrades '' (''--allow-downgrades '' @ allowHeldFlag @ '' '') command @
              '' ; sudo apt-mark hold '' @ join_on CHR '' '' holds)"

end
