(* ===== verification/OsverifyTake.thy ===== *)
theory OsverifyTake
  imports Osverify DockerRun
begin

section \<open>The check after an upgrade: how the facts are taken\<close>

text \<open>
  Models \<open>TakeWith\<close> of \<open>pkg/osverify/facts.go\<close> with the allow-list of \<open>pkg/osreadiness/allowlist.go\<close> that everything it asks goes through: the questions in their order, the time
  that may be over at any of them, the tools that hang, and the readers of what the machine prints. What the machine answers is the probe, a parameter; so are the order in
  which a map is gone through, the resolver, and the decoding of one line of JSON. Two containers of one name keep their order here, which the sort of the code does not promise.
\<close>

subsection \<open>The allow-list\<close>

definition of_class :: "nat \<Rightarrow> nat \<Rightarrow> string \<Rightarrow> string \<Rightarrow> bool" where
  "of_class lo hi extra s \<longleftrightarrow> lo \<le> length s \<and> length s \<le> hi \<and> list_all (\<lambda>c. alnum c \<or> c \<in> set extra) s"

definition packageArg :: "string \<Rightarrow> bool" where
  "packageArg s =
     (case s of [] \<Rightarrow> False | c # r \<Rightarrow> (alnum c \<or> c \<in> set ''*?['') \<and> of_class 0 127 ''.+:*?[]_-'' r)"

definition unitArg :: "string \<Rightarrow> bool" where
  "unitArg s = name_of 127 ''@._:-'' s"

definition deviceArg :: "string \<Rightarrow> bool" where
  "deviceArg s = (case cut_prefix ''/dev/'' s of None \<Rightarrow> False | Some r \<Rightarrow> of_class 1 60 ''._/-'' r)"

definition moduleArg :: "string \<Rightarrow> bool" where
  "moduleArg s = of_class 1 64 ''_-'' s"

definition letter_only :: "char \<Rightarrow> bool" where
  "letter_only c \<longleftrightarrow> alnum c \<and> \<not> is_digit c"

definition propertyOf :: "string \<Rightarrow> bool" where
  "propertyOf s =
     (case cut_prefix ''--property='' s of None \<Rightarrow> False | Some r \<Rightarrow> 1 \<le> length r \<and> length r \<le> 40 \<and> list_all letter_only r)"

definition mountPathArg :: "string \<Rightarrow> bool" where
  "mountPathArg s = (case s of [] \<Rightarrow> False | c # r \<Rightarrow> c = CHR ''/'' \<and> of_class 0 127 ''._/-'' r)"

definition lower_hex :: "char \<Rightarrow> bool" where
  "lower_hex c \<longleftrightarrow> is_digit c \<or> CHR ''a'' \<le> c \<and> c \<le> CHR ''f''"

definition containerIDArg :: "string \<Rightarrow> bool" where
  "containerIDArg s \<longleftrightarrow> 12 \<le> length s \<and> length s \<le> 64 \<and> list_all lower_hex s"

fun two_slashes :: "string \<Rightarrow> bool" where
  "two_slashes (a # b # s) \<longleftrightarrow> a = CHR ''/'' \<and> b = CHR ''/'' \<or> two_slashes (b # s)"
| "two_slashes s \<longleftrightarrow> False"

definition validDevice :: "string \<Rightarrow> bool" where
  "validDevice s \<longleftrightarrow> deviceArg s \<and> \<not> two_dots s \<and> \<not> two_slashes s \<and> last s \<noteq> CHR ''/''"

definition maxInspected :: nat where
  "maxInspected = 200"

definition aptNoWrite :: "string list" where
  "aptNoWrite = [''-o'', ''Debug::NoLocking=true'', ''-o'', ''Dir::Cache::pkgcache='', ''-o'', ''Dir::Cache::srcpkgcache='']"

definition DaemonInfoFormat :: string where
  "DaemonInfoFormat = ''{\"ServerVersion\":{{json .ServerVersion}},\"SwarmState\":{{json .Swarm.LocalNodeState}}}''"

definition ContainerInspectFormat :: string where
  "ContainerInspectFormat =
     ''{\"name\":{{json .Name}},\"image\":{{json .Config.Image}},\"restart\":{{json .HostConfig.RestartPolicy.Name}},'' @
     ''\"network\":{{json .HostConfig.NetworkMode}},\"mounts\":{{json .Mounts}},\"ports\":{{json .NetworkSettings.Ports}}}''"

definition systemctl_rule :: "string list \<Rightarrow> bool" where
  "systemctl_rule args \<longleftrightarrow>
     (case args of
        [a, b, c, d] \<Rightarrow> a = ''show'' \<and> unitArg b \<and> propertyOf c \<and> d = ''--value''
      | [a] \<Rightarrow> a = ''is-system-running''
      | [a, b] \<Rightarrow> (a = ''is-active'' \<or> a = ''is-enabled'') \<and> unitArg b
      | _ \<Rightarrow> args = [''--failed'', ''--no-legend'', ''--plain''])"

definition docker_rule :: "string list \<Rightarrow> bool" where
  "docker_rule args \<longleftrightarrow>
     args = [''--version''] \<or> args = [''info'', ''--format'', DaemonInfoFormat] \<or> args = [''ps'', ''-q''] \<or>
     4 \<le> length args \<and> length args \<le> 3 + maxInspected \<and> take 3 args = [''inspect'', ''--format'', ContainerInspectFormat] \<and>
       list_all containerIDArg (drop 3 args)"

definition findmnt_rule :: "string list \<Rightarrow> bool" where
  "findmnt_rule args \<longleftrightarrow>
     args = [''-n'', ''-o'', ''SOURCE'', ''/''] \<or>
     length args = 6 \<and> take 5 args = [''-b'', ''-n'', ''-o'', ''SIZE'', ''-T''] \<and> mountPathArg (args ! 5)"

definition allowed_rule :: "string \<Rightarrow> (string list \<Rightarrow> bool) option" where
  "allowed_rule name =
     map_of
       [(''dpkg'', \<lambda>a. a \<in> {[''--audit''], [''--print-architecture''], [''--print-foreign-architectures'']}),
        (''dpkg-query'', \<lambda>a. case a of w # f # ps \<Rightarrow> w = ''-W'' \<and> cut_prefix ''-f='' f \<noteq> None \<and> list_all packageArg ps | _ \<Rightarrow> False),
        (''apt-get'', \<lambda>a. a = aptNoWrite @ [''check'']),
        (''apt-cache'', \<lambda>a. length aptNoWrite + 2 \<le> length a \<and> take (length aptNoWrite + 1) a = aptNoWrite @ [''policy''] \<and>
           list_all packageArg (drop (length aptNoWrite + 1) a)),
        (''apt-config'', \<lambda>a. a = [''dump'']),
        (''systemd-detect-virt'', \<lambda>a. a \<in> {[''--container''], [''--vm'']}),
        (''systemctl'', systemctl_rule),
        (''ss'', \<lambda>a. a = [''-Hltn'']),
        (''stat'', \<lambda>a. case a of [f, t, path] \<Rightarrow> f = ''-fc'' \<and> t = ''%T'' \<and> cut_prefix ''/'' path \<noteq> None \<and> CHR 0x00 \<notin> set path \<and> CHR 0x0A \<notin> set path | _ \<Rightarrow> False),
        (''findmnt'', findmnt_rule),
        (''lsblk'', \<lambda>a. length a = 7 \<and> take 6 a = [''-s'', ''-n'', ''-P'', ''-p'', ''-o'', ''NAME,TYPE''] \<and> validDevice (a ! 6)),
        (''uname'', \<lambda>a. True),
        (''smartctl'', \<lambda>a. case a of [x, y, z, d] \<Rightarrow> x = ''-n'' \<and> y = ''standby'' \<and> z = ''-H'' \<and> validDevice d | _ \<Rightarrow> False),
        (''modinfo'', \<lambda>a. case a of [n, m] \<Rightarrow> n = ''-n'' \<and> moduleArg m | _ \<Rightarrow> False),
        (''dkms'', \<lambda>a. a = [''status'']),
        (''mokutil'', \<lambda>a. a = [''--sb-state'']),
        (''pdbedit'', \<lambda>a. a = [''-L'']),
        (''pveversion'', \<lambda>a. True),
        (''docker'', docker_rule),
        (''snap'', \<lambda>a. a \<in> {[''list''], [''list'', ''docker'']})] name"

definition Allowed :: "string list \<Rightarrow> bool" where
  "Allowed argv =
     (case argv of
        [] \<Rightarrow> False
      | name # args \<Rightarrow>
          name \<noteq> [] \<and> list_all (\<lambda>a. CHR 0x00 \<notin> set a) argv \<and> (case allowed_rule name of None \<Rightarrow> False | Some rule \<Rightarrow> rule args))"

subsection \<open>What the machine answers\<close>

record run_out =
  ro_ExitCode :: int
  ro_Text :: string
  ro_Truncated :: bool

datatype run_answer = Ran run_out | ErrToolMissing | RunFailed

datatype dir_answer = DirEntries "string list" | DirNotExist | DirFailed

datatype stat_answer = StatThere | StatNotExist | StatFailed

record inspected =
  ix_Name :: string
  ix_Restart :: string
  ix_Mounts :: "(string \<times> string) list"

text \<open>
  The probe. \<open>pb_Over n\<close> says whether the time of all of the facts is over when it is looked at for the \<open>n\<close>-th time. A command gives its answer, and whether the time of this one
  question ran out with it. \<open>pb_Order\<close> is the order in which the entries of a map are gone through.
\<close>

record probe =
  pb_Over :: "nat \<Rightarrow> bool"
  pb_Run :: "string list \<Rightarrow> run_answer \<times> bool"
  pb_ReadFile :: "string \<Rightarrow> read_answer"
  pb_ReadDir :: "string \<Rightarrow> dir_answer"
  pb_Stat :: "string \<Rightarrow> stat_answer"
  pb_Resolve :: "string \<Rightarrow> bool"
  pb_Order :: "string list \<Rightarrow> string list"
  pb_Inspected :: "string \<Rightarrow> inspected option"
  pb_DaemonInfo :: "string \<Rightarrow> string option"

text \<open>The taker, with what it keeps to itself: the looks at the clock, and the commands that it ran.\<close>

record taker =
  tk_f :: facts
  tk_hung :: "string list"
  tk_looks :: nat
  tk_ran :: "string list list"

definition miss :: "fact list \<Rightarrow> taker \<Rightarrow> taker" where
  "miss xs t =
     t\<lparr>tk_f := (tk_f t)\<lparr>fa_Unknown := fold (\<lambda>x u. if fact_word x \<in> set u then u else u @ [fact_word x]) xs (fa_Unknown (tk_f t))\<rparr>\<rparr>"

definition time_over :: "probe \<Rightarrow> taker \<Rightarrow> taker \<times> bool" where
  "time_over p t = (t\<lparr>tk_looks := tk_looks t + 1\<rparr>, pb_Over p (tk_looks t))"

definition ask :: "probe \<Rightarrow> string list \<Rightarrow> taker \<Rightarrow> taker \<times> run_answer" where
  "ask p argv t =
     (if argv = [] \<or> \<not> Allowed argv then (t, RunFailed)
      else (case time_over p t of
              (t1, True) \<Rightarrow> (t1, RunFailed)
            | (t1, False) \<Rightarrow>
                if hd argv \<in> set (tk_hung t1) then (t1, RunFailed)
                else (let t2 = t1\<lparr>tk_ran := tk_ran t1 @ [argv]\<rparr>
                      in case pb_Run p argv of
                           (a, False) \<Rightarrow> (t2, a)
                         | (a, True) \<Rightarrow>
                             (case time_over p t2 of
                                (t3, True) \<Rightarrow> (t3, a)
                              | (t3, False) \<Rightarrow> (t3\<lparr>tk_hung := hd argv # tk_hung t3\<rparr>, case a of Ran _ \<Rightarrow> RunFailed | e \<Rightarrow> e)))))"

definition take_file :: "probe \<Rightarrow> string \<Rightarrow> taker \<Rightarrow> taker \<times> read_answer" where
  "take_file p path t = (case time_over p t of (t1, late) \<Rightarrow> (t1, if late then ReadFailed else pb_ReadFile p path))"

definition take_dir :: "probe \<Rightarrow> string \<Rightarrow> taker \<Rightarrow> taker \<times> dir_answer" where
  "take_dir p path t = (case time_over p t of (t1, late) \<Rightarrow> (t1, if late then DirFailed else pb_ReadDir p path))"

definition answered :: "run_answer \<Rightarrow> string option" where
  "answered a = (case a of Ran out \<Rightarrow> if ro_ExitCode out = 0 \<and> \<not> ro_Truncated out then Some (ro_Text out) else None | _ \<Rightarrow> None)"

definition firstLine :: "string \<Rightarrow> string" where
  "firstLine t = TrimSpace (takeWhile (\<lambda>c. c \<noteq> CHR 0x0A) t)"

subsection \<open>The kernel, the system, the packages, Samba\<close>

definition take_kernel :: "probe \<Rightarrow> taker \<Rightarrow> taker" where
  "take_kernel p t =
     (case ask p [''uname'', ''-r''] t of
        (t1, a) \<Rightarrow>
          (case answered a of
             None \<Rightarrow> miss [FactKernel] t1
           | Some x \<Rightarrow> if kernelPattern (firstLine x) then t1\<lparr>tk_f := (tk_f t1)\<lparr>fa_Kernel := firstLine x\<rparr>\<rparr> else miss [FactKernel] t1))"

definition systemStates :: "string list" where
  "systemStates = [''running'', ''degraded'', ''starting'', ''initializing'', ''maintenance'', ''stopping'', ''offline'']"

definition take_system :: "probe \<Rightarrow> taker \<Rightarrow> taker" where
  "take_system p t =
     (case ask p [''systemctl'', ''is-system-running''] t of
        (t1, Ran out) \<Rightarrow>
          if firstLine (ro_Text out) \<in> set systemStates then t1\<lparr>tk_f := (tk_f t1)\<lparr>fa_System := firstLine (ro_Text out)\<rparr>\<rparr> else miss [FactSystem] t1
      | (t1, _) \<Rightarrow> miss [FactSystem] t1)"

definition take_dpkg :: "probe \<Rightarrow> taker \<Rightarrow> taker" where
  "take_dpkg p t =
     (case ask p [''dpkg'', ''--audit''] t of
        (t1, Ran out) \<Rightarrow> t1\<lparr>tk_f := (tk_f t1)\<lparr>fa_DpkgQuiet := (ro_ExitCode out = 0 \<and> \<not> ro_Truncated out \<and> TrimSpace (ro_Text out) = [])\<rparr>\<rparr>
      | (t1, _) \<Rightarrow> miss [FactDpkg] t1)"

definition sambaLine :: "string \<Rightarrow> bool" where
  "sambaLine line = (case split_on (CHR '':'') line of a # d # _ # _ \<Rightarrow> a \<noteq> [] \<and> d \<noteq> [] \<and> list_all is_digit d | _ \<Rightarrow> False)"

definition take_samba :: "probe \<Rightarrow> taker \<Rightarrow> taker" where
  "take_samba p t =
     (case ask p [''pdbedit'', ''-L''] t of
        (t1, a) \<Rightarrow>
          (case answered a of
             None \<Rightarrow> miss [FactSamba] t1
           | Some x \<Rightarrow>
               t1\<lparr>tk_f := (tk_f t1)\<lparr>fa_SambaUsers := fa_SambaUsers (tk_f t1) + int (length (filter sambaLine (split_on (CHR 0x0A) x)))\<rparr>\<rparr>))"

subsection \<open>Mounts and the route\<close>

definition printable_path :: "nat \<Rightarrow> string \<Rightarrow> bool" where
  "printable_path most s \<longleftrightarrow>
     s \<noteq> [] \<and> length s \<le> most \<and> valid_text s \<and> \<not> list_ex (\<lambda>(r, _). IsControl r \<or> r = 0x2028 \<or> r = 0x2029) (runes s)"

definition octal :: "char \<Rightarrow> nat option" where
  "octal c = (if CHR ''0'' \<le> c \<and> c \<le> CHR ''7'' then Some (of_char c - 48) else None)"

definition octal_byte :: "char \<Rightarrow> char \<Rightarrow> char \<Rightarrow> nat option" where
  "octal_byte a b c =
     (case (octal a, octal b, octal c) of
        (Some x, Some y, Some z) \<Rightarrow> let n = (x * 8 + y) * 8 + z in if n \<le> 255 then Some n else None
      | _ \<Rightarrow> None)"

fun unescapeMount :: "string \<Rightarrow> string" where
  "unescapeMount (c # a # b # d # s) =
     (case (if c = CHR 0x5C then octal_byte a b d else None) of
        Some n \<Rightarrow> char_of n # unescapeMount s
      | None \<Rightarrow> c # unescapeMount (a # b # d # s))"
| "unescapeMount s = s"

definition maxMountPath :: nat where
  "maxMountPath = 255"

definition mergerfsMounts :: "string \<Rightarrow> string list" where
  "mergerfsMounts data =
     sort (foldl (\<lambda>ms line. case Fields line of
                    _ # point # typ # _ \<Rightarrow>
                      if typ = ''fuse.mergerfs'' \<and> printable_path maxMountPath (unescapeMount point) \<and> unescapeMount point \<notin> set ms
                      then ms @ [unescapeMount point] else ms
                  | _ \<Rightarrow> ms)
             [] (split_on (CHR 0x0A) data))"

definition maxMounts :: nat where
  "maxMounts = 2000"

definition maxPools :: nat where
  "maxPools = 64"

definition maxPoolBranches :: nat where
  "maxPoolBranches = 256"

definition dataFileSystems :: "string list" where
  "dataFileSystems =
     [''ext2'', ''ext3'', ''ext4'', ''xfs'', ''btrfs'', ''zfs'', ''f2fs'', ''jfs'', ''reiserfs'', ''vfat'', ''exfat'', ''ntfs'', ''ntfs3'', ''fuseblk'',
      ''fuse.mergerfs'', ''nfs'', ''nfs4'', ''cifs'', ''smb3'']"

text \<open>The mode of a branch, two characters behind its last equals sign, is taken off.\<close>

definition trim_mode :: "string \<Rightarrow> string" where
  "trim_mode b = (let r = rev b in if 3 < length r \<and> r ! 2 = CHR ''='' \<and> CHR ''='' \<notin> set (take 2 r) then rev (drop 3 r) else b)"

definition poolBranches :: "string \<Rightarrow> string list" where
  "poolBranches source =
     foldl (\<lambda>bs b. if printable_path maxMountPath (trim_mode b) \<and> trim_mode b \<notin> set bs \<and> length bs < maxPoolBranches then bs @ [trim_mode b] else bs)
       [] (split_on (CHR '':'') (unescapeMount source))"

definition data_line :: "string list \<times> (string \<times> string list) list \<Rightarrow> string \<Rightarrow> string list \<times> (string \<times> string list) list" where
  "data_line s line =
     (case (s, Fields line) of
        ((ms, pools), source # path # typ # _) \<Rightarrow>
          (let point = unescapeMount path
           in if typ \<notin> set dataFileSystems \<or> \<not> printable_path maxMountPath point then (ms, pools)
              else (if point \<notin> set ms \<and> length ms < maxMounts then ms @ [point] else ms,
                    if typ = ''fuse.mergerfs'' \<and> length pools < maxPools then put point (poolBranches source) pools else pools))
      | _ \<Rightarrow> s)"

definition dataMounts :: "string \<Rightarrow> string list \<times> (string \<times> string list) list" where
  "dataMounts data = (case foldl data_line ([], []) (split_on (CHR 0x0A) data) of (ms, pools) \<Rightarrow> (sort ms, pools))"

definition take_mounts :: "probe \<Rightarrow> taker \<Rightarrow> taker" where
  "take_mounts p t =
     (case take_file p ''/proc/mounts'' t of
        (t1, ReadText x) \<Rightarrow>
          t1\<lparr>tk_f := (tk_f t1)\<lparr>fa_Mergerfs := mergerfsMounts x, fa_Mounts := fst (dataMounts x), fa_Pools := snd (dataMounts x)\<rparr>\<rparr>
      | (t1, _) \<Rightarrow> miss [FactMounts] t1)"

definition interfacePattern :: "string \<Rightarrow> bool" where
  "interfacePattern s = of_class 1 15 ''._-'' s"

definition routeOther :: string where
  "routeOther = ''other''"

definition hex_val :: "char \<Rightarrow> nat option" where
  "hex_val c =
     (if is_digit c then Some (of_char c - 48)
      else if CHR ''a'' \<le> c \<and> c \<le> CHR ''f'' then Some (of_char c - 87)
      else if CHR ''A'' \<le> c \<and> c \<le> CHR ''F'' then Some (of_char c - 55)
      else None)"

definition parse_hex32 :: "string \<Rightarrow> nat option" where
  "parse_hex32 s =
     (if s = [] \<or> list_ex (\<lambda>c. hex_val c = None) s then None
      else (let n = foldl (\<lambda>n c. n * 16 + the (hex_val c)) 0 s in if n < 2 ^ 32 then Some n else None))"

definition route_of :: "string \<Rightarrow> string option" where
  "route_of line =
     (let f = Fields line
      in if length f < 8 \<or> f ! 1 \<noteq> ''00000000'' \<or> f ! 7 \<noteq> ''00000000'' then None
         else (case parse_hex32 (f ! 3) of
                 None \<Rightarrow> None
               | Some flags \<Rightarrow>
                   if even flags \<or> odd (flags div 0x200) \<or> f ! 0 = ''*'' then None
                   else Some (if interfacePattern (f ! 0) then f ! 0 else routeOther)))"

definition defaultRoute :: "string \<Rightarrow> string" where
  "defaultRoute data = (case List.map_filter route_of (split_on (CHR 0x0A) data) of [] \<Rightarrow> [] | r # _ \<Rightarrow> r)"

definition take_route :: "probe \<Rightarrow> taker \<Rightarrow> taker" where
  "take_route p t =
     (case take_file p ''/proc/net/route'' t of
        (t1, ReadText x) \<Rightarrow> t1\<lparr>tk_f := (tk_f t1)\<lparr>fa_Route := defaultRoute x\<rparr>\<rparr>
      | (t1, _) \<Rightarrow> miss [FactRoute] t1)"

definition dnsName :: string where
  "dnsName = ''deb.debian.org''"

definition take_dns :: "probe \<Rightarrow> taker \<Rightarrow> taker" where
  "take_dns p t =
     (case time_over p t of
        (t1, True) \<Rightarrow> miss [FactDNS] t1
      | (t1, False) \<Rightarrow>
          (case time_over p t1 of
             (t2, True) \<Rightarrow> miss [FactDNS] t2
           | (t2, False) \<Rightarrow> t2\<lparr>tk_f := (tk_f t2)\<lparr>fa_DNS := pb_Resolve p dnsName\<rparr>\<rparr>))"

subsection \<open>Units\<close>

definition unitDirs :: "string list" where
  "unitDirs = [''/etc/systemd/system'', ''/usr/lib/systemd/system'', ''/lib/systemd/system'']"

definition HasSuffix :: "string \<Rightarrow> string \<Rightarrow> bool" where
  "HasSuffix s suffix \<longleftrightarrow> length suffix \<le> length s \<and> drop (length s - length suffix) s = suffix"

definition casaosUnit :: "string \<Rightarrow> bool" where
  "casaosUnit s =
     (case cut_prefix ''casaos'' s of
        None \<Rightarrow> False
      | Some r \<Rightarrow>
          list_ex (\<lambda>x. HasSuffix r x \<and> of_class 0 100 ''@._:-'' (take (length r - length x) r)) [''.service'', ''.socket'', ''.timer'', ''.path''])"

definition unitStates :: "string list" where
  "unitStates = [''active'', ''reloading'', ''inactive'', ''failed'', ''activating'', ''deactivating'', ''maintenance'']"

definition activeState :: "probe \<Rightarrow> string \<Rightarrow> taker \<Rightarrow> taker \<times> string option" where
  "activeState p unit t =
     (case ask p [''systemctl'', ''show'', unit, ''--property=ActiveState'', ''--value''] t of
        (t1, a) \<Rightarrow> (t1, case answered a of None \<Rightarrow> None | Some x \<Rightarrow> if firstLine x \<in> set unitStates then Some (firstLine x) else None))"

fun unit_names :: "probe \<Rightarrow> string list \<Rightarrow> string list \<Rightarrow> taker \<Rightarrow> taker \<times> string list option" where
  "unit_names p [] names t = (t, Some names)"
| "unit_names p (d # ds) names t =
     (case take_dir p d t of
        (t1, DirNotExist) \<Rightarrow> unit_names p ds names t1
      | (t1, DirFailed) \<Rightarrow> (t1, None)
      | (t1, DirEntries es) \<Rightarrow>
          unit_names p ds (foldl (\<lambda>ns e. if casaosUnit e \<and> e \<notin> set transientUnits \<and> e \<notin> set ns then ns @ [e] else ns) names es) t1)"

fun unit_states :: "probe \<Rightarrow> string list \<Rightarrow> (string \<times> string) list \<Rightarrow> taker \<Rightarrow> taker \<times> (string \<times> string) list" where
  "unit_states p [] states t = (t, states)"
| "unit_states p (n # ns) states t =
     (case activeState p n t of
        (t1, s) \<Rightarrow> unit_states p ns (put n (case s of None \<Rightarrow> unitUnknown | Some x \<Rightarrow> x) states) t1)"

definition take_units :: "probe \<Rightarrow> taker \<Rightarrow> taker" where
  "take_units p t =
     (case unit_names p unitDirs [] t of
        (t1, None) \<Rightarrow> miss [FactUnits] t1
      | (t1, Some names) \<Rightarrow>
          (case unit_states p (pb_Order p names) [] t1 of
             (t2, states) \<Rightarrow>
               (case time_over p t2 of
                  (t3, True) \<Rightarrow> miss [FactUnits] t3
                | (t3, False) \<Rightarrow> if states \<noteq> [] then t3\<lparr>tk_f := (tk_f t3)\<lparr>fa_Units := states\<rparr>\<rparr> else t3)))"

subsection \<open>What listens and what failed\<close>

definition maxListening :: nat where
  "maxListening = 5000"

definition maxFailed :: nat where
  "maxFailed = 2000"

definition note_seen :: "nat \<Rightarrow> (string \<Rightarrow> string option) \<Rightarrow> string list \<Rightarrow> string \<Rightarrow> string list" where
  "note_seen most word seen line =
     (case word line of None \<Rightarrow> seen | Some x \<Rightarrow> if length seen < most \<and> x \<notin> set seen then seen @ [x] else seen)"

definition seen_words :: "nat \<Rightarrow> (string \<Rightarrow> string option) \<Rightarrow> string \<Rightarrow> string list" where
  "seen_words most word x = sort (foldl (note_seen most word) [] (split_on (CHR 0x0A) x))"

definition listening_word :: "string \<Rightarrow> string option" where
  "listening_word line = (let f = Fields line in if 4 \<le> length f \<and> printable_path 64 (f ! 3) then Some (f ! 3) else None)"

definition take_listening :: "probe \<Rightarrow> taker \<Rightarrow> taker" where
  "take_listening p t =
     (case ask p [''ss'', ''-Hltn''] t of
        (t1, a) \<Rightarrow>
          (case answered a of
             None \<Rightarrow> miss [FactListening] t1
           | Some x \<Rightarrow> t1\<lparr>tk_f := (tk_f t1)\<lparr>fa_Listening := seen_words maxListening listening_word x\<rparr>\<rparr>))"

definition failed_word :: "string \<Rightarrow> string option" where
  "failed_word line = (case Fields line of w # _ \<Rightarrow> if CHR ''.'' \<in> set w \<and> unitNamePattern w then Some w else None | [] \<Rightarrow> None)"

definition take_failedUnits :: "probe \<Rightarrow> taker \<Rightarrow> taker" where
  "take_failedUnits p t =
     (case ask p [''systemctl'', ''--failed'', ''--no-legend'', ''--plain''] t of
        (t1, a) \<Rightarrow>
          (case answered a of
             None \<Rightarrow> miss [FactFailed] t1
           | Some x \<Rightarrow> t1\<lparr>tk_f := (tk_f t1)\<lparr>fa_Failed := seen_words maxFailed failed_word x\<rparr>\<rparr>))"

subsection \<open>Docker\<close>

definition maxContainers :: nat where
  "maxContainers = 1000"

definition maxInspect :: nat where
  "maxInspect = 200"

definition maxBinds :: nat where
  "maxBinds = 32"

definition maxBindPath :: nat where
  "maxBindPath = 256"

definition containerNamePattern :: "string \<Rightarrow> bool" where
  "containerNamePattern s = name_of 127 ''_.-'' s"

definition restartPolicyPattern :: "string \<Rightarrow> bool" where
  "restartPolicyPattern s \<longleftrightarrow> length s \<le> 32 \<and> lower_class ''-'' s"

definition engineIDPattern :: "string \<Rightarrow> bool" where
  "engineIDPattern s = of_class 8 64 '':-'' s"

definition dockerThere :: "probe \<Rightarrow> taker \<Rightarrow> taker \<times> bool option" where
  "dockerThere p t =
     (case ask p [''docker'', ''--version''] t of
        (t1, Ran _) \<Rightarrow> (t1, Some True)
      | (t1, RunFailed) \<Rightarrow> (t1, None)
      | (t1, ErrToolMissing) \<Rightarrow>
          (case time_over p t1 of
             (t2, True) \<Rightarrow> (t2, None)
           | (t2, False) \<Rightarrow> (t2, case pb_Stat p ''/run/docker.sock'' of StatThere \<Rightarrow> Some True | StatNotExist \<Rightarrow> Some False | StatFailed \<Rightarrow> None)))"

definition daemon_version :: "probe \<Rightarrow> string \<Rightarrow> string option" where
  "daemon_version p out =
     (case List.map_filter (\<lambda>l. if cut_prefix ''{'' (TrimSpace l) = None then None else pb_DaemonInfo p (TrimSpace l)) (split_on (CHR 0x0A) out) of
        [] \<Rightarrow> None
      | v # _ \<Rightarrow> if validDaemonVersion v then Some v else None)"

definition inspected_container :: "probe \<Rightarrow> string \<Rightarrow> container option" where
  "inspected_container p line =
     (if TrimSpace line = [] then None
      else (case pb_Inspected p (TrimSpace line) of
              None \<Rightarrow> None
            | Some raw \<Rightarrow>
                (let name = (case ix_Name raw of c # r \<Rightarrow> if c = CHR ''/'' then r else c # r | [] \<Rightarrow> [])
                 in if \<not> containerNamePattern name \<or> \<not> restartPolicyPattern (ix_Restart raw) then None
                    else Some \<lparr>ct_Name = name, ct_Policy = ix_Restart raw,
                           ct_Binds = take maxBinds (map snd (filter (\<lambda>m. fst m = ''bind'' \<and> printable_path maxBindPath (snd m)) (ix_Mounts raw)))\<rparr>)))"

definition parseInspected :: "probe \<Rightarrow> string \<Rightarrow> container list" where
  "parseInspected p x = sort_key ct_Name (List.map_filter (inspected_container p) (split_on (CHR 0x0A) x))"

function chunks :: "nat \<Rightarrow> 'a list \<Rightarrow> 'a list list" where
  "chunks n xs = (if xs = [] \<or> n = 0 then [] else take n xs # chunks n (drop n xs))"
  by pat_completeness auto
termination
  by (relation "measure (length \<circ> snd)") auto

declare chunks.simps [simp del]

fun inspect_all :: "probe \<Rightarrow> string list list \<Rightarrow> container list \<Rightarrow> taker \<Rightarrow> taker \<times> container list option" where
  "inspect_all p [] found t = (t, Some found)"
| "inspect_all p (ids # rest) found t =
     (case ask p ([''docker'', ''inspect'', ''--format'', ContainerInspectFormat] @ ids) t of
        (t1, a) \<Rightarrow>
          (case answered a of
             None \<Rightarrow> (t1, None)
           | Some x \<Rightarrow> inspect_all p rest (found @ parseInspected p x) t1))"

definition take_containers :: "probe \<Rightarrow> taker \<Rightarrow> taker" where
  "take_containers p t =
     (case ask p [''docker'', ''ps'', ''-q''] t of
        (t1, a) \<Rightarrow>
          (case answered a of
             None \<Rightarrow> miss [FactContainers] t1
           | Some x \<Rightarrow>
               (let ids = filter (\<lambda>l. l \<noteq> []) (map TrimSpace (split_on (CHR 0x0A) x))
                in if \<not> list_all containerIDArg ids \<or> maxContainers < length ids then miss [FactContainers] t1
                   else (case inspect_all p (chunks maxInspect ids) [] t1 of
                           (t2, None) \<Rightarrow> miss [FactContainers] t2
                         | (t2, Some cs) \<Rightarrow>
                             t2\<lparr>tk_f := (tk_f t2)\<lparr>fa_Docker := (fa_Docker (tk_f t2))\<lparr>dk_Containers := sort_key ct_Name cs\<rparr>\<rparr>\<rparr>))))"

definition docker_is :: "docker_state \<Rightarrow> taker \<Rightarrow> taker" where
  "docker_is s t = t\<lparr>tk_f := (tk_f t)\<lparr>fa_Docker := (fa_Docker (tk_f t))\<lparr>dk_State := s\<rparr>\<rparr>\<rparr>"

text \<open>A daemon that answered: its version, the id of the engine, and the containers.\<close>

definition docker_up :: "probe \<Rightarrow> string \<Rightarrow> taker \<Rightarrow> taker" where
  "docker_up p version t =
     (let t1 = docker_is DockerUp t;
          t2 = t1\<lparr>tk_f := (tk_f t1)\<lparr>fa_Docker := (fa_Docker (tk_f t1))\<lparr>dk_Version := version\<rparr>\<rparr>\<rparr>
      in case take_file p ''/var/lib/docker/engine-id'' t2 of
           (t3, a) \<Rightarrow>
             take_containers p
               (case a of
                  ReadText x \<Rightarrow>
                    if engineIDPattern (firstLine x) then t3\<lparr>tk_f := (tk_f t3)\<lparr>fa_Docker := (fa_Docker (tk_f t3))\<lparr>dk_EngineID := firstLine x\<rparr>\<rparr>\<rparr> else t3
                | _ \<Rightarrow> t3))"

definition docker_asked :: "probe \<Rightarrow> taker \<Rightarrow> taker" where
  "docker_asked p t =
     (case ask p [''docker'', ''info'', ''--format'', DaemonInfoFormat] t of
        (t1, Ran out) \<Rightarrow>
          (case daemon_version p (ro_Text out) of
             Some v \<Rightarrow> if ro_ExitCode out \<noteq> 0 \<or> ro_Truncated out then miss [FactContainers] (docker_is DockerDown t1) else docker_up p v t1
           | None \<Rightarrow> miss [FactContainers] (docker_is DockerDown t1))
      | (t1, _) \<Rightarrow> miss [FactDocker, FactContainers] t1)"

definition take_docker_facts :: "probe \<Rightarrow> taker \<Rightarrow> taker" where
  "take_docker_facts p t =
     (case activeState p ''docker.service'' t of
        (t1, None) \<Rightarrow> miss [FactDocker, FactContainers] t1
      | (t1, Some state) \<Rightarrow>
          if state \<in> {''inactive'', ''failed'', ''deactivating'', ''maintenance''}
          then (case dockerThere p t1 of
                  (t2, None) \<Rightarrow> miss [FactDocker, FactContainers] t2
                | (t2, Some there) \<Rightarrow> docker_is (if there then DockerStopped else DockerAbsent) t2)
          else docker_asked p t1)"

subsection \<open>Sources of apt that are paused\<close>

definition pausedMark :: string where
  "pausedMark = ''# casaos-paused: ''"

definition pausedSuffix :: string where
  "pausedSuffix = ''.casaos-paused''"

definition sourcesDir :: string where
  "sourcesDir = ''/etc/apt/sources.list.d''"

definition maxPaused :: nat where
  "maxPaused = 200"

definition sourceFileName :: "string \<Rightarrow> bool" where
  "sourceFileName s = of_class 1 200 ''_:.-'' s"

definition sort_source :: "string list \<times> (string \<times> string) list \<Rightarrow> string \<Rightarrow> string list \<times> (string \<times> string) list" where
  "sort_source s name =
     (case s of (paused, files) \<Rightarrow>
        if \<not> sourceFileName name then (paused, files)
        else if HasSuffix name pausedSuffix then (paused @ [name], files)
        else if HasSuffix name ''.list'' \<and> length files < maxPaused then (paused, put name (sourcesDir @ ''/'' @ name) files)
        else (paused, files))"

definition paused_lines :: "string \<Rightarrow> string \<Rightarrow> string list" where
  "paused_lines name data =
     map (\<lambda>(i, _). name @ '':'' @ itoa (int i + 1)) (filter (\<lambda>(_, line). cut_prefix pausedMark line \<noteq> None) (enumerate 0 (split_on (CHR 0x0A) data)))"

fun read_sources :: "probe \<Rightarrow> (string \<times> string) list \<Rightarrow> string list \<Rightarrow> string list \<Rightarrow> taker \<Rightarrow> taker \<times> string list option" where
  "read_sources p files [] paused t = (t, Some paused)"
| "read_sources p files (name # names) paused t =
     (case take_file p (lookup_or [] files name) t of
        (t1, ReadNotExist) \<Rightarrow> read_sources p files names paused t1
      | (t1, ReadFailed) \<Rightarrow> (t1, None)
      | (t1, ReadText x) \<Rightarrow> read_sources p files names (paused @ paused_lines name x) t1)"

definition take_sources :: "probe \<Rightarrow> taker \<Rightarrow> taker" where
  "take_sources p t =
     (case take_dir p sourcesDir t of
        (t1, DirFailed) \<Rightarrow> miss [FactSources] t1
      | (t1, d) \<Rightarrow>
          (let names = (case d of DirEntries es \<Rightarrow> es | _ \<Rightarrow> []);
               (paused, files) = foldl sort_source ([], [(''sources.list'', ''/etc/apt/sources.list'')]) names
           in case read_sources p files (pb_Order p (map fst files)) paused t1 of
                (t2, None) \<Rightarrow> miss [FactSources] t2
              | (t2, Some all) \<Rightarrow> t2\<lparr>tk_f := (tk_f t2)\<lparr>fa_Paused := take maxPaused (sort all)\<rparr>\<rparr>))"

subsection \<open>The facts\<close>

definition no_facts :: facts where
  "no_facts =
     \<lparr>fa_Taken = True, fa_Unknown = [], fa_Kernel = [], fa_System = [], fa_DpkgQuiet = False, fa_SambaUsers = 0, fa_Mergerfs = [], fa_Pools = [], fa_Mounts = [],
      fa_Route = [], fa_DNS = False, fa_Units = [], fa_Paused = [],
      fa_Docker = \<lparr>dk_State = DockerUnsaid, dk_Version = [], dk_EngineID = [], dk_Containers = []\<rparr>, fa_Listening = [], fa_Failed = []\<rparr>"

definition take_steps :: "probe \<Rightarrow> (taker \<Rightarrow> taker) list" where
  "take_steps p =
     [take_kernel p, take_system p, take_dpkg p, take_samba p, take_mounts p, take_route p, take_dns p, take_units p, take_docker_facts p, take_sources p,
      take_listening p, take_failedUnits p]"

definition taken :: "probe \<Rightarrow> taker" where
  "taken p = fold id (take_steps p) \<lparr>tk_f = no_facts, tk_hung = [], tk_looks = 0, tk_ran = []\<rparr>"

definition TakeWith :: "probe \<Rightarrow> facts" where
  "TakeWith p = tk_f (taken p)"

end
