(* ===== verification/OsverifyTakeFacts.thy ===== *)
theory OsverifyTakeFacts
  imports OsverifyTake OsverifyFacts
begin

section \<open>The facts that are taken\<close>

text \<open>
  Every question of the taker is an instance of one contract: it speaks of its own facts only, it leaves each of them either named as unknown or valid, and it runs commands only through the
  allow-list. From it: what is known of a machine is within bounds and of its form, nothing is known when there was no time to ask, and a tool that hung is not asked again.
\<close>

subsection \<open>What a fact may be\<close>

definition words_ok :: "nat \<Rightarrow> (string \<Rightarrow> bool) \<Rightarrow> string list \<Rightarrow> bool" where
  "words_ok most P xs \<longleftrightarrow> sorted xs \<and> distinct xs \<and> length xs \<le> most \<and> list_all P xs"

definition container_ok :: "container \<Rightarrow> bool" where
  "container_ok c \<longleftrightarrow>
     containerNamePattern (ct_Name c) \<and> restartPolicyPattern (ct_Policy c) \<and> length (ct_Binds c) \<le> maxBinds \<and> list_all (printable_path maxBindPath) (ct_Binds c)"

primrec valid_fact :: "fact \<Rightarrow> facts \<Rightarrow> bool" where
  "valid_fact FactKernel f \<longleftrightarrow> kernelPattern (fa_Kernel f)"
| "valid_fact FactSystem f \<longleftrightarrow> fa_System f \<in> set systemStates"
| "valid_fact FactDpkg f \<longleftrightarrow> True"
| "valid_fact FactSamba f \<longleftrightarrow> 0 \<le> fa_SambaUsers f"
| "valid_fact FactMounts f \<longleftrightarrow>
     words_ok maxMounts (printable_path maxMountPath) (fa_Mounts f) \<and> sorted (fa_Mergerfs f) \<and> distinct (fa_Mergerfs f) \<and>
     list_all (printable_path maxMountPath) (fa_Mergerfs f) \<and> length (fa_Pools f) \<le> maxPools \<and> fst ` set (fa_Pools f) \<subseteq> set (fa_Mergerfs f) \<and>
     (\<forall>bs\<in>snd ` set (fa_Pools f). distinct bs \<and> length bs \<le> maxPoolBranches \<and> list_all (printable_path maxMountPath) bs)"
| "valid_fact FactRoute f \<longleftrightarrow> fa_Route f = [] \<or> fa_Route f = routeOther \<or> interfacePattern (fa_Route f)"
| "valid_fact FactDNS f \<longleftrightarrow> True"
| "valid_fact FactUnits f \<longleftrightarrow>
     distinct (map fst (fa_Units f)) \<and>
     (\<forall>(n, s)\<in>set (fa_Units f). casaosUnit n \<and> n \<notin> set transientUnits \<and> (s = unitUnknown \<or> s \<in> set unitStates))"
| "valid_fact FactDocker f \<longleftrightarrow>
     dk_State (fa_Docker f) \<noteq> DockerUnsaid \<and> (dk_State (fa_Docker f) = DockerUp \<longrightarrow> validDaemonVersion (dk_Version (fa_Docker f))) \<and>
     (dk_EngineID (fa_Docker f) = [] \<or> engineIDPattern (dk_EngineID (fa_Docker f)))"
| "valid_fact FactContainers f \<longleftrightarrow>
     sorted (map ct_Name (dk_Containers (fa_Docker f))) \<and> list_all container_ok (dk_Containers (fa_Docker f))"
| "valid_fact FactSources f \<longleftrightarrow> sorted (fa_Paused f) \<and> length (fa_Paused f) \<le> maxPaused"
| "valid_fact FactListening f \<longleftrightarrow> words_ok maxListening (printable_path 64) (fa_Listening f)"
| "valid_fact FactFailed f \<longleftrightarrow> words_ok maxFailed unitNamePattern (fa_Failed f)"

primrec same :: "fact \<Rightarrow> facts \<Rightarrow> facts \<Rightarrow> bool" where
  "same FactKernel f g \<longleftrightarrow> fa_Kernel g = fa_Kernel f"
| "same FactSystem f g \<longleftrightarrow> fa_System g = fa_System f"
| "same FactDpkg f g \<longleftrightarrow> fa_DpkgQuiet g = fa_DpkgQuiet f"
| "same FactSamba f g \<longleftrightarrow> fa_SambaUsers g = fa_SambaUsers f"
| "same FactMounts f g \<longleftrightarrow> fa_Mounts g = fa_Mounts f \<and> fa_Mergerfs g = fa_Mergerfs f \<and> fa_Pools g = fa_Pools f"
| "same FactRoute f g \<longleftrightarrow> fa_Route g = fa_Route f"
| "same FactDNS f g \<longleftrightarrow> fa_DNS g = fa_DNS f"
| "same FactUnits f g \<longleftrightarrow> fa_Units g = fa_Units f"
| "same FactDocker f g \<longleftrightarrow>
     dk_State (fa_Docker g) = dk_State (fa_Docker f) \<and> dk_Version (fa_Docker g) = dk_Version (fa_Docker f) \<and> dk_EngineID (fa_Docker g) = dk_EngineID (fa_Docker f)"
| "same FactContainers f g \<longleftrightarrow> dk_Containers (fa_Docker g) = dk_Containers (fa_Docker f)"
| "same FactSources f g \<longleftrightarrow> fa_Paused g = fa_Paused f"
| "same FactListening f g \<longleftrightarrow> fa_Listening g = fa_Listening f"
| "same FactFailed f g \<longleftrightarrow> fa_Failed g = fa_Failed f"

definition said :: "fact \<Rightarrow> facts \<Rightarrow> bool" where
  "said x f \<longleftrightarrow> fact_word x \<in> set (fa_Unknown f) \<or> valid_fact x f"

lemma said_valid: "valid_fact x f \<Longrightarrow> said x f"
  by (simp add: said_def)

lemma same_refl [simp]: "same x f f"
  by (cases x) simp_all

lemma same_trans: "same x f g \<Longrightarrow> same x g h \<Longrightarrow> same x f h"
  by (cases x) simp_all

lemma same_valid: "same x f g \<Longrightarrow> valid_fact x g = valid_fact x f"
  by (cases x) simp_all

lemma said_kept: "said x f \<Longrightarrow> same x f g \<Longrightarrow> set (fa_Unknown f) \<subseteq> set (fa_Unknown g) \<Longrightarrow> said x g"
  by (auto simp: said_def same_valid)

lemma same_set [simp]:
  "x \<noteq> FactKernel \<Longrightarrow> same x f (f\<lparr>fa_Kernel := k\<rparr>)" "x \<noteq> FactSystem \<Longrightarrow> same x f (f\<lparr>fa_System := s\<rparr>)"
  "x \<noteq> FactDpkg \<Longrightarrow> same x f (f\<lparr>fa_DpkgQuiet := b\<rparr>)" "x \<noteq> FactSamba \<Longrightarrow> same x f (f\<lparr>fa_SambaUsers := n\<rparr>)"
  "x \<noteq> FactMounts \<Longrightarrow> same x f (f\<lparr>fa_Mergerfs := us, fa_Pools := ps, fa_Mounts := ms\<rparr>)" "x \<noteq> FactRoute \<Longrightarrow> same x f (f\<lparr>fa_Route := s\<rparr>)"
  "x \<noteq> FactDNS \<Longrightarrow> same x f (f\<lparr>fa_DNS := b\<rparr>)" "x \<noteq> FactUnits \<Longrightarrow> same x f (f\<lparr>fa_Units := ps'\<rparr>)"
  "x \<noteq> FactSources \<Longrightarrow> same x f (f\<lparr>fa_Paused := us\<rparr>)" "x \<noteq> FactListening \<Longrightarrow> same x f (f\<lparr>fa_Listening := us\<rparr>)"
  "x \<noteq> FactFailed \<Longrightarrow> same x f (f\<lparr>fa_Failed := us\<rparr>)" "x \<noteq> FactDocker \<Longrightarrow> same x f (f\<lparr>fa_Docker := (fa_Docker f)\<lparr>dk_State := d\<rparr>\<rparr>)"
  "x \<noteq> FactDocker \<Longrightarrow> same x f (f\<lparr>fa_Docker := (fa_Docker f)\<lparr>dk_Version := v\<rparr>\<rparr>)"
  "x \<noteq> FactDocker \<Longrightarrow> same x f (f\<lparr>fa_Docker := (fa_Docker f)\<lparr>dk_EngineID := v\<rparr>\<rparr>)"
  "x \<noteq> FactContainers \<Longrightarrow> same x f (f\<lparr>fa_Docker := (fa_Docker f)\<lparr>dk_Containers := cs\<rparr>\<rparr>)"
  by (cases x; simp)+

subsection \<open>The commands that are run\<close>

definition clock_ok :: "probe \<Rightarrow> bool" where
  "clock_ok p \<longleftrightarrow> (\<forall>m n. m \<le> n \<longrightarrow> pb_Over p m \<longrightarrow> pb_Over p n)"

definition hangs :: "probe \<Rightarrow> string list \<Rightarrow> bool" where
  "hangs p argv \<longleftrightarrow> snd (pb_Run p argv)"

definition run_inv :: "probe \<Rightarrow> taker \<Rightarrow> bool" where
  "run_inv p t \<longleftrightarrow>
     list_all Allowed (tk_ran t) \<and> sorted_wrt (\<lambda>a b. hangs p a \<longrightarrow> hd b \<noteq> hd a) (tk_ran t) \<and>
     (\<forall>a\<in>set (tk_ran t). hangs p a \<longrightarrow> hd a \<in> set (tk_hung t) \<or> pb_Over p (tk_looks t))"

definition taker_moves :: "probe \<Rightarrow> fact set \<Rightarrow> taker \<Rightarrow> taker \<Rightarrow> bool" where
  "taker_moves p own t t' \<longleftrightarrow>
     (\<forall>x. x \<notin> own \<longrightarrow> same x (tk_f t) (tk_f t')) \<and> set (fa_Unknown (tk_f t)) \<subseteq> set (fa_Unknown (tk_f t')) \<and> fa_Taken (tk_f t') = fa_Taken (tk_f t) \<and>
     (clock_ok p \<longrightarrow> run_inv p t \<longrightarrow> run_inv p t') \<and> ((\<forall>n. pb_Over p n) \<longrightarrow> tk_ran t' = tk_ran t)"

lemma moves_refl: "taker_moves p own t t"
  by (simp add: taker_moves_def)

lemma moves_trans: "taker_moves p own t t1 \<Longrightarrow> taker_moves p own t1 t2 \<Longrightarrow> taker_moves p own t t2"
  unfolding taker_moves_def using same_trans by (metis (no_types, opaque_lifting) order_trans)

lemma moves_mono: "taker_moves p own t t' \<Longrightarrow> own \<subseteq> own' \<Longrightarrow> taker_moves p own' t t'"
  unfolding taker_moves_def by blast

lemma unknown_miss [simp]: "set (fa_Unknown (tk_f (miss xs t))) = set (fa_Unknown (tk_f t)) \<union> fact_word ` set xs"
proof -
  have "set (fold (\<lambda>x u. if fact_word x \<in> set u then u else u @ [fact_word x]) xs u) = set u \<union> fact_word ` set xs" for u
    by (induction xs arbitrary: u) auto
  then show ?thesis by (simp add: miss_def)
qed

lemma miss_fields [simp]:
  "same x (tk_f t) (tk_f (miss xs t))" "fa_Taken (tk_f (miss xs t)) = fa_Taken (tk_f t)" "tk_ran (miss xs t) = tk_ran t" "tk_hung (miss xs t) = tk_hung t"
  "tk_looks (miss xs t) = tk_looks t"
  by (cases x) (simp_all add: miss_def)

lemma run_inv_cong: "tk_ran t' = tk_ran t \<Longrightarrow> tk_hung t' = tk_hung t \<Longrightarrow> tk_looks t' = tk_looks t \<Longrightarrow> run_inv p t' = run_inv p t"
  by (simp add: run_inv_def)

lemma moves_miss: "taker_moves p own t t1 \<Longrightarrow> taker_moves p own t (miss xs t1)"
  by (rule moves_trans) (auto simp: taker_moves_def run_inv_cong [of "miss xs t1" t1])

lemma moves_set:
  assumes "taker_moves p own t t1" "\<And>x. x \<notin> own \<Longrightarrow> same x (tk_f t1) g" "fa_Unknown g = fa_Unknown (tk_f t1)" "fa_Taken g = fa_Taken (tk_f t1)"
  shows "taker_moves p own t (t1\<lparr>tk_f := g\<rparr>)"
  by (rule moves_trans [OF assms(1)]) (use assms(2-4) in \<open>auto simp: taker_moves_def run_inv_def\<close>)

lemma look_facts: "time_over p t = (t1, late) \<Longrightarrow> late = pb_Over p (tk_looks t) \<and> t1 = t\<lparr>tk_looks := tk_looks t + 1\<rparr>"
  by (auto simp: time_over_def)

lemma run_inv_look: "clock_ok p \<Longrightarrow> run_inv p t \<Longrightarrow> run_inv p (t\<lparr>tk_looks := tk_looks t + 1\<rparr>)"
  unfolding run_inv_def clock_ok_def by simp (meson le_SucI order_refl)

lemma moves_look: "time_over p t = (t1, late) \<Longrightarrow> taker_moves p own t t1"
  using look_facts [of p t t1 late] run_inv_look [of p t] by (auto simp: taker_moves_def)

lemma run_inv_ran:
  assumes "run_inv p t" "Allowed argv" "hd argv \<notin> set (tk_hung t)" "\<not> pb_Over p (tk_looks t)"
    and "hangs p argv \<longrightarrow> hd argv \<in> set hung \<or> pb_Over p n" "set (tk_hung t) \<subseteq> set hung"
  shows "run_inv p (t\<lparr>tk_ran := tk_ran t @ [argv], tk_hung := hung, tk_looks := n\<rparr>)"
  using assms unfolding run_inv_def by (auto simp: sorted_wrt_append)

lemma ask_cases:
  assumes "ask p argv t = (t1, a)"
  obtains (refused) "t1 = t" "a = RunFailed"
    | (late) "t1 = t\<lparr>tk_looks := tk_looks t + 1\<rparr>" "a = RunFailed"
    | (asked) hung n where "t1 = t\<lparr>tk_ran := tk_ran t @ [argv], tk_hung := hung, tk_looks := n\<rparr>" "Allowed argv" "hd argv \<notin> set (tk_hung t)"
        "\<not> pb_Over p (tk_looks t)" "clock_ok p \<longrightarrow> hangs p argv \<longrightarrow> hd argv \<in> set hung \<or> pb_Over p n" "set (tk_hung t) \<subseteq> set hung"
proof (cases "argv = [] \<or> \<not> Allowed argv \<or> pb_Over p (tk_looks t) \<or> hd argv \<in> set (tk_hung t)")
  case True
  then show ?thesis using assms refused late by (auto simp: ask_def time_over_def split: if_splits bool.splits)
next
  case False
  obtain r h where r: "pb_Run p argv = (r, h)" by fastforce
  let ?n = "tk_looks t + (if h then 2 else 1)" and ?hung = "(if h \<and> \<not> pb_Over p (tk_looks t + 1) then [hd argv] else []) @ tk_hung t"
  have "t1 = t\<lparr>tk_ran := tk_ran t @ [argv], tk_hung := ?hung, tk_looks := ?n\<rparr>"
    using assms False r by (cases h) (auto simp: ask_def time_over_def Let_def split: if_splits)
  moreover have "clock_ok p \<longrightarrow> hangs p argv \<longrightarrow> hd argv \<in> set ?hung \<or> pb_Over p ?n"
  proof (intro impI)
    assume "clock_ok p" "hangs p argv"
    then have "h" "tk_looks t + 1 \<le> tk_looks t + 2 \<longrightarrow> pb_Over p (tk_looks t + 1) \<longrightarrow> pb_Over p (tk_looks t + 2)"
      using r unfolding hangs_def clock_ok_def by (simp, blast)
    then show "hd argv \<in> set ?hung \<or> pb_Over p ?n" by auto
  qed
  ultimately show ?thesis using asked False by auto
qed

lemma moves_ask: "ask p argv t = (t1, a) \<Longrightarrow> taker_moves p own t t1"
proof (erule ask_cases)
  fix hung n
  assume "t1 = t\<lparr>tk_ran := tk_ran t @ [argv], tk_hung := hung, tk_looks := n\<rparr>" "Allowed argv" "hd argv \<notin> set (tk_hung t)" "\<not> pb_Over p (tk_looks t)"
    "clock_ok p \<longrightarrow> hangs p argv \<longrightarrow> hd argv \<in> set hung \<or> pb_Over p n" "set (tk_hung t) \<subseteq> set hung"
  then show ?thesis using run_inv_ran [of p t argv hung n] by (auto simp: taker_moves_def)
qed (use run_inv_look [of p t] in \<open>auto simp: taker_moves_def\<close>)

lemma ask_over: "\<forall>n. pb_Over p n \<Longrightarrow> ask p argv t = (t1, a) \<Longrightarrow> a = RunFailed"
  by (erule ask_cases) auto

lemma moves_file: "take_file p path t = (t1, a) \<Longrightarrow> taker_moves p own t t1"
  using moves_look [of p t] by (auto simp: take_file_def split: prod.splits)

lemma moves_dir: "take_dir p path t = (t1, a) \<Longrightarrow> taker_moves p own t t1"
  using moves_look [of p t] by (auto simp: take_dir_def split: prod.splits)

lemma file_over: "\<forall>n. pb_Over p n \<Longrightarrow> take_file p path t = (t1, a) \<Longrightarrow> a = ReadFailed"
  by (auto simp: take_file_def time_over_def)

lemma dir_over: "\<forall>n. pb_Over p n \<Longrightarrow> take_dir p path t = (t1, a) \<Longrightarrow> a = DirFailed"
  by (auto simp: take_dir_def time_over_def)

lemma answered_failed [simp]: "answered RunFailed = None"
  by (simp add: answered_def)

subsection \<open>The contract of a question\<close>

definition fair_order :: "probe \<Rightarrow> bool" where
  "fair_order p \<longleftrightarrow> (\<forall>xs. mset (pb_Order p xs) = mset xs)"

definition fresh :: "fact \<Rightarrow> facts \<Rightarrow> bool" where
  "fresh x f \<longleftrightarrow> same x no_facts f"

locale taker_step =
  fixes p :: probe and step :: "taker \<Rightarrow> taker" and own :: "fact set"
  assumes step_moves: "taker_moves p own t (step t)"
    and step_says: "fair_order p \<Longrightarrow> \<forall>x\<in>own. fresh x (tk_f t) \<Longrightarrow> x \<in> own \<Longrightarrow> said x (tk_f (step t))"
    and step_unseen: "\<forall>n. pb_Over p n \<Longrightarrow> x \<in> own \<Longrightarrow> fact_word x \<in> set (fa_Unknown (tk_f (step t)))"
begin

lemma step_fresh: "x \<notin> own \<Longrightarrow> fresh x (tk_f t) \<Longrightarrow> fresh x (tk_f (step t))"
  using step_moves [of t] same_trans unfolding taker_moves_def fresh_def by blast

lemma step_then:
  assumes "taker_moves p others (step t) t'" "x \<in> own" "x \<notin> others"
  shows "fair_order p \<Longrightarrow> \<forall>y\<in>own. fresh y (tk_f t) \<Longrightarrow> said x (tk_f t')" "\<forall>n. pb_Over p n \<Longrightarrow> fact_word x \<in> set (fa_Unknown (tk_f t'))"
  using assms step_says [of t x] step_unseen [of x t] said_kept [of x "tk_f (step t)" "tk_f t'"] unfolding taker_moves_def by blast+

end

text \<open>Questions one after the other, each with facts of its own.\<close>

definition owned :: "((taker \<Rightarrow> taker) \<times> fact set) list \<Rightarrow> fact set" where
  "owned qs = \<Union> (snd ` set qs)"

fun apart_questions :: "((taker \<Rightarrow> taker) \<times> fact set) list \<Rightarrow> bool" where
  "apart_questions [] \<longleftrightarrow> True"
| "apart_questions (q # qs) \<longleftrightarrow> snd q \<inter> owned qs = {} \<and> apart_questions qs"

lemma owned_simps [simp]: "owned [] = {}" "owned (q # qs) = snd q \<union> owned qs"
  by (simp_all add: owned_def)

lemma questions_move: "\<forall>q\<in>set qs. taker_step p (fst q) (snd q) \<Longrightarrow> taker_moves p (owned qs) t (fold fst qs t)"
proof (induction qs arbitrary: t)
  case (Cons q qs)
  then have "taker_moves p (snd q) t (fst q t)" using taker_step.step_moves by simp
  then have "taker_moves p (owned (q # qs)) t (fst q t)" by (rule moves_mono) simp
  moreover have "taker_moves p (owned (q # qs)) (fst q t) (fold fst qs (fst q t))" by (rule moves_mono [OF Cons(1)]) (use Cons(2) in auto)
  ultimately have "taker_moves p (owned (q # qs)) t (fold fst qs (fst q t))" by (rule moves_trans)
  then show ?case by simp
qed (simp add: moves_refl)

lemma questions_say:
  assumes "\<forall>q\<in>set qs. taker_step p (fst q) (snd q)" "apart_questions qs" "x \<in> owned qs"
  shows "fair_order p \<Longrightarrow> \<forall>y\<in>owned qs. fresh y (tk_f t) \<Longrightarrow> said x (tk_f (fold fst qs t))"
    and "\<forall>n. pb_Over p n \<Longrightarrow> fact_word x \<in> set (fa_Unknown (tk_f (fold fst qs t)))"
proof -
  have "(fair_order p \<longrightarrow> (\<forall>y\<in>owned qs. fresh y (tk_f t)) \<longrightarrow> said x (tk_f (fold fst qs t))) \<and>
      ((\<forall>n. pb_Over p n) \<longrightarrow> fact_word x \<in> set (fa_Unknown (tk_f (fold fst qs t))))"
    using assms
  proof (induction qs arbitrary: t)
    case (Cons q qs)
    have q: "taker_step p (fst q) (snd q)" using Cons(2) by simp
    have rest: "taker_moves p (owned qs) (fst q t) (fold fst qs (fst q t))" by (rule questions_move) (use Cons(2) in simp)
    show ?case
    proof (cases "x \<in> snd q")
      case True
      then have "x \<notin> owned qs" using Cons(3) by auto
      then show ?thesis using taker_step.step_then [OF q rest True] by auto
    next
      case False
      have "\<forall>y\<in>owned qs. fresh y (tk_f (fst q t))" if "\<forall>y\<in>owned (q # qs). fresh y (tk_f t)"
        using that taker_step.step_fresh [OF q] Cons(3) by auto
      then show ?thesis using Cons(1) [of "fst q t"] Cons(2,3,4) False by auto
    qed
  qed simp
  then show "fair_order p \<Longrightarrow> \<forall>y\<in>owned qs. fresh y (tk_f t) \<Longrightarrow> said x (tk_f (fold fst qs t))"
    "\<forall>n. pb_Over p n \<Longrightarrow> fact_word x \<in> set (fa_Unknown (tk_f (fold fst qs t)))" by blast+
qed

subsection \<open>The short questions\<close>

text \<open>A question of one fact: one command or one file, whose answer says what to write down of the fact, or nothing.\<close>

definition writes_fact :: "fact \<Rightarrow> (facts \<Rightarrow> facts) \<Rightarrow> bool" where
  "writes_fact x h \<longleftrightarrow>
     (\<forall>f. (\<forall>y. y \<noteq> x \<longrightarrow> same y f (h f)) \<and> fa_Unknown (h f) = fa_Unknown f \<and> fa_Taken (h f) = fa_Taken f \<and> (fresh x f \<longrightarrow> valid_fact x (h f)))"

lemma one_question:
  assumes step: "\<And>t. step t = (case q t of (t1, a) \<Rightarrow> (case g a of None \<Rightarrow> miss [x] t1 | Some h \<Rightarrow> t1\<lparr>tk_f := h (tk_f t1)\<rparr>))"
    and q: "\<And>t t1 a. q t = (t1, a) \<Longrightarrow> taker_moves p {} t t1" "\<And>t t1 a. \<forall>n. pb_Over p n \<Longrightarrow> q t = (t1, a) \<Longrightarrow> g a = None"
    and g: "\<And>a h. g a = Some h \<Longrightarrow> writes_fact x h"
  shows "taker_step p step {x}"
proof
  fix t
  obtain t1 a where t1: "q t = (t1, a)" by fastforce
  have m: "taker_moves p {} t t1" by (rule q(1) [OF t1])
  then have m1: "taker_moves p {x} t t1" by (rule moves_mono) simp
  show "taker_moves p {x} t (step t)"
  proof (cases "g a")
    case None
    then show ?thesis using m1 t1 by (simp add: step moves_miss)
  next
    case (Some h)
    have "taker_moves p {x} t (t1\<lparr>tk_f := h (tk_f t1)\<rparr>)" by (rule moves_set [OF m1]) (use g [OF Some] in \<open>auto simp: writes_fact_def\<close>)
    then show ?thesis using t1 Some by (simp add: step)
  qed
  show "said y (tk_f (step t))" if "\<forall>y\<in>{x}. fresh y (tk_f t)" "y \<in> {x}" for y
  proof -
    have "fresh x (tk_f t1)" using m that(1) same_trans unfolding taker_moves_def fresh_def by blast
    then show ?thesis using t1 that(2) by (auto simp: step said_def writes_fact_def dest!: g split: option.split)
  qed
  show "fact_word y \<in> set (fa_Unknown (tk_f (step t)))" if "\<forall>n. pb_Over p n" "y \<in> {x}" for y
    using q(2) [OF that(1) t1] that(2) t1 by (simp add: step)
qed

lemma command_question:
  assumes "\<And>t. step t = (case ask p argv t of (t1, a) \<Rightarrow> (case g a of None \<Rightarrow> miss [x] t1 | Some h \<Rightarrow> t1\<lparr>tk_f := h (tk_f t1)\<rparr>))"
    and "g RunFailed = None" "\<And>a h. g a = Some h \<Longrightarrow> writes_fact x h"
  shows "taker_step p step {x}"
  by (rule one_question [OF assms(1)]) (use assms(2,3) moves_ask ask_over in blast)+

lemma file_question:
  assumes "\<And>t. step t = (case take_file p path t of (t1, a) \<Rightarrow> (case g a of None \<Rightarrow> miss [x] t1 | Some h \<Rightarrow> t1\<lparr>tk_f := h (tk_f t1)\<rparr>))"
    and "g ReadFailed = None" "\<And>a h. g a = Some h \<Longrightarrow> writes_fact x h"
  shows "taker_step p step {x}"
  by (rule one_question [OF assms(1)]) (use assms(2,3) moves_file file_over in blast)+

interpretation kernel_question: taker_step p "take_kernel p" "{FactKernel}" for p
  by (rule command_question [where argv = "[''uname'', ''-r'']" and
        g = "\<lambda>a. case answered a of None \<Rightarrow> None | Some x \<Rightarrow> if kernelPattern (firstLine x) then Some (\<lambda>f. f\<lparr>fa_Kernel := firstLine x\<rparr>) else None"])
    (auto simp: take_kernel_def writes_fact_def split: prod.split option.splits if_splits)

interpretation system_question: taker_step p "take_system p" "{FactSystem}" for p
  by (rule command_question [where argv = "[''systemctl'', ''is-system-running'']" and
        g = "\<lambda>a. case a of Ran out \<Rightarrow> if firstLine (ro_Text out) \<in> set systemStates then Some (\<lambda>f. f\<lparr>fa_System := firstLine (ro_Text out)\<rparr>) else None | _ \<Rightarrow> None"])
    (auto simp: take_system_def writes_fact_def split: prod.split run_answer.splits if_splits)

interpretation dpkg_question: taker_step p "take_dpkg p" "{FactDpkg}" for p
  by (rule command_question [where argv = "[''dpkg'', ''--audit'']" and
        g = "\<lambda>a. case a of Ran out \<Rightarrow> Some (\<lambda>f. f\<lparr>fa_DpkgQuiet := (ro_ExitCode out = 0 \<and> \<not> ro_Truncated out \<and> TrimSpace (ro_Text out) = [])\<rparr>) | _ \<Rightarrow> None"])
    (auto simp: take_dpkg_def writes_fact_def split: prod.split run_answer.splits)

interpretation samba_question: taker_step p "take_samba p" "{FactSamba}" for p
  by (rule command_question [where argv = "[''pdbedit'', ''-L'']" and
        g = "\<lambda>a. case answered a of None \<Rightarrow> None
               | Some x \<Rightarrow> Some (\<lambda>f. f\<lparr>fa_SambaUsers := fa_SambaUsers f + int (length (filter sambaLine (split_on (CHR 0x0A) x)))\<rparr>)"])
    (auto simp: take_samba_def writes_fact_def fresh_def no_facts_def split: prod.split option.splits)

lemma note_seen_fold:
  "distinct seen \<Longrightarrow> length seen \<le> most \<Longrightarrow> list_all P seen \<Longrightarrow> (\<And>l x. word l = Some x \<Longrightarrow> P x) \<Longrightarrow>
    distinct (foldl (note_seen most word) seen ls) \<and> length (foldl (note_seen most word) seen ls) \<le> most \<and> list_all P (foldl (note_seen most word) seen ls)"
proof (induction ls arbitrary: seen)
  case (Cons l ls)
  have "distinct (note_seen most word seen l) \<and> length (note_seen most word seen l) \<le> most \<and> list_all P (note_seen most word seen l)"
    using Cons(2-5) by (auto simp: note_seen_def split: option.split)
  then show ?case using Cons(1) [of "note_seen most word seen l"] Cons(5) by simp
qed simp

lemma seen_words_ok: "(\<And>l x. word l = Some x \<Longrightarrow> P x) \<Longrightarrow> words_ok most P (seen_words most word t)"
  using note_seen_fold [of "[]" most P word "split_on (CHR 0x0A) t"] by (simp add: words_ok_def seen_words_def list_all_iff)

interpretation listening_question: taker_step p "take_listening p" "{FactListening}" for p
proof -
  have "words_ok maxListening (printable_path 64) (seen_words maxListening listening_word x)" for x
    by (rule seen_words_ok) (auto simp: listening_word_def Let_def split: if_splits)
  then show "taker_step p (take_listening p) {FactListening}"
    by (intro command_question [where argv = "[''ss'', ''-Hltn'']" and
          g = "\<lambda>a. case answered a of None \<Rightarrow> None | Some x \<Rightarrow> Some (\<lambda>f. f\<lparr>fa_Listening := seen_words maxListening listening_word x\<rparr>)"])
      (auto simp: take_listening_def writes_fact_def split: prod.split option.splits)
qed

interpretation failed_question: taker_step p "take_failedUnits p" "{FactFailed}" for p
proof -
  have "words_ok maxFailed unitNamePattern (seen_words maxFailed failed_word x)" for x
    by (rule seen_words_ok) (auto simp: failed_word_def split: list.splits if_splits)
  then show "taker_step p (take_failedUnits p) {FactFailed}"
    by (intro command_question [where argv = "[''systemctl'', ''--failed'', ''--no-legend'', ''--plain'']" and
          g = "\<lambda>a. case answered a of None \<Rightarrow> None | Some x \<Rightarrow> Some (\<lambda>f. f\<lparr>fa_Failed := seen_words maxFailed failed_word x\<rparr>)"])
      (auto simp: take_failedUnits_def writes_fact_def split: prod.split option.splits)
qed

interpretation route_question: taker_step p "take_route p" "{FactRoute}" for p
proof -
  have r: "defaultRoute x = [] \<or> defaultRoute x = routeOther \<or> interfacePattern (defaultRoute x)" for x
  proof (cases "List.map_filter route_of (split_on (CHR 0x0A) x)")
    case (Cons r rs)
    then have "r \<in> set (List.map_filter route_of (split_on (CHR 0x0A) x))" by simp
    then obtain l where "route_of l = Some r" by (auto simp: List.map_filter_def)
    then show ?thesis using Cons by (auto simp: defaultRoute_def route_of_def Let_def split: if_splits option.splits)
  qed (simp add: defaultRoute_def)
  have "writes_fact FactRoute (\<lambda>f. f\<lparr>fa_Route := defaultRoute x\<rparr>)" for x using r [of x] by (simp add: writes_fact_def)
  then show "taker_step p (take_route p) {FactRoute}"
    by (intro file_question [where path = "''/proc/net/route''" and g = "\<lambda>a. case a of ReadText x \<Rightarrow> Some (\<lambda>f. f\<lparr>fa_Route := defaultRoute x\<rparr>) | _ \<Rightarrow> None"])
      (auto simp: take_route_def split: prod.split read_answer.splits)
qed

interpretation dns_question: taker_step p "take_dns p" "{FactDNS}" for p
proof
  fix t
  obtain t1 o1 where t1: "time_over p t = (t1, o1)" by fastforce
  obtain t2 o2 where t2: "time_over p t1 = (t2, o2)" by fastforce
  have m: "taker_moves p {FactDNS} t t1" "taker_moves p {FactDNS} t t2" using moves_look [OF t1] moves_look [OF t2] moves_trans by blast+
  show "taker_moves p {FactDNS} t (take_dns p t)"
    using t1 t2 m by (cases o1; cases o2) (auto simp: take_dns_def intro!: moves_miss moves_set intro: same_set)
  show "said x (tk_f (take_dns p t))" if "x \<in> {FactDNS}" for x
    using that by (simp add: said_def)
  show "fact_word x \<in> set (fa_Unknown (tk_f (take_dns p t)))" if "\<forall>n. pb_Over p n" "x \<in> {FactDNS}" for x
    using that by (simp add: take_dns_def time_over_def)
qed

subsection \<open>Mounts\<close>

definition mounts_ok :: "string list \<Rightarrow> bool" where
  "mounts_ok ms \<longleftrightarrow> distinct ms \<and> list_all (printable_path maxMountPath) ms"

definition mergerfs_points :: "string list \<Rightarrow> string set" where
  "mergerfs_points ls = {x. \<exists>l\<in>set ls. \<exists>s a r. Fields l = s # a # ''fuse.mergerfs'' # r \<and> x = unescapeMount a \<and> printable_path maxMountPath x}"

definition merger_step :: "string list \<Rightarrow> string \<Rightarrow> string list" where
  "merger_step ms line =
     (case Fields line of
        _ # point # typ # _ \<Rightarrow>
          if typ = ''fuse.mergerfs'' \<and> printable_path maxMountPath (unescapeMount point) \<and> unescapeMount point \<notin> set ms
          then ms @ [unescapeMount point] else ms
      | _ \<Rightarrow> ms)"

lemma mergerfsMounts_fold: "mergerfsMounts x = sort (foldl merger_step [] (split_on (CHR 0x0A) x))"
  by (simp add: mergerfsMounts_def merger_step_def [abs_def])

lemma merger_step_ok: "mounts_ok ms \<Longrightarrow> mounts_ok (merger_step ms l)"
  by (auto simp: merger_step_def mounts_ok_def split: list.split)

lemma merger_step_set: "set (merger_step ms l) = set ms \<union> mergerfs_points [l]"
  by (auto simp: merger_step_def mergerfs_points_def split: list.split)

lemma mergerfs_fold: "mounts_ok ms \<Longrightarrow> mounts_ok (foldl merger_step ms ls) \<and> set (foldl merger_step ms ls) = set ms \<union> mergerfs_points ls"
proof (induction ls arbitrary: ms)
  case (Cons l ls)
  have "mergerfs_points (l # ls) = mergerfs_points [l] \<union> mergerfs_points ls" by (auto simp: mergerfs_points_def)
  then show ?case using Cons(1) [OF merger_step_ok [OF Cons(2)], of l] merger_step_set [of ms l] by auto
qed (simp add: mergerfs_points_def)

lemma branches_ok: "distinct (poolBranches x) \<and> length (poolBranches x) \<le> maxPoolBranches \<and> list_all (printable_path maxMountPath) (poolBranches x)"
proof -
  let ?f = "\<lambda>bs b. if printable_path maxMountPath (trim_mode b) \<and> trim_mode b \<notin> set bs \<and> length bs < maxPoolBranches then bs @ [trim_mode b] else bs"
  have "distinct (foldl ?f bs xs) \<and> length (foldl ?f bs xs) \<le> maxPoolBranches \<and> list_all (printable_path maxMountPath) (foldl ?f bs xs)"
    if "distinct bs \<and> length bs \<le> maxPoolBranches \<and> list_all (printable_path maxMountPath) bs" for bs xs
    using that by (induction xs arbitrary: bs) simp_all
  from this [of "[]"] show ?thesis by (simp add: poolBranches_def)
qed

definition pools_ok :: "(string \<times> string list) list \<Rightarrow> bool" where
  "pools_ok ps \<longleftrightarrow>
     length ps \<le> maxPools \<and> (\<forall>bs\<in>snd ` set ps. distinct bs \<and> length bs \<le> maxPoolBranches \<and> list_all (printable_path maxMountPath) bs)"

lemma put_shorter: "length (put k v m) \<le> Suc (length m)"
  by (simp add: put_def)

lemma pools_ok_put: "pools_ok ps \<Longrightarrow> length ps < maxPools \<Longrightarrow> pools_ok (put a (poolBranches s) ps)"
proof -
  assume ps: "pools_ok ps" "length ps < maxPools"
  have "length (put a (poolBranches s) ps) \<le> maxPools" using put_shorter [of a "poolBranches s" ps] ps(2) by linarith
  moreover have "distinct bs \<and> length bs \<le> maxPoolBranches \<and> list_all (printable_path maxMountPath) bs"
    if "bs \<in> snd ` set (put a (poolBranches s) ps)" for bs
  proof -
    have "bs = poolBranches s \<or> bs \<in> snd ` set ps" using that by (auto simp: put_def)
    then show ?thesis using branches_ok [of s] ps(1) unfolding pools_ok_def by metis
  qed
  ultimately show ?thesis unfolding pools_ok_def by simp
qed

lemma data_line_ok:
  assumes "data_line (ms, ps) l = (ms', ps')" "mounts_ok ms" "length ms \<le> maxMounts" "pools_ok ps"
  shows "mounts_ok ms' \<and> length ms' \<le> maxMounts \<and> pools_ok ps' \<and> fst ` set ps' \<subseteq> fst ` set ps \<union> mergerfs_points [l]"
proof (cases "\<exists>s a ty r. Fields l = s # a # ty # r")
  case True
  then obtain s a ty r where f: "Fields l = s # a # ty # r" by blast
  let ?a = "unescapeMount a"
  show ?thesis
  proof (cases "ty \<notin> set dataFileSystems \<or> \<not> printable_path maxMountPath ?a")
    case True
    then show ?thesis using assms f by (auto simp: data_line_def Let_def)
  next
    case False
    have m: "ms' = (if ?a \<notin> set ms \<and> length ms < maxMounts then ms @ [?a] else ms)"
      and p: "ps' = (if ty = ''fuse.mergerfs'' \<and> length ps < maxPools then put ?a (poolBranches s) ps else ps)"
      using assms(1) f False by (auto simp: data_line_def Let_def)
    have "mounts_ok ms' \<and> length ms' \<le> maxMounts" using m assms(2,3) False by (auto simp: mounts_ok_def)
    moreover have "pools_ok ps'" using p assms(4) pools_ok_put [of ps ?a s] by (auto simp del: One_nat_def)
    moreover have "fst ` set ps' \<subseteq> fst ` set ps \<union> mergerfs_points [l]" using p f False by (auto simp: put_def mergerfs_points_def)
    ultimately show ?thesis by blast
  qed
next
  case False
  then have "data_line (ms, ps) l = (ms, ps)" by (auto simp: data_line_def split: list.split)
  then show ?thesis using assms by simp
qed

lemma data_fold_ok:
  "mounts_ok ms \<Longrightarrow> length ms \<le> maxMounts \<Longrightarrow> pools_ok ps \<Longrightarrow> foldl data_line (ms, ps) ls = (ms', ps') \<Longrightarrow>
     mounts_ok ms' \<and> length ms' \<le> maxMounts \<and> pools_ok ps' \<and> fst ` set ps' \<subseteq> fst ` set ps \<union> mergerfs_points ls"
proof (induction ls arbitrary: ms ps)
  case (Cons l ls)
  obtain m1 p1 where d: "data_line (ms, ps) l = (m1, p1)" by fastforce
  note o = data_line_ok [OF d Cons(2-4)]
  have "mergerfs_points (l # ls) = mergerfs_points [l] \<union> mergerfs_points ls" by (auto simp: mergerfs_points_def)
  moreover have "mounts_ok ms' \<and> length ms' \<le> maxMounts \<and> pools_ok ps' \<and> fst ` set ps' \<subseteq> fst ` set p1 \<union> mergerfs_points ls"
    using Cons(1) [of m1 p1] o Cons(5) d by simp
  ultimately show ?case using o by blast
qed (auto simp: mergerfs_points_def)

interpretation mounts_question: taker_step p "take_mounts p" "{FactMounts}" for p
proof -
  have w: "writes_fact FactMounts (\<lambda>f. f\<lparr>fa_Mergerfs := mergerfsMounts x, fa_Mounts := fst (dataMounts x), fa_Pools := snd (dataMounts x)\<rparr>)" for x
  proof -
    let ?ls = "split_on (CHR 0x0A) x"
    obtain ms ps where d: "foldl data_line ([], []) ?ls = (ms, ps)" by fastforce
    have "mounts_ok ms \<and> length ms \<le> maxMounts \<and> pools_ok ps \<and> fst ` set ps \<subseteq> mergerfs_points ?ls"
      using data_fold_ok [OF _ _ _ d] by (simp add: mounts_ok_def pools_ok_def)
    moreover have "mounts_ok (foldl merger_step [] ?ls) \<and> set (foldl merger_step [] ?ls) = mergerfs_points ?ls"
      using mergerfs_fold [of "[]" ?ls] by (simp add: mounts_ok_def)
    ultimately have v: "valid_fact FactMounts (f\<lparr>fa_Mergerfs := mergerfsMounts x, fa_Mounts := fst (dataMounts x), fa_Pools := snd (dataMounts x)\<rparr>)" for f
      by (simp add: mergerfsMounts_fold dataMounts_def d words_ok_def mounts_ok_def pools_ok_def list_all_iff)
    have "y \<noteq> FactMounts \<Longrightarrow> same y f (f\<lparr>fa_Mergerfs := a, fa_Mounts := b, fa_Pools := c\<rparr>)" for y and f :: facts and a b c
      by (cases y) simp_all
    then show ?thesis using v unfolding writes_fact_def by simp
  qed
  show "taker_step p (take_mounts p) {FactMounts}"
    by (rule file_question [where path = "''/proc/mounts''" and
          g = "\<lambda>a. case a of ReadText x \<Rightarrow> Some (\<lambda>f. f\<lparr>fa_Mergerfs := mergerfsMounts x, fa_Mounts := fst (dataMounts x), fa_Pools := snd (dataMounts x)\<rparr>) | _ \<Rightarrow> None"])
      (use w in \<open>auto simp: take_mounts_def split: prod.split read_answer.splits\<close>)
qed

subsection \<open>Units\<close>

definition unit_ok :: "string \<Rightarrow> bool" where
  "unit_ok n \<longleftrightarrow> casaosUnit n \<and> n \<notin> set transientUnits"

lemma active_moves: "activeState p u t = (t1, s) \<Longrightarrow> taker_moves p own t t1"
  using moves_ask [of p _ t] by (auto simp: activeState_def split: prod.splits)

lemma active_ok: "activeState p u t = (t1, Some s) \<Longrightarrow> s \<in> set unitStates"
  by (auto simp: activeState_def split: prod.splits option.splits if_splits)

lemma active_over: "\<forall>n. pb_Over p n \<Longrightarrow> activeState p u t = (t1, s) \<Longrightarrow> s = None"
  using ask_over [of p _ t] by (cases "ask p [''systemctl'', ''show'', u, ''--property=ActiveState'', ''--value''] t") (fastforce simp: activeState_def)

lemma names_fold: "list_all unit_ok ns \<Longrightarrow> distinct ns \<Longrightarrow>
   list_all unit_ok (foldl (\<lambda>ns e. if casaosUnit e \<and> e \<notin> set transientUnits \<and> e \<notin> set ns then ns @ [e] else ns) ns es) \<and>
   distinct (foldl (\<lambda>ns e. if casaosUnit e \<and> e \<notin> set transientUnits \<and> e \<notin> set ns then ns @ [e] else ns) ns es)"
  by (induction es arbitrary: ns) (simp_all add: unit_ok_def)

lemma unit_names_facts:
  "unit_names p ds ns t = (t1, r) \<Longrightarrow> taker_moves p own t t1 \<and> (list_all unit_ok ns \<longrightarrow> distinct ns \<longrightarrow> (\<forall>xs. r = Some xs \<longrightarrow> list_all unit_ok xs \<and> distinct xs))"
proof (induction p ds ns t arbitrary: t1 r rule: unit_names.induct)
  case (2 p d ds names t)
  obtain t2 a where d: "take_dir p d t = (t2, a)" by fastforce
  have m: "taker_moves p own t t2" by (rule moves_dir [OF d])
  show ?case
  proof (cases a)
    case (DirEntries es)
    then show ?thesis using 2(1) [OF d [symmetric] DirEntries] 2(3) d m names_fold [of names es] moves_trans by fastforce
  next
    case DirNotExist
    then show ?thesis using 2(2) [OF d [symmetric] DirNotExist] 2(3) d m moves_trans by fastforce
  next
    case DirFailed
    then show ?thesis using 2(3) d m by simp
  qed
qed (simp add: moves_refl)

lemma unit_states_moves: "unit_states p ns ss t = (t1, r) \<Longrightarrow> taker_moves p own t t1"
proof (induction p ns ss t arbitrary: t1 r rule: unit_states.induct)
  case (2 p n ns ss t)
  obtain t2 s where s: "activeState p n t = (t2, s)" by fastforce
  then have "taker_moves p own t2 t1" using 2(1) [OF s [symmetric]] 2(2) by simp
  then show ?case using active_moves [OF s, of own] moves_trans by blast
qed (simp add: moves_refl)

definition states_ok :: "(string \<times> string) list \<Rightarrow> bool" where
  "states_ok ss \<longleftrightarrow> distinct (map fst ss) \<and> (\<forall>(n, s)\<in>set ss. unit_ok n \<and> (s = unitUnknown \<or> s \<in> set unitStates))"

lemma unit_states_ok: "unit_states p ns ss t = (t1, r) \<Longrightarrow> list_all unit_ok ns \<Longrightarrow> states_ok ss \<Longrightarrow> states_ok r"
proof (induction p ns ss t arbitrary: t1 r rule: unit_states.induct)
  case (2 p n ns ss t)
  obtain t2 s where s: "activeState p n t = (t2, s)" by fastforce
  let ?v = "case s of None \<Rightarrow> unitUnknown | Some x \<Rightarrow> x"
  have "?v = unitUnknown \<or> ?v \<in> set unitStates" using active_ok [of p n t t2] s by (auto split: option.split)
  moreover have "distinct (map fst (put n ?v ss))" using 2(4) by (auto simp: put_def states_ok_def distinct_map inj_on_def)
  ultimately have "states_ok (put n ?v ss)" using 2(3,4) by (auto simp: put_def states_ok_def)
  then show ?case using 2(1) [OF s [symmetric]] 2(2,3) s by simp
qed simp

interpretation units_question: taker_step p "take_units p" "{FactUnits}" for p
proof
  fix t
  obtain t1 r where n: "unit_names p unitDirs [] t = (t1, r)" by fastforce
  note names = unit_names_facts [OF n]
  obtain t2 ss where s: "unit_states p (pb_Order p (the r)) [] t1 = (t2, ss)" by fastforce
  obtain t3 late where l: "time_over p t2 = (t3, late)" by fastforce
  have m: "taker_moves p own t t1" "taker_moves p own t t3" for own
    using names unit_states_moves [OF s, of own] moves_look [OF l, of own] moves_trans by blast+
  have e: "take_units p t = (case r of None \<Rightarrow> miss [FactUnits] t1
      | Some _ \<Rightarrow> if late then miss [FactUnits] t3 else if ss \<noteq> [] then t3\<lparr>tk_f := (tk_f t3)\<lparr>fa_Units := ss\<rparr>\<rparr> else t3)"
    using n s l by (cases r; cases late) (simp_all add: take_units_def)
  show "taker_moves p {FactUnits} t (take_units p t)"
    unfolding e using m by (auto intro!: moves_miss moves_set intro: same_set split: option.split)
  show "said x (tk_f (take_units p t))" if "fair_order p" "\<forall>x\<in>{FactUnits}. fresh x (tk_f t)" "x \<in> {FactUnits}" for x
  proof (cases r)
    case (Some ns)
    have "set (pb_Order p ns) = set ns" using that(1) unfolding fair_order_def by (metis set_mset_mset)
    then have "list_all unit_ok (pb_Order p ns)" using names Some by (simp add: list_all_iff)
    then have ss: "states_ok ss" using unit_states_ok [OF s] Some by (simp add: states_ok_def)
    have "same FactUnits (tk_f t) (tk_f t3)" using m(2) [of "{}"] unfolding taker_moves_def by blast
    then have "fa_Units (tk_f t3) = []" using that(2) by (simp add: fresh_def no_facts_def)
    then show ?thesis using ss that(3) Some unfolding e by (auto simp: said_def states_ok_def unit_ok_def)
  qed (use that(3) in \<open>simp add: e said_def\<close>)
  show "fact_word x \<in> set (fa_Unknown (tk_f (take_units p t)))" if "\<forall>n. pb_Over p n" "x \<in> {FactUnits}" for x
  proof -
    have "r = None" using n that(1) by (simp add: unitDirs_def take_dir_def time_over_def)
    then show ?thesis using that(2) by (simp add: e)
  qed
qed

subsection \<open>Docker\<close>

lemma inspected_ok: "inspected_container p l = Some c \<Longrightarrow> container_ok c"
  by (auto simp: inspected_container_def container_ok_def Let_def list_all_iff dest!: in_set_takeD split: if_splits option.splits)

lemma parsed_ok: "list_all container_ok (parseInspected p x)"
  using inspected_ok [of p] by (fastforce simp: parseInspected_def list_all_iff List.map_filter_def)

lemma inspect_all_facts:
  "inspect_all p idss found t = (t1, r) \<Longrightarrow> taker_moves p own t t1 \<and> (list_all container_ok found \<longrightarrow> (\<forall>cs. r = Some cs \<longrightarrow> list_all container_ok cs))"
proof (induction p idss found t arbitrary: t1 r rule: inspect_all.induct)
  case (2 p ids rest found t)
  obtain t2 a where a: "ask p ([''docker'', ''inspect'', ''--format'', ContainerInspectFormat] @ ids) t = (t2, a)" by fastforce
  have m: "taker_moves p own t t2" by (rule moves_ask [OF a])
  show ?case
  proof (cases "answered a")
    case (Some x)
    then have "inspect_all p rest (found @ parseInspected p x) t2 = (t1, r)" using 2(2) a by simp
    then show ?thesis using 2(1) [OF a [symmetric] Some] m moves_trans parsed_ok [of p x] by fastforce
  qed (use 2(2) a m in simp)
qed (simp add: moves_refl)

lemma containers_facts:
  "taker_moves p {FactContainers} t (take_containers p t) \<and> said FactContainers (tk_f (take_containers p t)) \<and>
     same FactDocker (tk_f t) (tk_f (take_containers p t))"
proof -
  obtain t1 a where a: "ask p [''docker'', ''ps'', ''-q''] t = (t1, a)" by fastforce
  have m: "taker_moves p own t t1" for own by (rule moves_ask [OF a])
  let ?ids = "\<lambda>x. filter (\<lambda>l. l \<noteq> []) (map TrimSpace (split_on (CHR 0x0A) x))"
  have missed: "taker_moves p {FactContainers} t (miss [FactContainers] u) \<and> said FactContainers (tk_f (miss [FactContainers] u)) \<and> same FactDocker (tk_f t) (tk_f (miss [FactContainers] u))"
    if "\<And>own. taker_moves p own t u" for u
  proof (intro conjI)
    show "taker_moves p {FactContainers} t (miss [FactContainers] u)" by (rule moves_miss [OF that])
    show "same FactDocker (tk_f t) (tk_f (miss [FactContainers] u))" using moves_miss [OF that [of "{}"], of "[FactContainers]"] unfolding taker_moves_def by blast
  qed (simp add: said_def)
  show ?thesis
  proof (cases "\<exists>x. answered a = Some x \<and> list_all containerIDArg (?ids x) \<and> length (?ids x) \<le> maxContainers")
    case False
    then have "take_containers p t = miss [FactContainers] t1" using a by (auto simp: take_containers_def Let_def split: option.split)
    then show ?thesis using missed [OF m] by simp
  next
    case True
    then obtain x where x: "answered a = Some x" "list_all containerIDArg (?ids x)" "length (?ids x) \<le> maxContainers" by blast
    obtain t2 r where r: "inspect_all p (chunks maxInspect (?ids x)) [] t1 = (t2, r)" by fastforce
    have m2: "taker_moves p own t t2" for own using m inspect_all_facts [OF r] moves_trans by blast
    have e: "take_containers p t = (case r of None \<Rightarrow> miss [FactContainers] t2
        | Some cs \<Rightarrow> t2\<lparr>tk_f := (tk_f t2)\<lparr>fa_Docker := (fa_Docker (tk_f t2))\<lparr>dk_Containers := sort_key ct_Name cs\<rparr>\<rparr>\<rparr>)"
      using a x r by (simp add: take_containers_def Let_def split: option.split)
    show ?thesis
    proof (cases r)
      case None
      then show ?thesis using missed [OF m2] by (simp add: e)
    next
      case (Some cs)
      have "list_all container_ok cs" using inspect_all_facts [OF r] Some by simp
      moreover have "same FactDocker (tk_f t) (tk_f t2)" using m2 [of "{}"] unfolding taker_moves_def by blast
      moreover have "taker_moves p {FactContainers} t (t2\<lparr>tk_f := (tk_f t2)\<lparr>fa_Docker := (fa_Docker (tk_f t2))\<lparr>dk_Containers := sort_key ct_Name cs\<rparr>\<rparr>\<rparr>)"
        by (rule moves_set [OF m2]) auto
      ultimately show ?thesis by (simp add: e Some said_def list_all_iff)
    qed
  qed
qed

lemma docker_up_facts:
  assumes "validDaemonVersion v"
  shows "taker_moves p {FactDocker, FactContainers} t (docker_up p v t)"
    and "dk_EngineID (fa_Docker (tk_f t)) = [] \<Longrightarrow> x \<in> {FactDocker, FactContainers} \<Longrightarrow> said x (tk_f (docker_up p v t))"
proof -
  let ?own = "{FactDocker, FactContainers}"
  define t2 where "t2 = t\<lparr>tk_f := (tk_f t)\<lparr>fa_Docker := (fa_Docker (tk_f t))\<lparr>dk_State := DockerUp, dk_Version := v\<rparr>\<rparr>\<rparr>"
  obtain t3 a where a: "take_file p ''/var/lib/docker/engine-id'' t2 = (t3, a)" by fastforce
  define t4 where "t4 = (case a of
      ReadText y \<Rightarrow> if engineIDPattern (firstLine y) then t3\<lparr>tk_f := (tk_f t3)\<lparr>fa_Docker := (fa_Docker (tk_f t3))\<lparr>dk_EngineID := firstLine y\<rparr>\<rparr>\<rparr> else t3
    | _ \<Rightarrow> t3)"
  have e: "docker_up p v t = take_containers p t4"
    using a by (simp add: docker_up_def docker_is_def t2_def t4_def Let_def)
  have s: "x \<notin> ?own \<Longrightarrow> same x f (f\<lparr>fa_Docker := (fa_Docker f)\<lparr>dk_State := d, dk_Version := w\<rparr>\<rparr>)" for x and f :: facts and d w by (cases x) simp_all
  have m2: "taker_moves p ?own t t2" unfolding t2_def by (rule moves_set [OF moves_refl]) (auto intro: s)
  have m3: "taker_moves p own t2 t3" for own by (rule moves_file [OF a])
  have m4: "taker_moves p ?own t t4"
    unfolding t4_def using moves_trans [OF m2 m3] by (auto intro!: moves_set intro: same_set split: read_answer.split)
  have c: "taker_moves p ?own t4 (take_containers p t4)" by (rule moves_mono) (use containers_facts [of p t4] in auto)
  show "taker_moves p ?own t (docker_up p v t)" unfolding e by (rule moves_trans [OF m4 c])
  have "same FactDocker (tk_f t2) (tk_f t3)" using m3 [of "{}"] unfolding taker_moves_def by blast
  then have d: "dk_State (fa_Docker (tk_f t4)) = DockerUp" "dk_Version (fa_Docker (tk_f t4)) = v"
    "dk_EngineID (fa_Docker (tk_f t)) = [] \<Longrightarrow> dk_EngineID (fa_Docker (tk_f t4)) = [] \<or> engineIDPattern (dk_EngineID (fa_Docker (tk_f t4)))"
    by (auto simp: t2_def t4_def split: read_answer.split)
  show "said x (tk_f (docker_up p v t))" if "dk_EngineID (fa_Docker (tk_f t)) = []" "x \<in> ?own"
  proof (cases "x = FactDocker")
    case True
    have "valid_fact FactDocker (tk_f t4)" using d that(1) assms by simp
    then have "valid_fact FactDocker (tk_f (docker_up p v t))" using same_valid [of FactDocker "tk_f t4"] containers_facts [of p t4] e by metis
    then show ?thesis using True said_valid by blast
  next
    case False
    then show ?thesis using that(2) containers_facts [of p t4] by (simp add: e)
  qed
qed

lemma docker_is_facts:
  "taker_moves p {FactDocker, FactContainers} t (docker_is d t)"
  "dk_State (fa_Docker (tk_f (docker_is d t))) = d" "dk_Version (fa_Docker (tk_f (docker_is d t))) = dk_Version (fa_Docker (tk_f t))"
  "dk_EngineID (fa_Docker (tk_f (docker_is d t))) = dk_EngineID (fa_Docker (tk_f t))"
  "dk_Containers (fa_Docker (tk_f (docker_is d t))) = dk_Containers (fa_Docker (tk_f t))"
  by (auto simp: docker_is_def intro!: moves_set moves_refl intro: same_set)

lemma daemon_version_ok: "daemon_version p x = Some v \<Longrightarrow> validDaemonVersion v"
  by (auto simp: daemon_version_def split: list.splits if_splits)

lemma docker_asked_facts:
  "taker_moves p {FactDocker, FactContainers} t (docker_asked p t)"
  "dk_EngineID (fa_Docker (tk_f t)) = [] \<Longrightarrow> x \<in> {FactDocker, FactContainers} \<Longrightarrow> said x (tk_f (docker_asked p t))"
proof -
  let ?own = "{FactDocker, FactContainers}"
  obtain t1 a where a: "ask p [''docker'', ''info'', ''--format'', DaemonInfoFormat] t = (t1, a)" by fastforce
  have m: "taker_moves p own t t1" for own by (rule moves_ask [OF a])
  have "same FactDocker (tk_f t) (tk_f t1)" using m [of "{}"] unfolding taker_moves_def by blast
  then have i: "dk_EngineID (fa_Docker (tk_f t1)) = dk_EngineID (fa_Docker (tk_f t))" by simp
  let ?down = "miss [FactContainers] (docker_is DockerDown t1)"
  have "(\<exists>v. docker_asked p t = docker_up p v t1 \<and> validDaemonVersion v) \<or> docker_asked p t = ?down \<or> docker_asked p t = miss [FactDocker, FactContainers] t1"
  proof (cases a)
    case (Ran out)
    then show ?thesis using a daemon_version_ok [of p "ro_Text out"] by (cases "daemon_version p (ro_Text out)") (auto simp: docker_asked_def)
  qed (use a in \<open>simp_all add: docker_asked_def\<close>)
  then consider (up) v where "docker_asked p t = docker_up p v t1" "validDaemonVersion v"
    | (down) "docker_asked p t = ?down" | (missed) "docker_asked p t = miss [FactDocker, FactContainers] t1"
    by blast
  note kinds = this
  have when_down: "said x (tk_f ?down)" if "dk_EngineID (fa_Docker (tk_f t)) = []" "x \<in> ?own"
  proof (cases "x = FactDocker")
    case True
    have "valid_fact FactDocker (tk_f (docker_is DockerDown t1))" using that(1) i docker_is_facts(2-5) [of DockerDown t1] by simp
    then have "valid_fact FactDocker (tk_f ?down)" using same_valid [OF miss_fields(1)] by metis
    then show ?thesis using True said_valid by blast
  qed (use that(2) in \<open>simp add: said_def\<close>)
  show "taker_moves p ?own t (docker_asked p t)"
    using kinds
  proof cases
    case (up v)
    then show ?thesis using moves_trans [OF m docker_up_facts(1)] by simp
  next
    case down
    then show ?thesis using moves_miss [OF moves_trans [OF m docker_is_facts(1)]] by simp
  next
    case missed
    then show ?thesis using moves_miss [OF m] by simp
  qed
  show "said x (tk_f (docker_asked p t))" if "dk_EngineID (fa_Docker (tk_f t)) = []" "x \<in> ?own"
    using kinds
  proof cases
    case (up v)
    then show ?thesis using docker_up_facts(2) [OF up(2), of t1 x p] that i by simp
  next
    case down
    then show ?thesis using when_down that by simp
  next
    case missed
    then show ?thesis using that(2) by (auto simp: said_def)
  qed
qed

lemma docker_there_facts: "dockerThere p t = (t1, r) \<Longrightarrow> taker_moves p own t t1"
proof -
  assume d: "dockerThere p t = (t1, r)"
  obtain t2 a where a: "ask p [''docker'', ''--version''] t = (t2, a)" by fastforce
  obtain t3 late where l: "time_over p t2 = (t3, late)" by fastforce
  have "t1 = t2 \<or> t1 = t3" using d a l by (cases a; cases late) (simp_all add: dockerThere_def)
  then show ?thesis using moves_ask [OF a, of own] moves_look [OF l, of own] moves_trans by blast
qed

interpretation docker_question: taker_step p "take_docker_facts p" "{FactDocker, FactContainers}" for p
proof
  let ?own = "{FactDocker, FactContainers}"
  fix t
  obtain t1 s where s: "activeState p ''docker.service'' t = (t1, s)" by fastforce
  obtain t2 r where r: "dockerThere p t1 = (t2, r)" by fastforce
  have m: "taker_moves p own t t1" "taker_moves p own t t2" for own using active_moves [OF s] docker_there_facts [OF r] moves_trans by blast+
  have e: "take_docker_facts p t = (case s of None \<Rightarrow> miss [FactDocker, FactContainers] t1
      | Some x \<Rightarrow> if x \<in> {''inactive'', ''failed'', ''deactivating'', ''maintenance''}
          then (case r of None \<Rightarrow> miss [FactDocker, FactContainers] t2 | Some there \<Rightarrow> docker_is (if there then DockerStopped else DockerAbsent) t2)
          else docker_asked p t1)"
    using s r by (simp add: take_docker_facts_def split: option.split)
  have "taker_moves p ?own t (docker_asked p t1)" "taker_moves p ?own t (docker_is d t2)" for d
    using moves_trans [OF m(1) docker_asked_facts(1)] moves_trans [OF m(2) docker_is_facts(1)] .
  then show "taker_moves p ?own t (take_docker_facts p t)"
    unfolding e using m by (auto intro!: moves_miss split: option.split)
  show "said x (tk_f (take_docker_facts p t))" if f: "\<forall>x\<in>?own. fresh x (tk_f t)" "x \<in> ?own" for x
  proof -
    have "same FactDocker (tk_f t) (tk_f t1)" "same FactDocker (tk_f t) (tk_f t2)" "same FactContainers (tk_f t) (tk_f t2)"
      using m(1) [of "{}"] m(2) [of "{}"] unfolding taker_moves_def by blast+
    then have b: "dk_EngineID (fa_Docker (tk_f t1)) = []" "dk_EngineID (fa_Docker (tk_f t2)) = []" "dk_Containers (fa_Docker (tk_f t2)) = []"
      using f(1) by (auto simp: fresh_def no_facts_def)
    have "said x (tk_f (docker_is d t2))" if "d \<in> {DockerStopped, DockerAbsent}" for d
      using that f(2) b docker_is_facts(2-5) [of d t2] by (intro said_valid) auto
    moreover have "said x (tk_f (miss [FactDocker, FactContainers] u))" for u using f(2) by (auto simp: said_def)
    moreover have "said x (tk_f (docker_asked p t1))" by (rule docker_asked_facts(2) [OF b(1) f(2)])
    ultimately show ?thesis unfolding e by (simp split: option.split)
  qed
  show "fact_word x \<in> set (fa_Unknown (tk_f (take_docker_facts p t)))" if "\<forall>n. pb_Over p n" "x \<in> ?own" for x
    using active_over [OF that(1) s] that(2) by (auto simp: e)
qed

subsection \<open>Sources\<close>

lemma read_sources_moves: "read_sources p fs ns ps t = (t1, r) \<Longrightarrow> taker_moves p own t t1"
proof (induction p fs ns ps t arbitrary: t1 r rule: read_sources.induct)
  case (2 p files name names paused t)
  obtain t2 a where a: "take_file p (lookup_or [] files name) t = (t2, a)" by fastforce
  have m: "taker_moves p own t t2" by (rule moves_file [OF a])
  show ?case
  proof (cases a)
    case (ReadText x)
    then show ?thesis using 2 a m moves_trans by fastforce
  next
    case ReadNotExist
    then show ?thesis using 2 a m moves_trans by fastforce
  next
    case ReadFailed
    then show ?thesis using 2(3) a m by simp
  qed
qed (simp add: moves_refl)

interpretation sources_question: taker_step p "take_sources p" "{FactSources}" for p
proof
  fix t
  obtain t1 d where d: "take_dir p sourcesDir t = (t1, d)" by fastforce
  obtain paused files where f: "foldl sort_source ([], [(''sources.list'', ''/etc/apt/sources.list'')]) (case d of DirEntries es \<Rightarrow> es | _ \<Rightarrow> []) = (paused, files)" by fastforce
  obtain t2 r where r: "read_sources p files (pb_Order p (map fst files)) paused t1 = (t2, r)" by fastforce
  have m: "taker_moves p own t t1" "taker_moves p own t t2" for own using moves_dir [OF d] read_sources_moves [OF r] moves_trans by blast+
  have e: "take_sources p t = (if d = DirFailed then miss [FactSources] t1 else (case r of None \<Rightarrow> miss [FactSources] t2
      | Some all \<Rightarrow> t2\<lparr>tk_f := (tk_f t2)\<lparr>fa_Paused := take maxPaused (sort all)\<rparr>\<rparr>))"
    using d f r by (cases d) (simp_all add: take_sources_def)
  show "taker_moves p {FactSources} t (take_sources p t)"
    unfolding e using m by (auto intro!: moves_miss moves_set intro: same_set split: option.split)
  show "said x (tk_f (take_sources p t))" if "x \<in> {FactSources}" for x
    using that by (auto simp: e said_def sorted_wrt_take split: option.split)
  show "fact_word x \<in> set (fa_Unknown (tk_f (take_sources p t)))" if "\<forall>n. pb_Over p n" "x \<in> {FactSources}" for x
    using dir_over [OF that(1) d] that(2) by (simp add: e)
qed

subsection \<open>All of the facts\<close>

definition questions :: "probe \<Rightarrow> ((taker \<Rightarrow> taker) \<times> fact set) list" where
  "questions p =
     [(take_kernel p, {FactKernel}), (take_system p, {FactSystem}), (take_dpkg p, {FactDpkg}), (take_samba p, {FactSamba}), (take_mounts p, {FactMounts}),
      (take_route p, {FactRoute}), (take_dns p, {FactDNS}), (take_units p, {FactUnits}), (take_docker_facts p, {FactDocker, FactContainers}),
      (take_sources p, {FactSources}), (take_listening p, {FactListening}), (take_failedUnits p, {FactFailed})]"

lemma all_questions:
  "\<forall>q\<in>set (questions p). taker_step p (fst q) (snd q)" "apart_questions (questions p)" "x \<in> owned (questions p)"
  "taken p = fold fst (questions p) \<lparr>tk_f = no_facts, tk_hung = [], tk_looks = 0, tk_ran = []\<rparr>"
proof -
  show "\<forall>q\<in>set (questions p). taker_step p (fst q) (snd q)"
    by (simp add: questions_def kernel_question.taker_step_axioms system_question.taker_step_axioms dpkg_question.taker_step_axioms
        samba_question.taker_step_axioms mounts_question.taker_step_axioms route_question.taker_step_axioms dns_question.taker_step_axioms
        units_question.taker_step_axioms docker_question.taker_step_axioms sources_question.taker_step_axioms listening_question.taker_step_axioms
        failed_question.taker_step_axioms)
  show "x \<in> owned (questions p)" by (cases x) (simp_all add: questions_def)
qed (simp_all add: questions_def taken_def take_steps_def)

lemma taken_moves: "taker_moves p UNIV \<lparr>tk_f = no_facts, tk_hung = [], tk_looks = 0, tk_ran = []\<rparr> (taken p)"
  unfolding all_questions(4) by (rule moves_mono [OF questions_move [OF all_questions(1)]]) simp

lemma taken_flag: "fa_Taken (TakeWith p)"
  using taken_moves [of p] by (simp add: taker_moves_def TakeWith_def no_facts_def)

lemma unasked_unknown: "\<forall>n. pb_Over p n \<Longrightarrow> fact_word x \<in> set (fa_Unknown (TakeWith p))"
  using questions_say(2) [OF all_questions(1-3)] unfolding TakeWith_def all_questions(4) by blast

definition example_probe :: "(nat \<Rightarrow> bool) \<Rightarrow> probe" where
  "example_probe over =
     \<lparr>pb_Over = over, pb_Run = (\<lambda>argv. if argv = [''uname'', ''-r''] then (Ran \<lparr>ro_ExitCode = 0, ro_Text = ''6.1.0-28'' @ [CHR 0x0A], ro_Truncated = False\<rparr>, False) else (ErrToolMissing, False)),
      pb_ReadFile = (\<lambda>_. ReadNotExist), pb_ReadDir = (\<lambda>_. DirNotExist), pb_Stat = (\<lambda>_. StatNotExist), pb_Resolve = (\<lambda>_. True), pb_Order = (\<lambda>xs. xs),
      pb_Inspected = (\<lambda>_. None), pb_DaemonInfo = (\<lambda>_. None)\<rparr>"

text \<open>
  (C19) What is known of a machine is of its form, whatever the machine printed: a kernel and a state of the system that are words of theirs, at most 2000 mount points that
  can be shown, pools that are among the mounts of mergerfs with at most 256 branches each, units of CasaOS with a state of systemd's, containers with valid names, at most 5000 addresses,
  2000 failed units and 200 paused sources, each list sorted.
\<close>

theorem known_facts_are_valid:
  assumes "fair_order p"
  shows "fa_Taken (TakeWith p) \<and> (Knows (TakeWith p) x \<longrightarrow> valid_fact x (TakeWith p))"
proof -
  have "said x (TakeWith p)"
    using questions_say(1) [OF all_questions(1-3) assms] unfolding TakeWith_def all_questions(4) by (simp add: fresh_def)
  then show ?thesis using taken_flag [of p] by (auto simp: said_def Knows_def)
qed

theorem known_facts_are_valid_witness:
  "Knows (TakeWith (example_probe (\<lambda>_. False))) FactKernel \<and> kernelPattern (fa_Kernel (TakeWith (example_probe (\<lambda>_. False))))"
proof -
  have "fair_order (example_probe (\<lambda>_. False))" by (simp add: fair_order_def example_probe_def)
  moreover have "Knows (TakeWith (example_probe (\<lambda>_. False))) FactKernel" by code_simp
  ultimately show ?thesis using known_facts_are_valid [of "example_probe (\<lambda>_. False)" FactKernel] by simp
qed

text \<open>
  (C17) What could not be asked is not known: when there is no time for any question, no command is run and every fact is unknown, so that the machine is not taken for one that is well.
\<close>

theorem nothing_asked_nothing_known:
  assumes "\<forall>n. pb_Over p n"
  shows "\<not> Knows (TakeWith p) x \<and> tk_ran (taken p) = []"
  using unasked_unknown [OF assms, of x] taken_moves [of p] assms by (simp add: Knows_def taker_moves_def)

theorem nothing_asked_nothing_known_witness: "\<not> Knows (TakeWith (example_probe (\<lambda>_. True))) FactSystem"
  using nothing_asked_nothing_known [of "example_probe (\<lambda>_. True)" FactSystem] by (simp add: example_probe_def)

text \<open>
  (C18) Only commands of the allow-list are run, and a tool that did not answer in its time is not asked again.
\<close>

theorem hung_tool_asked_once:
  assumes "clock_ok p"
  shows "list_all Allowed (tk_ran (taken p)) \<and> sorted_wrt (\<lambda>a b. hangs p a \<longrightarrow> hd b \<noteq> hd a) (tk_ran (taken p))"
  using taken_moves [of p] assms by (simp add: taker_moves_def run_inv_def)

theorem hung_tool_asked_once_witness:
  "list_all Allowed (tk_ran (taken (example_probe (\<lambda>n. 5 < n))))"
  using hung_tool_asked_once [of "example_probe (\<lambda>n. 5 < n)"] by (simp add: clock_ok_def example_probe_def)

subsection \<open>The allow-list fits the questions\<close>

lemma alnum_not_null: "alnum c \<Longrightarrow> c \<noteq> CHR 0x00"
  by (auto simp: alnum_def between_def)

lemma class_not_null: "of_class lo hi extra s \<Longrightarrow> CHR 0x00 \<notin> set extra \<Longrightarrow> CHR 0x00 \<notin> set s"
  using alnum_not_null by (auto simp: of_class_def list_all_iff)

lemma suffix_parts: "HasSuffix r x \<Longrightarrow> r = take (length r - length x) r @ x"
  by (metis HasSuffix_def append_take_drop_id)

lemma unit_parts:
  assumes "casaosUnit u"
  obtains m x where "u = ''casaos'' @ m @ x" "of_class 0 100 ''@._:-'' m" "x \<in> {''.service'', ''.socket'', ''.timer'', ''.path''}"
proof -
  obtain r x where "cut_prefix ''casaos'' u = Some r" "HasSuffix r x" "of_class 0 100 ''@._:-'' (take (length r - length x) r)"
    "x \<in> {''.service'', ''.socket'', ''.timer'', ''.path''}"
    using assms by (auto simp: casaosUnit_def split: option.splits)
  then show ?thesis using that [of "take (length r - length x) r" x] suffix_parts [of r x] by (simp add: cut_prefix_Some_iff)
qed

text \<open>The questions are made of what the machine prints, and the allow-list lets every one of them through.\<close>

lemma unit_allowed: "casaosUnit u \<Longrightarrow> Allowed [''systemctl'', ''show'', u, ''--property=ActiveState'', ''--value'']"
proof (erule unit_parts)
  fix m x
  assume u: "u = ''casaos'' @ m @ x" "of_class 0 100 ''@._:-'' m" "x \<in> {''.service'', ''.socket'', ''.timer'', ''.path''}"
  have x: "length x \<le> 8" "list_all (\<lambda>c. alnum c \<or> c \<in> set ''@._:-'') x" "CHR 0x00 \<notin> set x" using u(3) by (auto simp: alnum_def between_def)
  have "unitArg u" using u(1,2) x by (auto simp: unitArg_def name_of_def of_class_def alnum_def between_def)
  moreover have "CHR 0x00 \<notin> set u" using u(1) x(3) class_not_null [OF u(2)] by simp
  moreover have "propertyOf ''--property=ActiveState''" by code_simp
  ultimately show ?thesis by (simp add: Allowed_def allowed_rule_def systemctl_rule_def)
qed

lemma inspect_allowed:
  assumes "ids \<noteq> []" "length ids \<le> maxInspect" "list_all containerIDArg ids"
  shows "Allowed ([''docker'', ''inspect'', ''--format'', ContainerInspectFormat] @ ids)"
proof -
  have "CHR 0x00 \<notin> set i" if "i \<in> set ids" for i
  proof -
    have "\<not> lower_hex (CHR 0x00)" by (simp add: lower_hex_def)
    then show ?thesis using assms(3) that unfolding list_all_iff containerIDArg_def by blast
  qed
  moreover have "CHR 0x00 \<notin> set ContainerInspectFormat" by code_simp
  moreover have "Suc 0 \<le> length ids" using assms(1) by (cases ids) simp_all
  ultimately show ?thesis
    using assms by (simp add: Allowed_def allowed_rule_def docker_rule_def list_all_iff maxInspect_def maxInspected_def)
qed

subsection \<open>Mount points\<close>

text \<open>What the kernel makes of a path in the mount table: blanks, tabs, ends of line and backslashes in octal.\<close>

definition escaped :: "char \<Rightarrow> string" where
  "escaped c =
     (if c = CHR 0x20 then ''040'' else if c = CHR 0x09 then ''011'' else if c = CHR 0x0A then ''012'' else if c = CHR 0x5C then ''134'' else [])"

definition escapeMount :: "string \<Rightarrow> string" where
  "escapeMount s = concat (map (\<lambda>c. if escaped c = [] then [c] else CHR 0x5C # escaped c) s)"

lemma unescape_plain: "c \<noteq> CHR 0x5C \<Longrightarrow> unescapeMount (c # s) = c # unescapeMount s"
  by (cases s rule: four_bytes) simp_all

lemma escaped_bytes:
  "map_option char_of (octal_byte (CHR ''0'') (CHR ''4'') (CHR ''0'')) = Some (CHR 0x20)"
  "map_option char_of (octal_byte (CHR ''0'') (CHR ''1'') (CHR ''1'')) = Some (CHR 0x09)"
  "map_option char_of (octal_byte (CHR ''0'') (CHR ''1'') (CHR ''2'')) = Some (CHR 0x0A)"
  "map_option char_of (octal_byte (CHR ''1'') (CHR ''3'') (CHR ''4'')) = Some (CHR 0x5C)"
  by (simp_all add: octal_byte_def octal_def less_eq_char_def char_of_def bit_0)

lemma unescape_escaped: "escaped c \<noteq> [] \<Longrightarrow> unescapeMount (CHR 0x5C # escaped c @ s) = c # unescapeMount s"
  using escaped_bytes by (auto simp: escaped_def split: if_splits)


subsection \<open>A file of sources that hides another\<close>

definition shadow_probe :: probe where
  "shadow_probe = (example_probe (\<lambda>_. False))\<lparr>pb_ReadDir := (\<lambda>_. DirEntries [''sources.list'']),
     pb_ReadFile := (\<lambda>path. if path = ''/etc/apt/sources.list'' then ReadText (pausedMark @ ''deb x'') else ReadText [])\<rparr>"

text \<open>The files are kept by their bare names: a file of the folder that is called as the main one takes its place, and what is paused in the main one is not told.\<close>

lemma main_sources_hidden:
  "fa_Paused (tk_f (take_sources shadow_probe \<lparr>tk_f = no_facts, tk_hung = [], tk_looks = 0, tk_ran = []\<rparr>)) = []"
  "fa_Paused (tk_f (take_sources (shadow_probe\<lparr>pb_ReadDir := (\<lambda>_. DirEntries [])\<rparr>) \<lparr>tk_f = no_facts, tk_hung = [], tk_looks = 0, tk_ran = []\<rparr>)) = [''sources.list:1'']"
  by code_simp+

end
