(* ===== verification/Version.thy ===== *)
theory Version
  imports Prelude
begin

section \<open>The comparison of versions\<close>

text \<open>
  Models the comparison of versions of \<open>pkg/osmodule/plan_update.go\<close> (\<open>CompareVersions\<close>, \<open>compareDigits\<close>, \<open>comparePre\<close>,
  \<open>compareIdentifier\<close>, \<open>CompareTags\<close>) and \<open>pkg/utils/version/version.go\<close> (\<open>IsVersionNewer\<close>, \<open>currentVersionFromFile\<close>). A
  comparison answers -1, 0 or 1; the interface \<open>comparison\<close> says what a caller that sorts or picks the latest relies on,
  and each comparison of the code is an instance of it.
\<close>

subsection \<open>Comparisons\<close>

text \<open>\<open>cmp.Compare\<close> of two integers.\<close>

definition cmp_int :: "int \<Rightarrow> int \<Rightarrow> int" where
  "cmp_int x y = (if x < y then -1 else if x > y then 1 else 0)"

fun lex_cmp :: "('a \<Rightarrow> 'a \<Rightarrow> int) \<Rightarrow> 'a list \<Rightarrow> 'a list \<Rightarrow> int" where
  "lex_cmp c [] [] = 0"
| "lex_cmp c [] (y # ys) = -1"
| "lex_cmp c (x # xs) [] = 1"
| "lex_cmp c (x # xs) (y # ys) = (if c x y \<noteq> 0 then c x y else lex_cmp c xs ys)"

locale comparison =
  fixes cmp :: "'a \<Rightarrow> 'a \<Rightarrow> int"
  assumes cmp_sign: "cmp x y \<in> {-1, 0, 1}"
    and cmp_swap: "cmp y x = - cmp x y"
    and cmp_trans: "cmp x y \<le> 0 \<Longrightarrow> cmp y z \<le> 0 \<Longrightarrow> cmp x z \<le> 0"
begin

lemma cmp_refl [simp]: "cmp x x = 0"
  using cmp_swap [of x x] by simp

lemma cmp_ge_trans: "cmp x y \<ge> 0 \<Longrightarrow> cmp y z \<ge> 0 \<Longrightarrow> cmp x z \<ge> 0"
  using cmp_trans [of z y x] cmp_swap [of x z] cmp_swap [of x y] cmp_swap [of y z] by simp

lemma cmp_eq_left: "cmp x y = 0 \<Longrightarrow> cmp x z = cmp y z"
proof -
  assume eq: "cmp x y = 0"
  then have eq': "cmp y x = 0" using cmp_swap [of x y] by simp
  have "cmp x z \<le> 0 \<longleftrightarrow> cmp y z \<le> 0" using cmp_trans [of x y z] cmp_trans [of y x z] eq eq' by auto
  moreover have "cmp x z \<ge> 0 \<longleftrightarrow> cmp y z \<ge> 0" using cmp_ge_trans [of x y z] cmp_ge_trans [of y x z] eq eq' by auto
  ultimately show ?thesis using cmp_sign [of x z] cmp_sign [of y z] by auto
qed

lemma cmp_eq_right: "cmp x y = 0 \<Longrightarrow> cmp z x = cmp z y"
  using cmp_eq_left [of x y z] cmp_swap [of x z] cmp_swap [of y z] by simp

lemma cmp_less_trans: "cmp x y < 0 \<Longrightarrow> cmp y z \<le> 0 \<Longrightarrow> cmp x z < 0"
  using cmp_trans [of x y z] cmp_eq_left [of x z y] cmp_swap [of z y] cmp_sign [of x z] by auto

lemma cmp_gt_trans: "cmp x y > 0 \<Longrightarrow> cmp y z \<ge> 0 \<Longrightarrow> cmp x z > 0"
  using cmp_ge_trans [of x y z] cmp_eq_left [of x z y] cmp_swap [of z y] cmp_sign [of x z] by auto

lemma lex_sign: "lex_cmp cmp xs ys \<in> {-1, 0, 1}"
  using cmp_sign by (induction cmp xs ys rule: lex_cmp.induct) auto

lemma lex_swap: "lex_cmp cmp ys xs = - lex_cmp cmp xs ys"
proof (induction xs arbitrary: ys)
  case Nil
  show ?case by (cases ys) auto
next
  case (Cons x xs)
  then show ?case using cmp_swap [of x] by (cases ys) auto
qed

lemma lex_trans: "lex_cmp cmp xs ys \<le> 0 \<Longrightarrow> lex_cmp cmp ys zs \<le> 0 \<Longrightarrow> lex_cmp cmp xs zs \<le> 0"
proof (induction xs arbitrary: ys zs)
  case Nil
  then show ?case by (cases zs) auto
next
  case (Cons x xs)
  then obtain y ys' where ys: "ys = y # ys'" by (cases ys) auto
  then obtain z zs' where zs: "zs = z # zs'" using Cons.prems by (cases zs) auto
  show ?case
  proof (cases "cmp x y = 0 \<and> cmp y z = 0")
    case True
    then have "cmp x z = 0" using cmp_eq_left by metis
    then show ?thesis using Cons True ys zs by auto
  next
    case False
    have le: "cmp x y \<le> 0" "cmp y z \<le> 0" using Cons.prems ys zs by (auto split: if_splits)
    have "cmp x z < 0"
      using False le cmp_less_trans [of x y z] cmp_eq_left [of x y z] by (cases "cmp x y = 0") auto
    then show ?thesis using zs by auto
  qed
qed

text \<open>A comparison of lists item by item is a comparison, and so is a comparison of what is worked out of the items.\<close>

lemma lex_comparison: "comparison (lex_cmp cmp)"
  by (rule comparison.intro, rule lex_sign, rule lex_swap, erule (1) lex_trans)

lemma key_comparison: "comparison (\<lambda>x y. cmp (f x) (f y))"
  by (rule comparison.intro, rule cmp_sign, rule cmp_swap, erule (1) cmp_trans)

end

text \<open>\<open>cmp.Or\<close>: the second comparison decides what the first leaves equal.\<close>

definition then_cmp :: "('a \<Rightarrow> 'a \<Rightarrow> int) \<Rightarrow> ('a \<Rightarrow> 'a \<Rightarrow> int) \<Rightarrow> 'a \<Rightarrow> 'a \<Rightarrow> int" where
  "then_cmp c d x y = (if c x y \<noteq> 0 then c x y else d x y)"

lemma then_comparison:
  assumes "comparison c" "comparison d"
  shows "comparison (then_cmp c d)"
proof (rule comparison.intro)
  fix x y z
  show "then_cmp c d x y \<in> {-1, 0, 1}"
    using comparison.cmp_sign [OF assms(1), of x y] comparison.cmp_sign [OF assms(2), of x y] by (auto simp: then_cmp_def)
  show "then_cmp c d y x = - then_cmp c d x y"
    using comparison.cmp_swap [OF assms(1), of x y] comparison.cmp_swap [OF assms(2), of x y] by (simp add: then_cmp_def)
  assume le: "then_cmp c d x y \<le> 0" "then_cmp c d y z \<le> 0"
  then have first: "c x y \<le> 0" "c y z \<le> 0" by (auto simp: then_cmp_def split: if_splits)
  show "then_cmp c d x z \<le> 0"
  proof (cases "c x y = 0 \<and> c y z = 0")
    case True
    then have "c x z = 0" using comparison.cmp_eq_left [OF assms(1), of x y z] by simp
    then show ?thesis using le True comparison.cmp_trans [OF assms(2)] by (auto simp: then_cmp_def)
  next
    case False
    then have "c x z < 0"
      using first comparison.cmp_less_trans [OF assms(1), of x y z] comparison.cmp_eq_left [OF assms(1), of x y z]
      by (cases "c x y = 0") auto
    then show ?thesis by (simp add: then_cmp_def)
  qed
qed

interpretation int_cmp: comparison cmp_int
  by unfold_locales (auto simp: cmp_int_def split: if_splits)

text \<open>\<open>strings.Compare\<close>: byte by byte.\<close>

definition char_cmp :: "char \<Rightarrow> char \<Rightarrow> int" where
  "char_cmp x y = cmp_int (int (of_char x)) (int (of_char y))"

definition str_cmp :: "string \<Rightarrow> string \<Rightarrow> int" where
  "str_cmp = lex_cmp char_cmp"

interpretation char_cmp: comparison char_cmp
  unfolding char_cmp_def by (rule int_cmp.key_comparison)

interpretation str_cmp: comparison str_cmp
  unfolding str_cmp_def by (rule char_cmp.lex_comparison)

lemma str_cmp_eq: "str_cmp x y = 0 \<longleftrightarrow> x = y"
proof -
  have "char_cmp a b = 0 \<longleftrightarrow> a = b" for a b
    by (auto simp: char_cmp_def cmp_int_def)
  then show ?thesis
    unfolding str_cmp_def by (induction char_cmp x y rule: lex_cmp.induct) auto
qed

subsection \<open>Runs of digits\<close>

text \<open>\<open>strings.TrimLeft(x, "0")\<close>\<close>

definition trim_zeros :: "string \<Rightarrow> string" where
  "trim_zeros x = dropWhile (\<lambda>c. c = CHR ''0'') x"

definition compareDigits :: "string \<Rightarrow> string \<Rightarrow> int" where
  "compareDigits x y =
     (let x' = trim_zeros x; y' = trim_zeros y; c = cmp_int (int (length x')) (int (length y'))
      in if c \<noteq> 0 then c else str_cmp x' y')"

interpretation digits_cmp: comparison compareDigits
proof -
  have len: "comparison (\<lambda>x y. cmp_int (int (length (trim_zeros x))) (int (length (trim_zeros y))))"
    by (rule int_cmp.key_comparison)
  have bytes: "comparison (\<lambda>x y. str_cmp (trim_zeros x) (trim_zeros y))"
    by (rule str_cmp.key_comparison)
  have "compareDigits = then_cmp (\<lambda>x y. cmp_int (int (length (trim_zeros x))) (int (length (trim_zeros y))))
      (\<lambda>x y. str_cmp (trim_zeros x) (trim_zeros y))"
    by (intro ext) (simp add: compareDigits_def then_cmp_def Let_def)
  then show "comparison compareDigits" using then_comparison [OF len bytes] by simp
qed

lemma digits_val_shift: "digits_val n xs = n * 10 ^ length xs + digits_val 0 xs"
proof (induction xs arbitrary: n)
  case (Cons x xs)
  show ?case using Cons [of "n * 10 + digit_val x"] Cons [of "digit_val x"]
    by (simp add: algebra_simps)
qed (simp add: digits_val_def)

lemma digits_val_bound:
  "\<forall>c\<in>set xs. is_digit c \<Longrightarrow> 0 \<le> digits_val 0 xs \<and> digits_val 0 xs < 10 ^ length xs"
proof (induction xs)
  case (Cons x xs)
  define p :: int where "p = 10 ^ length xs"
  have x: "0 \<le> digit_val x" "digit_val x \<le> 9" using Cons.prems digit_val_range [of x] by auto
  have xs: "0 \<le> digits_val 0 xs" "digits_val 0 xs < p" using Cons by (auto simp: p_def)
  have "0 \<le> p" by (simp add: p_def)
  then have "0 \<le> digit_val x * p" "digit_val x * p \<le> 9 * p" using x by (auto intro: mult_right_mono)
  moreover have "digits_val 0 (x # xs) = digit_val x * p + digits_val 0 xs"
    using digits_val_shift [of "digit_val x" xs] by (simp add: p_def)
  moreover have "(10 :: int) ^ length (x # xs) = 10 * p" by (simp add: p_def)
  ultimately show ?case using xs by linarith
qed (simp add: digits_val_def)

lemma trim_zeros_val: "digits_val 0 (trim_zeros xs) = digits_val 0 xs"
  by (induction xs) (auto simp: trim_zeros_def digit_val_def)

lemma trim_zeros_digits: "\<forall>c\<in>set xs. is_digit c \<Longrightarrow> \<forall>c\<in>set (trim_zeros xs). is_digit c"
  by (auto simp: trim_zeros_def dest: set_dropWhileD)

lemma trim_zeros_large:
  assumes "\<forall>c\<in>set xs. is_digit c" "trim_zeros xs \<noteq> []"
  shows "10 ^ (length (trim_zeros xs) - 1) \<le> digits_val 0 (trim_zeros xs)"
proof -
  obtain y ys where y: "trim_zeros xs = y # ys" using assms(2) by (cases "trim_zeros xs") auto
  have d: "is_digit y" "\<forall>c\<in>set ys. is_digit c" using trim_zeros_digits [OF assms(1)] y by auto
  have "y \<noteq> CHR ''0''" using y hd_dropWhile [of "\<lambda>c. c = CHR ''0''" xs] by (auto simp: trim_zeros_def)
  then have "1 \<le> digit_val y"
    using d(1) digit_val_range [of y] digit_char_digit_val [of y] by (cases "digit_val y = 0") (auto simp: digit_char_def char_of_def)
  then have "10 ^ length ys \<le> digit_val y * 10 ^ length ys" by simp
  then have "10 ^ length ys \<le> digit_val y * 10 ^ length ys + digits_val 0 ys"
    using digits_val_bound [OF d(2)] by linarith
  then show ?thesis
    unfolding y by (simp add: digits_val_shift [of "digit_val y"])
qed

lemma str_cmp_digits:
  assumes "length x = length y" "\<forall>c\<in>set x. is_digit c" "\<forall>c\<in>set y. is_digit c"
  shows "str_cmp x y = cmp_int (digits_val 0 x) (digits_val 0 y)"
  using assms
proof (induction x y rule: list_induct2)
  case (Cons a x b y)
  have bounds: "0 \<le> digits_val 0 x" "digits_val 0 x < 10 ^ length x" "0 \<le> digits_val 0 y" "digits_val 0 y < 10 ^ length x"
    using Cons digits_val_bound [of x] digits_val_bound [of y] by auto
  have scale: "digit_val a < digit_val b \<Longrightarrow> digit_val a * 10 ^ length x + 10 ^ length x \<le> digit_val b * 10 ^ length x" for a b
  proof -
    assume "digit_val a < digit_val b"
    then have "(digit_val a + 1) * 10 ^ length x \<le> digit_val b * 10 ^ length x" by (intro mult_right_mono) auto
    then show ?thesis by (simp add: algebra_simps)
  qed
  have chars: "(of_char a :: nat) < of_char b \<longleftrightarrow> digit_val a < digit_val b"
    "(of_char b :: nat) < of_char a \<longleftrightarrow> digit_val b < digit_val a"
    "a = b \<longleftrightarrow> digit_val a = digit_val b"
    unfolding digit_val_def by auto
  have step: "str_cmp (a # x) (b # y) = (if digit_val a < digit_val b then -1 else if digit_val a > digit_val b then 1
      else lex_cmp char_cmp x y)"
    using chars by (auto simp: str_cmp_def char_cmp_def cmp_int_def)
  have vals: "digits_val 0 (a # x) = digit_val a * 10 ^ length x + digits_val 0 x"
    "digits_val 0 (b # y) = digit_val b * 10 ^ length x + digits_val 0 y"
    using Cons.hyps by (simp_all add: digits_val_shift [of "digit_val a"] digits_val_shift [of "digit_val b"])
  have ih: "lex_cmp char_cmp x y = cmp_int (digits_val 0 x) (digits_val 0 y)"
    using Cons by (simp add: str_cmp_def)
  consider "digit_val a < digit_val b" | "digit_val a = digit_val b" | "digit_val a > digit_val b" by linarith
  then show ?case
  proof cases
    case 1
    then show ?thesis using scale [OF 1] bounds unfolding step vals by (simp add: cmp_int_def)
  next
    case 2
    then show ?thesis using ih unfolding step vals by (simp add: cmp_int_def)
  next
    case 3
    then show ?thesis using scale [OF 3] bounds unfolding step vals by (simp add: cmp_int_def)
  qed
qed (simp add: str_cmp_def cmp_int_def)

text \<open>
  Two runs of digits compare as the numbers they write, whatever their lengths and leading zeros: there is no bound on
  the number of digits, and so no overflow.
\<close>

theorem compareDigits_numeric:
  assumes "\<forall>c\<in>set x. is_digit c" "\<forall>c\<in>set y. is_digit c"
  shows "compareDigits x y = cmp_int (digits_val 0 x) (digits_val 0 y)"
proof -
  let ?x = "trim_zeros x" and ?y = "trim_zeros y"
  note d = trim_zeros_digits [OF assms(1)] trim_zeros_digits [OF assms(2)]
  have less: "digits_val 0 (trim_zeros u) < digits_val 0 (trim_zeros w)"
    if "\<forall>c\<in>set u. is_digit c" "\<forall>c\<in>set w. is_digit c" "length (trim_zeros u) < length (trim_zeros w)" for u w
  proof -
    have "digits_val 0 (trim_zeros u) < 10 ^ length (trim_zeros u)" using digits_val_bound trim_zeros_digits that(1) by blast
    also have "(10 :: int) ^ length (trim_zeros u) \<le> 10 ^ (length (trim_zeros w) - 1)" using that(3) by (intro power_increasing) auto
    also have "\<dots> \<le> digits_val 0 (trim_zeros w)" using that(3) by (intro trim_zeros_large [OF that(2)]) auto
    finally show ?thesis .
  qed
  consider "length ?x < length ?y" | "length ?x = length ?y" | "length ?y < length ?x" by linarith
  then have "compareDigits x y = cmp_int (digits_val 0 ?x) (digits_val 0 ?y)"
  proof cases
    case 1
    then show ?thesis using less [OF assms] by (simp add: compareDigits_def cmp_int_def Let_def)
  next
    case 2
    then show ?thesis using str_cmp_digits [OF 2 d] by (simp add: compareDigits_def cmp_int_def Let_def)
  next
    case 3
    then show ?thesis using less [OF assms(2,1)] by (simp add: compareDigits_def cmp_int_def Let_def)
  qed
  then show ?thesis by (simp add: trim_zeros_val)
qed

theorem compareDigits_numeric_witness: "compareDigits ''0012'' ''9'' = cmp_int (digits_val 0 ''0012'') (digits_val 0 ''9'')"
  by (rule compareDigits_numeric) (simp_all add: less_eq_char_def)

subsection \<open>Identifiers and pre-releases\<close>

text \<open>The run that a text begins with: digits, or characters that are not.\<close>

fun run :: "string \<Rightarrow> string" where
  "run [] = []"
| "run (x # xs) = x # takeWhile (\<lambda>c. is_digit c = is_digit x) xs"

lemma run_shorter: "a \<noteq> [] \<Longrightarrow> length a - length (run a) < length a"
  by (cases a) auto

definition run_cmp :: "string \<Rightarrow> string \<Rightarrow> int" where
  "run_cmp ra rb =
     (let da = is_digit (hd ra); db = is_digit (hd rb)
      in if da \<and> db then compareDigits ra rb else if da then -1 else if db then 1 else str_cmp ra rb)"

function compareIdentifier :: "string \<Rightarrow> string \<Rightarrow> int" where
  "compareIdentifier a b =
     (if a = [] \<or> b = [] then cmp_int (int (length a)) (int (length b))
      else (let ra = run a; rb = run b; c = run_cmp ra rb
            in if c \<noteq> 0 then c else compareIdentifier (drop (length ra) a) (drop (length rb) b)))"
  by pat_completeness auto

termination
  by (relation "measure (\<lambda>(a, b). length a)") (auto simp: run_shorter)

declare compareIdentifier.simps [simp del]

text \<open>The first answer that is not 0.\<close>

fun first_difference :: "int list \<Rightarrow> int option" where
  "first_difference [] = None"
| "first_difference (c # cs) = (if c \<noteq> 0 then Some c else first_difference cs)"

definition comparePre :: "string \<Rightarrow> string \<Rightarrow> int" where
  "comparePre a b =
     (let x = split_on CHR ''.'' a; y = split_on CHR ''.'' b
      in case first_difference (map (\<lambda>(p, q). compareIdentifier p q) (zip x y)) of
           Some c \<Rightarrow> c
         | None \<Rightarrow> cmp_int (int (length x)) (int (length y)))"

text \<open>The reference: an identifier is the list of its runs, and a pre-release the list of its identifiers.\<close>

function runs :: "string \<Rightarrow> string list" where
  "runs a = (if a = [] then [] else run a # runs (drop (length (run a)) a))"
  by pat_completeness auto

termination
  by (relation "measure length") (auto simp: run_shorter)

declare runs.simps [simp del]

interpretation run_cmp: comparison run_cmp
proof (rule comparison.intro)
  fix x y z
  show "run_cmp x y \<in> {-1, 0, 1}"
    using digits_cmp.cmp_sign [of x y] str_cmp.cmp_sign [of x y] by (simp add: run_cmp_def Let_def)
  show "run_cmp y x = - run_cmp x y"
    using digits_cmp.cmp_swap [of x y] str_cmp.cmp_swap [of x y] by (simp add: run_cmp_def Let_def)
  show "run_cmp x y \<le> 0 \<Longrightarrow> run_cmp y z \<le> 0 \<Longrightarrow> run_cmp x z \<le> 0"
    using digits_cmp.cmp_trans [of x y z] str_cmp.cmp_trans [of x y z]
    unfolding run_cmp_def Let_def by (cases "is_digit (hd x)"; cases "is_digit (hd y)"; cases "is_digit (hd z)"; simp only: simp_thms if_True if_False)
qed

lemma compareIdentifier_runs: "compareIdentifier a b = lex_cmp run_cmp (runs a) (runs b)"
proof (induction a b rule: compareIdentifier.induct)
  case (1 a b)
  show ?case
  proof (cases "a = [] \<or> b = []")
    case True
    then show ?thesis
      by (cases a; cases b) (simp_all add: compareIdentifier.simps runs.simps cmp_int_def)
  next
    case False
    then show ?thesis
      using 1 [OF False refl refl refl]
      by (simp add: compareIdentifier.simps [of a b] runs.simps [of a] runs.simps [of b] Let_def)
  qed
qed

interpretation ident_cmp: comparison compareIdentifier
proof -
  have "compareIdentifier = (\<lambda>a b. lex_cmp run_cmp (runs a) (runs b))"
    by (intro ext) (rule compareIdentifier_runs)
  then show "comparison compareIdentifier" using comparison.key_comparison [OF run_cmp.lex_comparison, of runs] by simp
qed

lemma first_difference_lex:
  "(case first_difference (map (\<lambda>(p, q). c p q) (zip x y)) of Some d \<Rightarrow> d | None \<Rightarrow> cmp_int (int (length x)) (int (length y)))
     = lex_cmp c x y"
  by (induction c x y rule: lex_cmp.induct) (auto simp: cmp_int_def split: option.splits)

text \<open>
  The loop over the identifiers and their runs compares two pre-releases as the lists of lists of their runs compare,
  word by word: runs of digits as numbers, other runs as text, digits before text, and a list before the
  longer ones that begin with it.
\<close>

theorem comparePre_reference:
  "comparePre a b =
     lex_cmp (\<lambda>p q. lex_cmp run_cmp (runs p) (runs q)) (split_on CHR ''.'' a) (split_on CHR ''.'' b)"
proof -
  have "compareIdentifier = (\<lambda>p q. lex_cmp run_cmp (runs p) (runs q))"
    by (intro ext) (rule compareIdentifier_runs)
  then show ?thesis unfolding comparePre_def Let_def first_difference_lex by simp
qed

interpretation pre_cmp: comparison comparePre
proof -
  have "comparePre = (\<lambda>a b. lex_cmp compareIdentifier (split_on CHR ''.'' a) (split_on CHR ''.'' b))"
    by (intro ext) (simp add: comparePre_def Let_def first_difference_lex)
  then show "comparison comparePre"
    using comparison.key_comparison [OF ident_cmp.lex_comparison, of "split_on CHR ''.''"] by simp
qed

subsection \<open>Versions\<close>

text \<open>The characters of a pre-release or of a build.\<close>

definition suffix_char :: "char \<Rightarrow> bool" where
  "suffix_char c \<longleftrightarrow>
     is_digit c \<or> CHR ''A'' \<le> c \<and> c \<le> CHR ''Z'' \<or> CHR ''a'' \<le> c \<and> c \<le> CHR ''z'' \<or> c \<in> {CHR ''.'', CHR ''+'', CHR ''-''}"

definition suffix_ok :: "string \<Rightarrow> bool" where
  "suffix_ok s \<longleftrightarrow> 1 \<le> length s \<and> length s \<le> 40 \<and> list_all suffix_char s"

text \<open>One number of a version and what follows it.\<close>

definition take_number :: "string \<Rightarrow> (string \<times> string) option" where
  "take_number s =
     (let d = takeWhile (\<lambda>c. is_digit c) s in if d = [] then None else Some (d, dropWhile (\<lambda>c. is_digit c) s))"

definition take_dot :: "string \<Rightarrow> string option" where
  "take_dot s = (case s of c # r \<Rightarrow> if c = CHR ''.'' then Some r else None | [] \<Rightarrow> None)"

text \<open>The groups of \<open>comparableRe\<close>: three numbers and the pre-release, empty when there is none.\<close>

definition comparable :: "string \<Rightarrow> (string \<times> string \<times> string \<times> string) option" where
  "comparable s =
     (let s0 = (case s of c # r \<Rightarrow> if c = CHR ''v'' then r else s | [] \<Rightarrow> s)
      in case take_number s0 of None \<Rightarrow> None | Some (n1, s1) \<Rightarrow>
         (case take_dot s1 of None \<Rightarrow> None | Some s2 \<Rightarrow>
         (case take_number s2 of None \<Rightarrow> None | Some (n2, s3) \<Rightarrow>
         (case take_dot s3 of None \<Rightarrow> None | Some s4 \<Rightarrow>
         (case take_number s4 of None \<Rightarrow> None | Some (n3, s5) \<Rightarrow>
         (case s5 of
            [] \<Rightarrow> Some (n1, n2, n3, [])
          | c # r \<Rightarrow>
              if c = CHR ''-'' \<and> suffix_ok r then Some (n1, n2, n3, r)
              else if c = CHR ''+'' \<and> suffix_ok r then Some (n1, n2, n3, [])
              else None))))))"

text \<open>\<open>strings.Cut(s, "+")\<close>: what is before the first plus sign.\<close>

definition before_plus :: "string \<Rightarrow> string" where
  "before_plus s = takeWhile (\<lambda>c. c \<noteq> CHR ''+'') s"

definition CompareVersions :: "string \<Rightarrow> string \<Rightarrow> int option" where
  "CompareVersions a b =
     (case (comparable a, comparable b) of
        (Some (a1, a2, a3, a4), Some (b1, b2, b3, b4)) \<Rightarrow>
          (case first_difference [compareDigits a1 b1, compareDigits a2 b2, compareDigits a3 b3] of
             Some c \<Rightarrow> Some c
           | None \<Rightarrow>
               (let pa = before_plus a4; pb = before_plus b4
                in if pa = pb then Some 0
                   else if pa = [] then Some 1
                   else if pb = [] then Some (-1)
                   else Some (comparePre pa pb)))
      | _ \<Rightarrow> None)"

definition IsVersionNewer :: "string \<Rightarrow> string \<Rightarrow> bool" where
  "IsVersionNewer latest current = (case CompareVersions latest current of Some c \<Rightarrow> c > 0 | None \<Rightarrow> False)"

definition tag_ok :: "string \<Rightarrow> bool" where
  "tag_ok s = (case s of
       c # r \<Rightarrow> c = CHR ''v'' \<and> (case comparable r of None \<Rightarrow> False | Some (n1, n2, n3, p) \<Rightarrow> r = n1 @ ''.'' @ n2 @ ''.'' @ n3)
     | [] \<Rightarrow> False)"

definition CompareTags :: "string \<Rightarrow> string \<Rightarrow> int option" where
  "CompareTags a b = (if \<not> tag_ok a \<or> \<not> tag_ok b then None else CompareVersions a b)"

text \<open>\<open>strings.TrimPrefix(s, "v")\<close> and the installed version, from the file of the installer or the built-in one.\<close>

definition trim_v :: "string \<Rightarrow> string" where
  "trim_v s = (case s of c # r \<Rightarrow> if c = CHR ''v'' then r else s | [] \<Rightarrow> [])"

definition currentVersionFromFile :: "string \<Rightarrow> string option \<Rightarrow> string" where
  "currentVersionFromFile fallback data =
     trim_v (case data of None \<Rightarrow> fallback | Some d \<Rightarrow> if trim_space d \<noteq> [] then trim_space d else fallback)"

subsection \<open>The order of versions\<close>

text \<open>What a version compares by, and the comparison of it.\<close>

type_synonym version_key = "string \<times> string \<times> string \<times> string"

definition release_cmp :: "string \<Rightarrow> string \<Rightarrow> int" where
  "release_cmp pa pb = (if pa = pb then 0 else if pa = [] then 1 else if pb = [] then -1 else comparePre pa pb)"

interpretation release_cmp: comparison release_cmp
proof (rule comparison.intro)
  fix x y z
  show "release_cmp x y \<in> {-1, 0, 1}" using pre_cmp.cmp_sign [of x y] by (simp add: release_cmp_def)
  show "release_cmp y x = - release_cmp x y" using pre_cmp.cmp_swap [of x y] by (simp add: release_cmp_def)
  show "release_cmp x y \<le> 0 \<Longrightarrow> release_cmp y z \<le> 0 \<Longrightarrow> release_cmp x z \<le> 0"
    using pre_cmp.cmp_trans [of x y z] by (auto simp: release_cmp_def split: if_splits)
qed

definition key_cmp :: "version_key \<Rightarrow> version_key \<Rightarrow> int" where
  "key_cmp = then_cmp (\<lambda>x y. compareDigits (fst x) (fst y))
     (then_cmp (\<lambda>x y. compareDigits (fst (snd x)) (fst (snd y)))
       (then_cmp (\<lambda>x y. compareDigits (fst (snd (snd x))) (fst (snd (snd y))))
         (\<lambda>x y. release_cmp (before_plus (snd (snd (snd x)))) (before_plus (snd (snd (snd y)))))))"

interpretation key_cmp: comparison key_cmp
  unfolding key_cmp_def
  by (intro then_comparison digits_cmp.key_comparison release_cmp.key_comparison)

lemma CompareVersions_key:
  "CompareVersions a b =
     (case (comparable a, comparable b) of (Some x, Some y) \<Rightarrow> Some (key_cmp x y) | _ \<Rightarrow> None)"
  by (auto simp: CompareVersions_def key_cmp_def then_cmp_def release_cmp_def Let_def split: option.splits)

lemma CompareVersions_Some:
  "CompareVersions a b = Some c \<longleftrightarrow> (\<exists>x y. comparable a = Some x \<and> comparable b = Some y \<and> c = key_cmp x y)"
  by (auto simp: CompareVersions_key split: option.splits)



text \<open>
  Being newer is a strict order on all strings: nothing is newer than itself, of two releases at most one is
  newer than the other, and a release that is newer than one that is newer than a third is newer than the third.
\<close>

theorem IsVersionNewer_strict:
  "\<not> IsVersionNewer a a \<and> \<not> (IsVersionNewer a b \<and> IsVersionNewer b a) \<and>
   (IsVersionNewer a b \<longrightarrow> IsVersionNewer b d \<longrightarrow> IsVersionNewer a d)"
proof -
  have newer: "IsVersionNewer u w \<longleftrightarrow> (\<exists>x y. comparable u = Some x \<and> comparable w = Some y \<and> key_cmp x y > 0)" for u w
    by (auto simp: IsVersionNewer_def CompareVersions_key split: option.splits)
  have once: "\<not> IsVersionNewer u u" for u
    unfolding newer by (metis key_cmp.cmp_refl less_irrefl option.inject)
  have chain: "IsVersionNewer u x" if "IsVersionNewer u w" "IsVersionNewer w x" for u w x
    using that unfolding newer by (metis key_cmp.cmp_gt_trans option.inject order_less_imp_le)
  show ?thesis using once chain by blast
qed

theorem IsVersionNewer_strict_witness: "IsVersionNewer ''0.5.30'' ''0.5.29''"
proof -
  have "IsVersionNewer ''0.5.30'' ''0.5.29-rc1''  \<and> IsVersionNewer ''0.5.30'' ''0.5.30-rc1'' \<and> IsVersionNewer ''0.5.30-rc1'' ''0.5.29''"
    by code_simp
  then show ?thesis using IsVersionNewer_strict by blast
qed

end
