(* ===== verification/Autoupdate.thy ===== *)
theory Autoupdate
  imports Version Calendar
begin

section \<open>Automatic updates\<close>

text \<open>
  Models \<open>pkg/autoupdate\<close>: the decision (\<open>decide.go\<close>), the file with the owner's choice and the last attempt
  (\<open>state.go\<close>), and the hourly check with its settling of the last attempt (\<open>autoupdate.go\<close>). Instants are those of
  \<open>Prelude\<close>; the location of the box is a record of two functions, the date of an instant there and the instant of a time
  of day on a date there, which is what the code asks of Go's \<open>time.Location\<close>. The box is a record of the file
  (\<open>None\<close> when it is not there or does not parse), the versions that were handed to the updater and the
  notifications; what the world answers to a check is a record of its own.
\<close>

subsection \<open>Times of day\<close>

text \<open>\<open>parseClock\<close>: \<open>HH:MM\<close>, in minutes after midnight.\<close>

definition parseClock :: "string \<Rightarrow> int option" where
  "parseClock v =
     (case v of
        [h1, h2, p, m1, m2] \<Rightarrow>
          (let h = digits_val 0 [h1, h2]; m = digits_val 0 [m1, m2]
           in if p = CHR '':'' \<and> list_all (\<lambda>c. is_digit c) [h1, h2, m1, m2] \<and> h < 24 \<and> m < 60
              then Some (h * 60 + m) else None)
      | _ \<Rightarrow> None)"

subsection \<open>The window\<close>

record window =
  w_start :: int
  w_end :: int

definition parseWindow :: "string \<Rightarrow> string \<Rightarrow> window \<times> bool" where
  "parseWindow start fin =
     (let s = (case parseClock start of Some m \<Rightarrow> m | None \<Rightarrow> 0); e = (case parseClock fin of Some m \<Rightarrow> m | None \<Rightarrow> 0)
      in (\<lparr>w_start = s, w_end = e\<rparr>,
          parseClock start \<noteq> None \<and> parseClock fin \<noteq> None \<and> (e - s + 24 * 60) mod (24 * 60) \<ge> 60))"

text \<open>The location of the box: the date of an instant, as a number of days, and the instant of a minute of a date.\<close>

record zone =
  zn_day :: "instant \<Rightarrow> int"
  zn_at :: "int \<Rightarrow> int \<Rightarrow> instant"

definition occurrence :: "zone \<Rightarrow> window \<Rightarrow> instant \<Rightarrow> int \<Rightarrow> instant \<times> instant" where
  "occurrence Z w day days =
     (let d = zn_day Z day + days
      in (zn_at Z d (w_start w), zn_at Z (if w_end w \<le> w_start w then d + 1 else d) (w_end w)))"

text \<open>The loop of \<open>earliest\<close>, from \<open>days\<close> on; \<open>None\<close> when it does not end.\<close>

partial_function (option) earliest_from :: "zone \<Rightarrow> window \<Rightarrow> instant \<Rightarrow> instant \<Rightarrow> int \<Rightarrow> instant option" where
  "earliest_from Z w t attempted days =
     (case occurrence Z w t days of (opens, closes) \<Rightarrow>
        if \<not> closes > t \<or> \<not> attempted < opens \<and> attempted < closes
        then earliest_from Z w t attempted (days + 1)
        else Some (if opens > t then opens else t))"

definition earliest :: "zone \<Rightarrow> window \<Rightarrow> instant \<Rightarrow> instant \<Rightarrow> instant option" where
  "earliest Z w t attempted = earliest_from Z w t attempted (-1)"

subsection \<open>The state of the box\<close>

definition resultRunning :: string where "resultRunning = ''running''"
definition resultSucceeded :: string where "resultSucceeded = ''succeeded''"
definition resultFailed :: string where "resultFailed = ''failed''"

datatype shown_state = stateOff | stateUpToDate | stateWaiting | stateUpdating | statePaused

record last_attempt =
  la_Version :: string
  la_StartedAt :: instant
  la_Result :: string

record failures =
  fa_Version :: string
  fa_Count :: int

record au_state =
  as_Enabled :: bool
  as_WindowStart :: string
  as_WindowEnd :: string
  as_Last :: "last_attempt option"
  as_Failures :: "failures option"

definition defaults :: au_state where
  "defaults = \<lparr>as_Enabled = False, as_WindowStart = ''03:00'', as_WindowEnd = ''05:00'', as_Last = None, as_Failures = None\<rparr>"

definition state_window :: "au_state \<Rightarrow> window" where
  "state_window s = fst (parseWindow (as_WindowStart s) (as_WindowEnd s))"

definition attempted :: "au_state \<Rightarrow> instant" where
  "attempted s = (case as_Last s of None \<Rightarrow> zero_time | Some l \<Rightarrow> la_StartedAt l)"

definition last_running :: "au_state \<Rightarrow> bool" where
  "last_running s = (case as_Last s of None \<Rightarrow> False | Some l \<Rightarrow> la_Result l = resultRunning)"

text \<open>A release of \<open>version.json\<close>; the empty one when it could not be read.\<close>

record release =
  rl_Version :: string
  rl_PublishedAt :: string

definition no_release :: release where
  "no_release = \<lparr>rl_Version = [], rl_PublishedAt = []\<rparr>"

subsection \<open>The decision\<close>

abbreviation (input) minAge :: duration where
  "minAge \<equiv> 24 * hour"

record au_facts =
  fc_now :: instant
  fc_state :: au_state
  fc_current :: string
  fc_latest :: release
  fc_settled :: release
  fc_unitActive :: bool
  fc_appsBusy :: bool

record next_release =
  nx_Version :: string
  nx_NotBefore :: instant

record au_verdict =
  vd_state :: shown_state
  vd_next :: "next_release option"
  vd_start :: bool

definition only_shown :: "shown_state \<Rightarrow> au_verdict" where
  "only_shown n = \<lparr>vd_state = n, vd_next = None, vd_start = False\<rparr>"

definition tooYoung :: "release \<Rightarrow> instant \<Rightarrow> bool" where
  "tooYoung v now = (case parse_rfc3339 (rl_PublishedAt v) of Some p \<Rightarrow> p + minAge > now | None \<Rightarrow> False)"

definition target_of :: "au_facts \<Rightarrow> release" where
  "target_of f =
     (if tooYoung (fc_latest f) (fc_now f) \<and> IsVersionNewer (rl_Version (fc_settled f)) (fc_current f)
      then fc_settled f else fc_latest f)"

definition decide_update :: "zone \<Rightarrow> au_facts \<Rightarrow> au_verdict option" where
  "decide_update Z f =
     (let s = fc_state f
      in if \<not> as_Enabled s then Some (only_shown stateOff)
         else if last_running s then Some (only_shown stateUpdating)
         else if \<not> IsVersionNewer (rl_Version (fc_latest f)) (fc_current f) then Some (only_shown stateUpToDate)
         else (let target = target_of f
               in if (case as_Failures s of None \<Rightarrow> False | Some x \<Rightarrow> fa_Version x = rl_Version target \<and> fa_Count x \<ge> 2)
                  then Some (only_shown statePaused)
                  else (case parse_rfc3339 (rl_PublishedAt target) of
                          None \<Rightarrow> Some (only_shown stateWaiting)
                        | Some published \<Rightarrow>
                            (let ready = published + minAge; from = (if ready > fc_now f then ready else fc_now f)
                             in case earliest Z (state_window s) from (attempted s) of
                                  None \<Rightarrow> None
                                | Some notBefore \<Rightarrow>
                                    Some \<lparr>vd_state = stateWaiting,
                                          vd_next = Some \<lparr>nx_Version = rl_Version target, nx_NotBefore = notBefore\<rparr>,
                                          vd_start = \<not> notBefore > fc_now f \<and> \<not> fc_unitActive f \<and> \<not> fc_appsBusy f\<rparr>))))"

subsection \<open>The file\<close>

record box =
  bx_file :: "au_state option"
  bx_notified :: "(string \<times> string) list"
  bx_started :: "string list"

definition load :: "box \<Rightarrow> au_state" where
  "load b =
     (case bx_file b of
        None \<Rightarrow> defaults
      | Some s \<Rightarrow> if \<not> snd (parseWindow (as_WindowStart s) (as_WindowEnd s)) then defaults else s)"

text \<open>
  \<open>modify\<close>: the change gives the new state, or nothing to leave the file, and the notifications it sends; the flag is
  whether the file can be written. The answer is whether it was no error.
\<close>

definition modify :: "bool \<Rightarrow> (au_state \<Rightarrow> au_state option \<times> (string \<times> string) list) \<Rightarrow> box \<Rightarrow> box \<times> bool" where
  "modify writable change b =
     (case change (load b) of (r, notes) \<Rightarrow>
        (let b1 = b\<lparr>bx_notified := bx_notified b @ notes\<rparr>
         in case r of
              None \<Rightarrow> (b1, True)
            | Some s \<Rightarrow> if writable then (b1\<lparr>bx_file := Some s\<rparr>, True) else (b1, False)))"

text \<open>\<open>fail\<close>: the last attempt failed; the second failure of a release pauses it.\<close>

definition fail_attempt :: "au_state \<Rightarrow> au_state \<times> (string \<times> string) list" where
  "fail_attempt s =
     (case as_Last s of
        None \<Rightarrow> (s, [])
      | Some l \<Rightarrow>
          (let f0 = (case as_Failures s of
                       Some f \<Rightarrow> if fa_Version f \<noteq> la_Version l then \<lparr>fa_Version = la_Version l, fa_Count = 0\<rparr> else f
                     | None \<Rightarrow> \<lparr>fa_Version = la_Version l, fa_Count = 0\<rparr>);
               f1 = f0\<lparr>fa_Count := fa_Count f0 + 1\<rparr>
           in (s\<lparr>as_Last := Some (l\<lparr>la_Result := resultFailed\<rparr>), as_Failures := Some f1\<rparr>,
               [(if fa_Count f1 \<ge> 2 then ''paused'' else resultFailed, la_Version l)])))"

subsection \<open>The check\<close>

datatype start_answer = Started | StartBusy | StartError

text \<open>What the owner asks of the API: each field optional.\<close>

record change =
  ch_Enabled :: "bool option"
  ch_WindowStart :: "string option"
  ch_WindowEnd :: "string option"
  ch_Resume :: bool

text \<open>
  What a check is answered by the world: the clock, the installed release, the releases, systemd when the last attempt is
  settled and when the check asks, the apps, the updater, whether the file can be written, and what the
  owner changes while the updater is being started.
\<close>

record world =
  wd_now :: instant
  wd_current :: string
  wd_latest :: release
  wd_Settled :: "(instant \<Rightarrow> release) option"
  wd_unitSettle :: string
  wd_unitCheck :: string
  wd_apps :: bool
  wd_Busy :: "bool option"
  wd_Start :: "string \<Rightarrow> start_answer"
  wd_writable :: bool
  wd_meanwhile :: "change list"

text \<open>\<open>unitActive\<close>: only a unit that systemd says is over is not active.\<close>

definition unitActive :: "string \<Rightarrow> bool" where
  "unitActive output = (trim_space output \<notin> {''inactive'', ''failed'', ''unknown''})"

definition settle_change :: "bool \<Rightarrow> string \<Rightarrow> au_state \<Rightarrow> au_state option \<times> (string \<times> string) list" where
  "settle_change unit current s =
     (case as_Last s of
        None \<Rightarrow> (None, [])
      | Some l \<Rightarrow>
          if la_Result l \<noteq> resultRunning then (None, [])
          else if unit then (None, [])
          else (let installed = trim_v current; attempt = trim_v (la_Version l)
                in if installed = attempt \<or> IsVersionNewer installed attempt
                   then (Some (s\<lparr>as_Last := Some (l\<lparr>la_Result := resultSucceeded\<rparr>), as_Failures := None\<rparr>),
                         [(resultSucceeded, la_Version l)])
                   else (case fail_attempt s of (s', notes) \<Rightarrow> (Some s', notes))))"

definition settle :: "world \<Rightarrow> box \<Rightarrow> box" where
  "settle e b = fst (modify (wd_writable e) (settle_change (unitActive (wd_unitSettle e)) (wd_current e)) b)"

definition settled_release :: "world \<Rightarrow> au_facts \<Rightarrow> release" where
  "settled_release e f =
     (case wd_Settled e of
        None \<Rightarrow> no_release
      | Some ask \<Rightarrow> if \<not> tooYoung (fc_latest f) (fc_now f) then no_release else ask (fc_now f - minAge))"

text \<open>The file as \<open>Update\<close> leaves it, and whether the window it asks for is one.\<close>

definition apply_change :: "change \<Rightarrow> au_state \<Rightarrow> au_state" where
  "apply_change c s =
     (let s1 = (case ch_Enabled c of None \<Rightarrow> s | Some x \<Rightarrow> s\<lparr>as_Enabled := x\<rparr>);
          s2 = (case ch_WindowStart c of None \<Rightarrow> s1 | Some x \<Rightarrow> s1\<lparr>as_WindowStart := x\<rparr>);
          s3 = (case ch_WindowEnd c of None \<Rightarrow> s2 | Some x \<Rightarrow> s2\<lparr>as_WindowEnd := x\<rparr>)
      in if ch_Resume c then s3\<lparr>as_Failures := None\<rparr> else s3)"

definition window_valid :: "au_state \<Rightarrow> bool" where
  "window_valid s = snd (parseWindow (as_WindowStart s) (as_WindowEnd s))"

definition update_change :: "change \<Rightarrow> au_state \<Rightarrow> au_state option \<times> (string \<times> string) list" where
  "update_change c s = (let s' = apply_change c s in (if window_valid s' then Some s' else None, []))"

definition floor_second :: "instant \<Rightarrow> instant" where
  "floor_second t = t - t mod second"

text \<open>\<open>start\<close>: the attempt is recorded, then the updater is called; a busy box takes the attempt back.\<close>

definition take_back :: "string \<Rightarrow> last_attempt option \<Rightarrow> au_state \<Rightarrow> au_state option \<times> (string \<times> string) list" where
  "take_back release before_attempt s =
     (case as_Last s of
        None \<Rightarrow> (None, [])
      | Some l \<Rightarrow>
          if la_Result l \<noteq> resultRunning \<or> la_Version l \<noteq> release then (None, [])
          else (Some (s\<lparr>as_Last := before_attempt\<rparr>), []))"

definition fail_change :: "au_state \<Rightarrow> au_state option \<times> (string \<times> string) list" where
  "fail_change s =
     (if \<not> last_running s then (None, []) else (case fail_attempt s of (s', notes) \<Rightarrow> (Some s', notes)))"

definition start_update :: "world \<Rightarrow> string \<Rightarrow> box \<Rightarrow> box" where
  "start_update e release b =
     (let now = wd_now e;
          attempt = \<lparr>la_Version = release, la_StartedAt = floor_second now, la_Result = resultRunning\<rparr>;
          before_attempt = as_Last (load b)
      in case modify (wd_writable e) (\<lambda>s. (Some (s\<lparr>as_Last := Some attempt\<rparr>), [])) b of
           (b1, False) \<Rightarrow> b1
         | (b1, True) \<Rightarrow>
             (let b2 = b1\<lparr>bx_started := bx_started b1 @ [release]\<rparr>;
                  b3 = foldl (\<lambda>x c. fst (modify (wd_writable e) (update_change c) x)) b2 (wd_meanwhile e)
              in case wd_Start e release of
                   Started \<Rightarrow> b3
                 | StartBusy \<Rightarrow> fst (modify (wd_writable e) (take_back release before_attempt) b3)
                 | StartError \<Rightarrow> fst (modify (wd_writable e) fail_change b3)))"

definition Check :: "zone \<Rightarrow> world \<Rightarrow> box \<Rightarrow> box option" where
  "Check Z e b0 =
     (let b = settle e b0; now = wd_now e; s = load b
      in if \<not> as_Enabled s then Some b
         else (case earliest Z (state_window s) now (attempted s) of
                 None \<Rightarrow> None
               | Some r \<Rightarrow>
                   if r > now then Some b
                   else (let f0 = \<lparr>fc_now = now, fc_state = s, fc_current = wd_current e, fc_latest = wd_latest e,
                                   fc_settled = no_release, fc_unitActive = False, fc_appsBusy = False\<rparr>;
                             f1 = f0\<lparr>fc_settled := settled_release e f0\<rparr>
                         in case decide_update Z f1 of
                              None \<Rightarrow> None
                            | Some v1 \<Rightarrow>
                                if \<not> vd_start v1 then Some b
                                else (let f2 = f1\<lparr>fc_unitActive := unitActive (wd_unitCheck e),
                                                  fc_appsBusy := wd_apps e \<or> (case wd_Busy e of Some x \<Rightarrow> x | None \<Rightarrow> False)\<rparr>
                                      in case decide_update Z f2 of
                                           None \<Rightarrow> None
                                         | Some v2 \<Rightarrow>
                                             (case vd_next v2 of
                                                Some nx \<Rightarrow> Some (if vd_start v2 then start_update e (nx_Version nx) b else b)
                                              | None \<Rightarrow> Some b)))))"

subsection \<open>The owner's side\<close>

record au_status =
  su_Enabled :: bool
  su_WindowStart :: string
  su_WindowEnd :: string
  su_State :: shown_state
  su_Next :: "next_release option"
  su_Last :: "last_attempt option"

definition Status :: "zone \<Rightarrow> world \<Rightarrow> box \<Rightarrow> au_status option" where
  "Status Z e b =
     (let s = load b;
          f0 = \<lparr>fc_now = wd_now e, fc_state = s, fc_current = [], fc_latest = no_release, fc_settled = no_release,
               fc_unitActive = False, fc_appsBusy = False\<rparr>;
          f1 = (if as_Enabled s then f0\<lparr>fc_current := wd_current e, fc_latest := wd_latest e\<rparr> else f0);
          f = (if as_Enabled s then f1\<lparr>fc_settled := settled_release e f1\<rparr> else f1)
      in case decide_update Z f of
           None \<Rightarrow> None
         | Some v \<Rightarrow> Some \<lparr>su_Enabled = as_Enabled s, su_WindowStart = as_WindowStart s, su_WindowEnd = as_WindowEnd s,
                          su_State = vd_state v, su_Next = vd_next v, su_Last = as_Last s\<rparr>)"

datatype update_error = ErrWindow | ErrSave

definition Update :: "zone \<Rightarrow> world \<Rightarrow> change \<Rightarrow> box \<Rightarrow> box \<times> (update_error + au_status option)" where
  "Update Z e c b =
     (let valid = window_valid (apply_change c (load b))
      in case modify (wd_writable e) (update_change c) b of
           (b1, ok) \<Rightarrow>
             if \<not> ok then (b1, Inl ErrSave)
             else if \<not> valid then (b1, Inl ErrWindow)
             else (b1, Inr (Status Z e b1)))"

end
