(* ===== verification/AutoupdateWindow.thy ===== *)
theory AutoupdateWindow
  imports Autoupdate
begin

section \<open>The nightly window\<close>

text \<open>
  The first time at which an automatic update may start. The location is an interface: \<open>local_clock\<close> has the one law that
  every location of the world keeps (two dates on, the wall clock is ahead of now), which is enough for the loop to end,
  and \<open>steady_clock\<close> adds that the wall clock does not jump, which holds in a location of a fixed offset and on every day
  that the clocks are not changed; there the loop finds the first time in a night without an attempt.
\<close>

subsection \<open>Locations\<close>

locale local_clock =
  fixes Z :: zone
  assumes ahead: "zn_day Z t + 2 \<le> d \<Longrightarrow> 0 \<le> m \<Longrightarrow> t < zn_at Z d m"

locale steady_clock = local_clock +
  assumes today: "zn_at Z (zn_day Z t) 0 \<le> t"
    and tomorrow: "t < zn_at Z (zn_day Z t + 1) 0"
    and forward: "0 \<le> m \<Longrightarrow> m < 1440 \<Longrightarrow> 0 \<le> m' \<Longrightarrow> m' < 1440 \<Longrightarrow> d < d' \<or> d = d' \<and> m \<le> m' \<Longrightarrow> zn_at Z d m \<le> zn_at Z d' m'"
    and whole_seconds: "zn_at Z d m mod second = 0"

text \<open>A location of a fixed offset from UTC, in seconds.\<close>

definition fixed_zone :: "int \<Rightarrow> zone" where
  "fixed_zone off =
     \<lparr>zn_day = (\<lambda>t. (t + off * second) div (86400 * second)),
      zn_at = (\<lambda>d m. (d * 86400 + m * 60 - off) * second)\<rparr>"

lemma day_bounds:
  fixes t :: int
  shows "t div (86400 * second) * (86400 * second) \<le> t" "t < (t div (86400 * second) + 1) * (86400 * second)"
  using div_mult_mod_eq [of t "86400 * second"] pos_mod_bound [of "86400 * second" t] pos_mod_sign [of "86400 * second" t]
  by (simp_all add: algebra_simps)

interpretation fixed: steady_clock "fixed_zone off" for off
proof unfold_locales
  fix t d m d' m' :: int
  define q where "q = (t + off * second) div (86400 * second)"
  have n: "zn_day (fixed_zone off) t = q" "zn_at (fixed_zone off) d m = (d * 86400 + m * 60 - off) * second" for d m
    by (simp_all add: fixed_zone_def q_def)
  have b: "q * (86400 * second) \<le> t + off * second" "t + off * second < (q + 1) * (86400 * second)"
    unfolding q_def by (rule day_bounds)+
  show "zn_day (fixed_zone off) t + 2 \<le> d \<Longrightarrow> 0 \<le> m \<Longrightarrow> t < zn_at (fixed_zone off) d m"
    using b(2) unfolding n by (simp add: distrib_right left_diff_distrib)
  show "zn_at (fixed_zone off) (zn_day (fixed_zone off) t) 0 \<le> t"
    using b(1) unfolding n by (simp add: left_diff_distrib)
  show "t < zn_at (fixed_zone off) (zn_day (fixed_zone off) t + 1) 0"
    using b(2) unfolding n by (simp add: distrib_right left_diff_distrib)
  show "zn_at (fixed_zone off) d m mod second = 0" by (simp add: n(2))
  assume "0 \<le> m" "m < 1440" "0 \<le> m'" "m' < 1440" "d < d' \<or> d = d' \<and> m \<le> m'"
  then show "zn_at (fixed_zone off) d m \<le> zn_at (fixed_zone off) d' m'" unfolding n by auto
qed

subsection \<open>Occurrences\<close>

definition opens_at :: "zone \<Rightarrow> window \<Rightarrow> instant \<Rightarrow> int \<Rightarrow> instant" where
  "opens_at Z w t k = fst (occurrence Z w t k)"

definition closes_at :: "zone \<Rightarrow> window \<Rightarrow> instant \<Rightarrow> int \<Rightarrow> instant" where
  "closes_at Z w t k = snd (occurrence Z w t k)"

definition skipped :: "zone \<Rightarrow> window \<Rightarrow> instant \<Rightarrow> instant \<Rightarrow> int \<Rightarrow> bool" where
  "skipped Z w t a k \<longleftrightarrow> closes_at Z w t k \<le> t \<or> opens_at Z w t k \<le> a \<and> a < closes_at Z w t k"

lemma earliest_from_step:
  "earliest_from Z w t a k =
     (if skipped Z w t a k then earliest_from Z w t a (k + 1) else Some (max t (opens_at Z w t k)))"
  by (subst earliest_from.simps)
     (auto simp: skipped_def opens_at_def closes_at_def not_less max_def split: prod.split)

lemma earliest_from_least:
  assumes "j \<le> k" "\<not> skipped Z w t a k" "\<And>i. j \<le> i \<Longrightarrow> i < k \<Longrightarrow> skipped Z w t a i"
  shows "earliest_from Z w t a j = Some (max t (opens_at Z w t k))"
  using assms
proof (induction "nat (k - j)" arbitrary: j)
  case 0
  then show ?case by (subst earliest_from_step) simp
next
  case (Suc n)
  then have "j < k" by simp
  then show ?case using Suc by (subst earliest_from_step) simp
qed

lemma first_unskipped:
  fixes j k :: int
  assumes "j \<le> k" "\<not> P k"
  obtains f where "j \<le> f" "f \<le> k" "\<not> P f" "\<And>i. j \<le> i \<Longrightarrow> i < f \<Longrightarrow> P i"
proof -
  define n where "n = (LEAST n :: nat. \<not> P (j + int n))"
  have "\<not> P (j + int (nat (k - j)))" using assms by simp
  then have n: "\<not> P (j + int n)" "n \<le> nat (k - j)" unfolding n_def by (rule LeastI, rule Least_le)
  have "P i" if "j \<le> i" "i < j + int n" for i
    using not_less_Least [of "nat (i - j)" "\<lambda>n. \<not> P (j + int n)"] that by (fold n_def) auto
  then show ?thesis using that [of "j + int n"] n assms(1) by auto
qed

context local_clock
begin

text \<open>The loop ends, whenever the last attempt was.\<close>

lemma earliest_total:
  assumes "0 \<le> w_start w" "0 \<le> w_end w"
  shows "\<exists>r. earliest Z w t a = Some r \<and> t \<le> r"
proof -
  define k where "k = max 2 (zn_day Z a - zn_day Z t + 2)"
  have "t < closes_at Z w t k" "a < opens_at Z w t k"
    using assms by (auto simp: closes_at_def opens_at_def occurrence_def k_def Let_def intro!: ahead)
  then have "\<not> skipped Z w t a k" by (auto simp: skipped_def)
  then obtain f where "-1 \<le> f" "\<not> skipped Z w t a f" "\<And>i. -1 \<le> i \<Longrightarrow> i < f \<Longrightarrow> skipped Z w t a i"
    using first_unskipped [of "-1" k "skipped Z w t a"] that by (metis k_def max.cobounded1 neg_le_iff_le order_trans zero_le_numeral le_minus_one_simps(1) zero_le_one)
  then show ?thesis unfolding earliest_def by (subst earliest_from_least [of "-1" f]) auto
qed

end

text \<open>The windows that \<open>parseWindow\<close> takes.\<close>

definition window_ok :: "window \<Rightarrow> bool" where
  "window_ok w \<longleftrightarrow> 0 \<le> w_start w \<and> w_start w < 1440 \<and> 0 \<le> w_end w \<and> w_end w < 1440 \<and> w_start w \<noteq> w_end w"

lemma parseClock_range: "parseClock v = Some m \<Longrightarrow> 0 \<le> m \<and> m < 1440"
proof -
  have two: "is_digit a \<Longrightarrow> is_digit b \<Longrightarrow> 0 \<le> digits_val 0 [a, b]" for a b
    using digit_val_range [of a] digit_val_range [of b] by (simp add: digits_val_def)
  assume "parseClock v = Some m"
  then obtain a b c d where "m = digits_val 0 [a, b] * 60 + digits_val 0 [c, d]" "digits_val 0 [a, b] < 24"
    "digits_val 0 [c, d] < 60" "is_digit a" "is_digit b" "is_digit c" "is_digit d"
    by (auto simp: parseClock_def Let_def split: list.splits if_splits)
  then show ?thesis using two [of a b] two [of c d] by linarith
qed

lemma parseWindow_ok: "snd (parseWindow s e) \<Longrightarrow> window_ok (fst (parseWindow s e))"
  using parseClock_range [of s] parseClock_range [of e]
  by (auto simp: parseWindow_def window_ok_def Let_def)

text \<open>A time at which the update may start: in a window that no attempt was made in.\<close>

definition free_time :: "zone \<Rightarrow> window \<Rightarrow> instant \<Rightarrow> instant \<Rightarrow> int \<Rightarrow> instant \<Rightarrow> bool" where
  "free_time Z w t a k r \<longleftrightarrow>
     t \<le> r \<and> opens_at Z w t k \<le> r \<and> r < closes_at Z w t k \<and> \<not> (opens_at Z w t k \<le> a \<and> a < closes_at Z w t k)"

context steady_clock
begin

lemma window_chain:
  assumes "window_ok w"
  shows "closes_at Z w t k \<le> opens_at Z w t (k + 1)" "j \<le> k \<Longrightarrow> opens_at Z w t j \<le> opens_at Z w t k"
    "1 \<le> k \<Longrightarrow> t < closes_at Z w t k" "k \<le> -2 \<Longrightarrow> closes_at Z w t k \<le> t"
proof -
  show "closes_at Z w t k \<le> opens_at Z w t (k + 1)" "j \<le> k \<Longrightarrow> opens_at Z w t j \<le> opens_at Z w t k"
    using assms by (auto simp: closes_at_def opens_at_def occurrence_def window_ok_def Let_def intro!: forward)
  have late: "1 \<le> i \<Longrightarrow> 0 \<le> m \<Longrightarrow> m < 1440 \<Longrightarrow> t < zn_at Z (zn_day Z t + i) m" for i m
    using tomorrow [of t] forward [of 0 m "zn_day Z t + 1" "zn_day Z t + i"] by fastforce
  show "1 \<le> k \<Longrightarrow> t < closes_at Z w t k"
    using assms late [of k "w_end w"] late [of "k + 1" "w_end w"]
    by (auto simp: closes_at_def occurrence_def window_ok_def Let_def add.assoc)
  have early: "i \<le> -1 \<Longrightarrow> 0 \<le> m \<Longrightarrow> m < 1440 \<Longrightarrow> zn_at Z (zn_day Z t + i) m \<le> t" for i m
    using today [of t] forward [of m 0 "zn_day Z t + i" "zn_day Z t"] by fastforce
  show "k \<le> -2 \<Longrightarrow> closes_at Z w t k \<le> t"
    using assms early [of k "w_end w"] early [of "k + 1" "w_end w"]
    by (auto simp: closes_at_def occurrence_def window_ok_def Let_def add.assoc)
qed

lemma attempt_in_one_window:
  assumes "window_ok w" "opens_at Z w t j \<le> a" "a < closes_at Z w t j" "opens_at Z w t k \<le> a" "a < closes_at Z w t k"
  shows "j = k"
proof -
  have "\<not> i < l" if "opens_at Z w t i \<le> a" "a < closes_at Z w t i" "opens_at Z w t l \<le> a" "a < closes_at Z w t l" for i l
    using that window_chain(1) [OF assms(1), of t i] window_chain(2) [OF assms(1), of "i + 1" l t] by force
  then show ?thesis using assms(2-5) by (metis linorder_neqE)
qed

lemma earliest_first:
  assumes "window_ok w"
  shows "\<exists>r k. earliest Z w t a = Some r \<and> r = max t (opens_at Z w t k) \<and> k \<in> {-1..2} \<and> \<not> skipped Z w t a k \<and>
           (\<forall>k' r'. free_time Z w t a k' r' \<longrightarrow> r \<le> r')"
proof -
  have one: "\<not> skipped Z w t a 1 \<or> \<not> skipped Z w t a 2"
    using attempt_in_one_window [OF assms, of t 1 a 2] window_chain(3) [OF assms, of 1 t] window_chain(3) [OF assms, of 2 t]
    by (auto simp: skipped_def)
  then obtain k where k: "1 \<le> k" "k \<le> 2" "\<not> skipped Z w t a k" by (metis one_le_numeral order_refl)
  obtain f where f: "-1 \<le> f" "f \<le> k" "\<not> skipped Z w t a f" "\<And>i. -1 \<le> i \<Longrightarrow> i < f \<Longrightarrow> skipped Z w t a i"
    by (rule first_unskipped [of "-1" k "skipped Z w t a"]) (use k in auto)
  have least: "max t (opens_at Z w t f) \<le> r'" if "free_time Z w t a k' r'" for k' r'
  proof -
    have "t < closes_at Z w t k'" using that by (auto simp: free_time_def)
    then have "-1 \<le> k'" using window_chain(4) [OF assms, of k' t] by linarith
    moreover have "\<not> skipped Z w t a k'" using that by (auto simp: skipped_def free_time_def)
    ultimately have "f \<le> k'" using f(4) [of k'] by linarith
    then show ?thesis using window_chain(2) [OF assms, of f k' t] that by (auto simp: free_time_def)
  qed
  have "earliest Z w t a = Some (max t (opens_at Z w t f))"
    unfolding earliest_def by (rule earliest_from_least) (use f in auto)
  then show ?thesis using f k least by (intro exI [of _ "max t (opens_at Z w t f)"] exI [of _ f]) auto
qed

end

text \<open>
  (C26) The loop that looks for the first time of an update ends in every location of the world, whatever the window and the
  time of the last attempt (even one that the clock says is still to come), and never with a time that is past.
\<close>

theorem earliest_returns:
  assumes "local_clock Z" "snd (parseWindow s e)"
  shows "\<exists>r. earliest Z (fst (parseWindow s e)) t a = Some r \<and> t \<le> r"
  using local_clock.earliest_total [OF assms(1)] parseWindow_ok [OF assms(2)] by (simp add: window_ok_def)

theorem earliest_returns_witness:
  "\<exists>r. earliest (fixed_zone 7200) (fst (parseWindow ''23:00'' ''01:30'')) 0 (10 ^ 30) = Some r \<and> 0 \<le> r"
  by (rule earliest_returns) (unfold_locales, code_simp)



end
