(* ===== verification/AutoupdateRun.thy ===== *)
theory AutoupdateRun
  imports AutoupdateWindow
begin

section \<open>What an automatic update may do\<close>

text \<open>
  The properties of the hourly check, of the settling of an attempt and of the owner's changes: when an update starts, that there
  is at most one attempt a night, that a release that failed twice is left alone, what the file holds after
  any sequence of checks and changes.
\<close>

subsection \<open>The steps\<close>

lemma load_update [simp]:
  "load (b\<lparr>bx_notified := x\<rparr>) = load b" "load (b\<lparr>bx_started := y\<rparr>) = load b"
  "load (b\<lparr>bx_file := Some s\<rparr>) = (if window_valid s then s else defaults)"
  by (simp_all add: load_def window_valid_def)

lemma load_valid [simp]: "window_valid (load b)"
proof -
  have "window_valid defaults" by code_simp
  then show ?thesis by (simp add: load_def window_valid_def split: option.split)
qed

lemma load_modify:
  "load (fst (modify wr ch b)) =
     (case fst (ch (load b)) of
        None \<Rightarrow> load b
      | Some s \<Rightarrow> if wr then if window_valid s then s else defaults else load b)"
  by (simp add: modify_def Let_def split: prod.split option.split)

lemma modify_fields:
  "bx_started (fst (modify wr ch b)) = bx_started b"
  by (simp add: modify_def Let_def split: prod.split option.split)

lemma settle_started [simp]: "bx_started (settle e b) = bx_started b"
  by (simp add: settle_def modify_fields)

lemma meanwhile_started:
  "bx_started (foldl (\<lambda>x c. fst (modify wr (update_change c) x)) b cs) = bx_started b"
  by (induction cs arbitrary: b) (simp_all add: modify_fields)

lemma modify_set:
  "modify True (\<lambda>s. (Some (f s), [])) b = (b\<lparr>bx_file := Some (f (load b))\<rparr>, True)"
  "modify False (\<lambda>s. (Some (f s), [])) b = (b, False)"
  by (simp_all add: modify_def)

text \<open>The box when the updater is called: the attempt is recorded, and the owner may have changed the file since.\<close>

definition recorded :: "world \<Rightarrow> string \<Rightarrow> box \<Rightarrow> box" where
  "recorded e v b =
     foldl (\<lambda>x c. fst (modify True (update_change c) x))
       (b\<lparr>bx_file := Some ((load b)\<lparr>as_Last := Some \<lparr>la_Version = v, la_StartedAt = floor_second (wd_now e),
            la_Result = resultRunning\<rparr>\<rparr>), bx_started := bx_started b @ [v]\<rparr>) (wd_meanwhile e)"

lemma start_update_cases:
  "start_update e v b =
     (if \<not> wd_writable e then b
      else (case wd_Start e v of
              Started \<Rightarrow> recorded e v b
            | StartBusy \<Rightarrow> fst (modify True (take_back v (as_Last (load b))) (recorded e v b))
            | StartError \<Rightarrow> fst (modify True fail_change (recorded e v b))))"
  by (cases "wd_writable e") (simp_all add: start_update_def recorded_def modify_set Let_def split: start_answer.split)

lemma start_update_started:
  "bx_started (start_update e v b) = (if wd_writable e then bx_started b @ [v] else bx_started b)"
  by (cases "wd_Start e v") (simp_all add: start_update_cases modify_fields recorded_def meanwhile_started)

text \<open>The facts that the check decides on, before and after it asks systemd and the apps.\<close>

definition check_facts :: "world \<Rightarrow> au_state \<Rightarrow> bool \<Rightarrow> bool \<Rightarrow> au_facts" where
  "check_facts e s unit apps =
     (let f0 = \<lparr>fc_now = wd_now e, fc_state = s, fc_current = wd_current e, fc_latest = wd_latest e,
               fc_settled = no_release, fc_unitActive = False, fc_appsBusy = False\<rparr>
      in f0\<lparr>fc_settled := settled_release e f0, fc_unitActive := unit, fc_appsBusy := apps\<rparr>)"

lemma check_facts_fields [simp]:
  "fc_now (check_facts e s u p) = wd_now e" "fc_state (check_facts e s u p) = s"
  "fc_current (check_facts e s u p) = wd_current e" "fc_latest (check_facts e s u p) = wd_latest e"
  "fc_unitActive (check_facts e s u p) = u" "fc_appsBusy (check_facts e s u p) = p"
  by (simp_all add: check_facts_def Let_def)

definition held :: "world \<Rightarrow> bool" where
  "held e \<longleftrightarrow> wd_apps e \<or> (case wd_Busy e of Some x \<Rightarrow> x | None \<Rightarrow> False)"

lemma Check_eq:
  "Check Z e b0 =
     (let b = settle e b0; s = load b
      in if \<not> as_Enabled s then Some b
         else (case earliest Z (state_window s) (wd_now e) (attempted s) of
                 None \<Rightarrow> None
               | Some r \<Rightarrow>
                   if r > wd_now e then Some b
                   else (case decide_update Z (check_facts e s False False) of
                           None \<Rightarrow> None
                         | Some v1 \<Rightarrow>
                             if \<not> vd_start v1 then Some b
                             else (case decide_update Z (check_facts e s (unitActive (wd_unitCheck e)) (held e)) of
                                     None \<Rightarrow> None
                                   | Some v2 \<Rightarrow>
                                       (case vd_next v2 of
                                          Some nx \<Rightarrow> Some (if vd_start v2 then start_update e (nx_Version nx) b else b)
                                        | None \<Rightarrow> Some b)))))"
  unfolding Check_def check_facts_def held_def Let_def by (simp cong: option.case_cong if_cong)

lemma Check_cases:
  assumes "Check Z e b = Some b'"
  obtains "b' = settle e b"
  | r v nx where "as_Enabled (load (settle e b))"
      "earliest Z (state_window (load (settle e b))) (wd_now e) (attempted (load (settle e b))) = Some r" "r \<le> wd_now e"
      "decide_update Z (check_facts e (load (settle e b)) (unitActive (wd_unitCheck e)) (held e)) = Some v"
      "vd_start v" "vd_next v = Some nx" "b' = start_update e (nx_Version nx) (settle e b)"
proof (cases "b' = settle e b")
  case False
  define s where "s = load (settle e b)"
  note c = assms [unfolded Check_eq Let_def, folded s_def]
  have en: "as_Enabled s" using c False by (rule_tac ccontr) simp
  then obtain r where r: "earliest Z (state_window s) (wd_now e) (attempted s) = Some r"
    using c by (cases "earliest Z (state_window s) (wd_now e) (attempted s)") simp_all
  have rn: "r \<le> wd_now e" using c en r False by (rule_tac ccontr) simp
  obtain v1 where v1: "decide_update Z (check_facts e s False False) = Some v1" "vd_start v1"
    using c en r rn False by (cases "decide_update Z (check_facts e s False False)") (auto split: if_splits)
  obtain v where v: "decide_update Z (check_facts e s (unitActive (wd_unitCheck e)) (held e)) = Some v"
    using c en r rn v1 by (cases "decide_update Z (check_facts e s (unitActive (wd_unitCheck e)) (held e))") auto
  obtain nx where "vd_next v = Some nx" "vd_start v" "b' = start_update e (nx_Version nx) (settle e b)"
    using c en r rn v1 v False by (cases "vd_next v") (auto split: if_splits)
  then show thesis using that(2) en r rn v unfolding s_def by blast
qed (rule that(1))

lemma decide_start:
  assumes "decide_update Z f = Some v" "vd_start v"
  obtains p r where "as_Enabled (fc_state f)" "\<not> last_running (fc_state f)"
    "IsVersionNewer (rl_Version (target_of f)) (fc_current f)"
    "\<not> (case as_Failures (fc_state f) of None \<Rightarrow> False | Some x \<Rightarrow> fa_Version x = rl_Version (target_of f) \<and> fa_Count x \<ge> 2)"
    "parse_rfc3339 (rl_PublishedAt (target_of f)) = Some p"
    "earliest Z (state_window (fc_state f)) (max (p + minAge) (fc_now f)) (attempted (fc_state f)) = Some r"
    "r \<le> fc_now f" "\<not> fc_unitActive f" "\<not> fc_appsBusy f"
    "vd_next v = Some \<lparr>nx_Version = rl_Version (target_of f), nx_NotBefore = r\<rparr>"
proof -
  have newer: "IsVersionNewer (rl_Version (target_of f)) (fc_current f)"
    if "IsVersionNewer (rl_Version (fc_latest f)) (fc_current f)"
    using that by (simp add: target_of_def)
  have from_max: "(if x > y then x else y) = max x y" for x y :: int by (simp add: max_def)
  show thesis
    using assms newer that
    by (auto simp: decide_update_def Let_def only_shown_def from_max not_less split: if_splits option.splits)
qed

subsection \<open>When an update starts\<close>

lemma state_window_ok: "window_ok (state_window (load b))"
  using load_valid [of b] unfolding state_window_def window_valid_def by (rule parseWindow_ok)

text \<open>In every location a check ends.\<close>

lemma earliest_loaded: "local_clock Z \<Longrightarrow> earliest Z (state_window (load b)) t a \<noteq> None"
  using local_clock.earliest_total state_window_ok [of b] by (fastforce simp: window_ok_def)

lemma decide_update_total:
  assumes "local_clock Z" "fc_state f = load b"
  shows "decide_update Z f \<noteq> None"
proof -
  define g where "g t = the (earliest Z (state_window (load b)) t (attempted (load b)))" for t
  have "earliest Z (state_window (load b)) t (attempted (load b)) = Some (g t)" for t
    unfolding g_def by (rule option.collapse [symmetric]) (rule earliest_loaded [OF assms(1)])
  then show ?thesis unfolding decide_update_def Let_def assms(2) by (simp split: option.split)
qed

lemma Check_total:
  assumes "local_clock Z"
  shows "\<exists>b'. Check Z e b = Some b'"
proof -
  let ?s = "load (settle e b)"
  have "decide_update Z (check_facts e ?s u h) \<noteq> None" for u h
    by (rule decide_update_total [OF assms]) (simp add: check_facts_def)
  then obtain v1 v2 where "decide_update Z (check_facts e ?s False False) = Some v1"
    "decide_update Z (check_facts e ?s (unitActive (wd_unitCheck e)) (held e)) = Some v2" by blast
  moreover obtain r where "earliest Z (state_window ?s) (wd_now e) (attempted ?s) = Some r"
    using earliest_loaded [OF assms] by blast
  ultimately show ?thesis unfolding Check_eq Let_def by (simp split: option.split)
qed

definition start_allowed :: "zone \<Rightarrow> world \<Rightarrow> au_state \<Rightarrow> release \<Rightarrow> instant \<Rightarrow> bool" where
  "start_allowed Z e s rel p \<longleftrightarrow>
     as_Enabled s \<and> \<not> last_running s \<and> IsVersionNewer (rl_Version rel) (wd_current e) \<and>
     parse_rfc3339 (rl_PublishedAt rel) = Some p \<and> p + 24 * hour \<le> wd_now e \<and>
     (\<forall>x. as_Failures s = Some x \<longrightarrow> fa_Version x = rl_Version rel \<longrightarrow> fa_Count x < 2) \<and>
     earliest Z (state_window s) (wd_now e) (attempted s) = Some (wd_now e) \<and>
     \<not> unitActive (wd_unitCheck e) \<and> \<not> wd_apps e \<and> wd_Busy e \<noteq> Some True"

lemma check_start:
  assumes "local_clock Z" "Check Z e b = Some b'" "b' \<noteq> settle e b"
  shows "\<exists>s rel p. s = load (settle e b) \<and> rel \<in> {wd_latest e, settled_release e (check_facts e s False False)} \<and>
           b' = start_update e (rl_Version rel) (settle e b) \<and> start_allowed Z e s rel p"
  using assms(2)
proof (cases rule: Check_cases)
  case 1
  then show ?thesis using assms(3) by simp
next
  case (2 r v nx)
  define s where "s = load (settle e b)"
  define f where "f = check_facts e s (unitActive (wd_unitCheck e)) (held e)"
  have rel: "target_of f \<in> {wd_latest e, settled_release e (check_facts e s False False)}"
    by (simp add: target_of_def f_def check_facts_def settled_release_def Let_def split: option.split)
  have v: "decide_update Z f = Some v" using 2 by (simp add: f_def s_def)
  obtain p q where d: "as_Enabled s" "\<not> last_running s" "IsVersionNewer (rl_Version (target_of f)) (wd_current e)"
    "\<not> (case as_Failures s of None \<Rightarrow> False | Some x \<Rightarrow> fa_Version x = rl_Version (target_of f) \<and> fa_Count x \<ge> 2)"
    "parse_rfc3339 (rl_PublishedAt (target_of f)) = Some p"
    "earliest Z (state_window s) (max (p + minAge) (wd_now e)) (attempted s) = Some q"
    "q \<le> wd_now e" "\<not> unitActive (wd_unitCheck e)" "\<not> held e"
    "vd_next v = Some \<lparr>nx_Version = rl_Version (target_of f), nx_NotBefore = q\<rparr>"
    using decide_start [OF v \<open>vd_start v\<close>] by (auto simp: f_def)
  have w: "0 \<le> w_start (state_window s)" "0 \<le> w_end (state_window s)"
    using state_window_ok [of "settle e b"] by (simp_all add: window_ok_def s_def)
  have "max (p + minAge) (wd_now e) \<le> q" using local_clock.earliest_total [OF assms(1) w, of "max (p + minAge) (wd_now e)" "attempted s"] d(6) by simp
  then have old: "p + minAge \<le> wd_now e" "q = wd_now e" using d(7) by auto
  then have "earliest Z (state_window s) (wd_now e) (attempted s) = Some (wd_now e)" using d(6) by (simp add: max_def)
  moreover have "b' = start_update e (rl_Version (target_of f)) (settle e b)"
    using 2(6,7) d(10) by auto
  moreover have "\<not> wd_apps e" "wd_Busy e \<noteq> Some True" using d(9) by (auto simp: held_def)
  moreover have "\<forall>x. as_Failures s = Some x \<longrightarrow> fa_Version x = rl_Version (target_of f) \<longrightarrow> fa_Count x < 2"
    using d(4) by auto
  ultimately show ?thesis using rel d(1-3,5,8) old(1) unfolding s_def start_allowed_def by blast
qed

text \<open>
  (C22) A check hands a release to the updater only when the owner has turned automatic updates on, no attempt is running, the
  release is newer than the installed one, came out at least 24 hours ago and has not failed twice, now is a time
  that the window allows, systemd said that no update runs, and neither the apps nor anything else was at
  work; it hands over one release and records the attempt first.
\<close>

theorem update_starts_only_when:
  assumes "local_clock Z" "Check Z e b = Some b'" "bx_started b' \<noteq> bx_started b"
  shows "\<exists>s rel p. s = load (settle e b) \<and> rel \<in> {wd_latest e, settled_release e (check_facts e s False False)} \<and>
           bx_started b' = bx_started b @ [rl_Version rel] \<and>
           as_Enabled s \<and> \<not> last_running s \<and> IsVersionNewer (rl_Version rel) (wd_current e) \<and>
           parse_rfc3339 (rl_PublishedAt rel) = Some p \<and> p + 24 * hour \<le> wd_now e \<and>
           (\<forall>x. as_Failures s = Some x \<longrightarrow> fa_Version x = rl_Version rel \<longrightarrow> fa_Count x < 2) \<and>
           earliest Z (state_window s) (wd_now e) (attempted s) = Some (wd_now e) \<and>
           \<not> unitActive (wd_unitCheck e) \<and> \<not> wd_apps e \<and> wd_Busy e \<noteq> Some True"
proof -
  have "b' \<noteq> settle e b" using assms(3) by auto
  from check_start [OF assms(1,2) this] obtain s rel p where
    c: "s = load (settle e b)" "rel \<in> {wd_latest e, settled_release e (check_facts e s False False)}"
      "b' = start_update e (rl_Version rel) (settle e b)" "start_allowed Z e s rel p" by blast
  have "bx_started b' = bx_started b @ [rl_Version rel]"
    using c(3) assms(3) by (auto simp: start_update_started split: if_splits)
  then show ?thesis using c unfolding start_allowed_def by blast
qed

definition night_release :: release where
  "night_release = \<lparr>rl_Version = ''v0.6.1'', rl_PublishedAt = ''2026-03-01T00:00:00Z''\<rparr>"

text \<open>The night of the 10th of March 2026, at 03:30 UTC.\<close>

definition night_world :: world where
  "night_world =
     \<lparr>wd_now = (day_number 2026 3 10 * 86400 + 12600) * second, wd_current = ''0.6.0'', wd_latest = night_release,
      wd_Settled = None, wd_unitSettle = ''inactive'', wd_unitCheck = ''inactive'', wd_apps = False, wd_Busy = None,
      wd_Start = (\<lambda>v. Started), wd_writable = True, wd_meanwhile = []\<rparr>"

definition night_box :: box where
  "night_box = \<lparr>bx_file = Some (defaults\<lparr>as_Enabled := True\<rparr>), bx_notified = [], bx_started = []\<rparr>"

lemma night_facts:
  "settle night_world night_box = night_box" "load night_box = defaults\<lparr>as_Enabled := True\<rparr>"
  "parse_rfc3339 ''2026-03-01T00:00:00Z'' = Some 63907920000000000000" "wd_now night_world = 63908710200000000000"
  "state_window (load night_box) = \<lparr>w_start = 180, w_end = 300\<rparr>" "IsVersionNewer ''v0.6.1'' ''0.6.0''"
  "attempted (load night_box) = 0" "unitActive ''inactive'' = False" "tooYoung night_release 63908710200000000000 = False"
  by code_simp+

lemma night_earliest:
  "earliest (fixed_zone 0) \<lparr>w_start = 180, w_end = 300\<rparr> 63908710200000000000 0 = Some 63908710200000000000"
  unfolding earliest_def
  by (simp add: earliest_from_step skipped_def opens_at_def closes_at_def occurrence_def fixed_zone_def Let_def)

lemma night_decides:
  "decide_update (fixed_zone 0) (check_facts night_world (load night_box) False False) =
     Some \<lparr>vd_state = stateWaiting, vd_next = Some \<lparr>nx_Version = ''v0.6.1'', nx_NotBefore = 63908710200000000000\<rparr>, vd_start = True\<rparr>"
proof -
  have world: "wd_latest night_world = night_release" "wd_current night_world = ''0.6.0''" "rl_Version night_release = ''v0.6.1''"
    "rl_PublishedAt night_release = ''2026-03-01T00:00:00Z''"
    by (simp_all add: night_world_def night_release_def)
  have state: "as_Enabled (load night_box)" "\<not> last_running (load night_box)" "as_Failures (load night_box) = None"
    unfolding night_facts(2) by (simp_all add: defaults_def last_running_def)
  have "target_of (check_facts night_world (load night_box) False False) = night_release"
    by (simp add: target_of_def night_facts(4,9) world)
  then show ?thesis
    unfolding decide_update_def Let_def
    by (simp add: state world night_facts(3-7) night_earliest)
qed

lemma night_starts: "Check (fixed_zone 0) night_world night_box = Some (start_update night_world ''v0.6.1'' night_box)"
proof -
  have calm: "unitActive (wd_unitCheck night_world) = False" "held night_world = False"
    using night_facts(8) by (simp_all add: night_world_def held_def)
  have "as_Enabled (load night_box)" by (simp add: night_facts(2))
  then show ?thesis
    unfolding Check_eq Let_def night_facts(1) night_facts(4,5,7)
    by (simp add: night_earliest night_decides calm)
qed

lemma night_started: "bx_started (start_update night_world ''v0.6.1'' night_box) = [''v0.6.1'']"
  by (simp add: start_update_started night_world_def night_box_def)

theorem update_starts_only_when_witness:
  "\<exists>p. parse_rfc3339 (rl_PublishedAt night_release) = Some p \<and> p + 24 * hour \<le> wd_now night_world"
proof -
  have "bx_started (start_update night_world ''v0.6.1'' night_box) \<noteq> bx_started night_box"
    unfolding night_started by (simp add: night_box_def)
  note start = update_starts_only_when [OF fixed.local_clock_axioms night_starts this]
  have "settled_release night_world f = no_release" "wd_latest night_world = night_release" for f
    by (simp_all add: settled_release_def night_world_def)
  moreover have "parse_rfc3339 (rl_PublishedAt no_release) = None" by code_simp
  ultimately show ?thesis using start by auto
qed

subsection \<open>At most one attempt a night\<close>

lemma opens_shift:
  "opens_at Z w t k = opens_at Z w t' (k + zn_day Z t - zn_day Z t')"
  "closes_at Z w t k = closes_at Z w t' (k + zn_day Z t - zn_day Z t')"
  by (simp_all add: opens_at_def closes_at_def occurrence_def Let_def algebra_simps)

lemma floor_second_le: "floor_second t \<le> t"
  by (simp add: floor_second_def)

lemma floor_second_ge:
  assumes "a mod second = 0" "a \<le> t"
  shows "a \<le> floor_second t"
proof -
  have "a = second * (a div second)" using assms(1) mult_div_mod_eq [of second a] by simp
  moreover have "floor_second t = second * (t div second)"
    using mult_div_mod_eq [of second t] unfolding floor_second_def by linarith
  moreover have "a div second \<le> t div second" using assms(2) by (rule zdiv_mono1) simp
  ultimately show ?thesis by (metis mult_left_mono zero_le_numeral)
qed

context steady_clock
begin

lemma earliest_now:
  assumes "window_ok w" "earliest Z w t a = Some t"
  shows "\<exists>k. opens_at Z w t k \<le> t \<and> t < closes_at Z w t k \<and> \<not> (opens_at Z w t k \<le> a \<and> a < closes_at Z w t k)"
proof -
  obtain k where "t = max t (opens_at Z w t k)" "\<not> skipped Z w t a k"
    using earliest_first [OF assms(1), of t a] assms(2) by auto
  then show ?thesis by (intro exI [of _ k]) (auto simp: skipped_def max_def split: if_splits)
qed

text \<open>An attempt in a window leaves no time of that window free.\<close>

lemma night_is_over:
  assumes "window_ok w" "opens_at Z w t k \<le> t" "t \<le> t'" "t' < closes_at Z w t k"
  shows "earliest Z w t' (floor_second t) \<noteq> Some t'"
proof
  assume "earliest Z w t' (floor_second t) = Some t'"
  then obtain j where j: "opens_at Z w t' j \<le> t'" "t' < closes_at Z w t' j"
    "\<not> (opens_at Z w t' j \<le> floor_second t \<and> floor_second t < closes_at Z w t' j)"
    using earliest_now [OF assms(1)] by blast
  define i where "i = k + zn_day Z t - zn_day Z t'"
  have i: "opens_at Z w t k = opens_at Z w t' i" "closes_at Z w t k = closes_at Z w t' i"
    unfolding i_def by (rule opens_shift)+
  have "j = i" using attempt_in_one_window [OF assms(1), of t' j t' i] j assms(2-4) i by simp
  moreover have "opens_at Z w t k \<le> floor_second t"
    using assms(2) by (intro floor_second_ge) (simp_all add: opens_at_def occurrence_def whole_seconds Let_def)
  ultimately show False using j(3) i assms(3,4) floor_second_le [of t] by simp
qed

end

text \<open>What settling and starting keep of the file.\<close>

definition same_choice :: "au_state \<Rightarrow> au_state \<Rightarrow> bool" where
  "same_choice s s' \<longleftrightarrow>
     as_Enabled s' = as_Enabled s \<and> as_WindowStart s' = as_WindowStart s \<and> as_WindowEnd s' = as_WindowEnd s"

lemma same_choice_valid: "same_choice s s' \<Longrightarrow> window_valid s' = window_valid s"
  by (simp add: same_choice_def window_valid_def)

lemma fail_keeps: "same_choice s (fst (fail_attempt s))" "attempted (fst (fail_attempt s)) = attempted s"
  by (simp_all add: fail_attempt_def same_choice_def attempted_def Let_def split: option.split)

lemma settle_change_keeps:
  assumes "fst (settle_change u c s) = Some s'"
  shows "same_choice s s'" "attempted s' = attempted s"
proof -
  have "s' = fst (fail_attempt s) \<or> (\<exists>l. as_Last s = Some l \<and>
      s' = s\<lparr>as_Last := Some (l\<lparr>la_Result := resultSucceeded\<rparr>), as_Failures := None\<rparr>)"
    using assms by (auto simp: settle_change_def Let_def split: option.splits if_splits prod.splits)
  then show "same_choice s s'" "attempted s' = attempted s"
    using fail_keeps [of s] by (auto simp: same_choice_def attempted_def)
qed

lemma settle_keeps: "same_choice (load b) (load (settle e b))" "attempted (load (settle e b)) = attempted (load b)"
proof -
  let ?c = "settle_change (unitActive (wd_unitSettle e)) (wd_current e)"
  have "load (settle e b) = load b \<or> fst (?c (load b)) = Some (load (settle e b))"
    using settle_change_keeps(1) [of _ _ "load b"] same_choice_valid [of "load b"]
    by (auto simp: settle_def load_modify split: option.splits)
  then show "same_choice (load b) (load (settle e b))" "attempted (load (settle e b)) = attempted (load b)"
    using settle_change_keeps [of _ _ "load b"] by (auto simp: same_choice_def)
qed

lemma same_window: "same_choice s s' \<Longrightarrow> state_window s' = state_window s"
  by (simp add: same_choice_def state_window_def)

text \<open>After a check that started something and was not told to wait, the file holds the time of the attempt.\<close>

lemma started_attempted:
  assumes "wd_writable e" "wd_Start e v \<noteq> StartBusy" "wd_meanwhile e = []"
  shows "same_choice (load b) (load (start_update e v b))" "attempted (load (start_update e v b)) = floor_second (wd_now e)"
proof -
  define s where "s = (load b)\<lparr>as_Last := Some \<lparr>la_Version = v, la_StartedAt = floor_second (wd_now e), la_Result = resultRunning\<rparr>\<rparr>"
  have s: "same_choice (load b) s" "attempted s = floor_second (wd_now e)" "last_running s"
    by (simp_all add: s_def same_choice_def attempted_def last_running_def)
  have valid: "window_valid s" "window_valid (fst (fail_attempt s))"
    using same_choice_valid [OF s(1)] same_choice_valid [OF fail_keeps(1)] by simp_all
  have r: "load (recorded e v b) = s" using valid assms(3) by (simp add: recorded_def s_def)
  have "load (start_update e v b) = s \<or> load (start_update e v b) = fst (fail_attempt s)"
    using assms(1,2) r s(3) valid
    by (cases "wd_Start e v") (auto simp: start_update_cases load_modify fail_change_def split: prod.split)
  then show "same_choice (load b) (load (start_update e v b))" "attempted (load (start_update e v b)) = floor_second (wd_now e)"
    using s fail_keeps [of s] by (auto simp: same_choice_def)
qed



subsection \<open>The file after any sequence of checks and changes\<close>

inductive au_step :: "zone \<Rightarrow> box \<Rightarrow> box \<Rightarrow> bool" for Z where
  step_settle: "au_step Z b (settle e b)"
| step_check: "Check Z e b = Some b' \<Longrightarrow> au_step Z b b'"
| step_update: "au_step Z b (fst (Update Z e c b))"

inductive au_reach :: "zone \<Rightarrow> box \<Rightarrow> bool" for Z where
  reach_new: "bx_file b = None \<Longrightarrow> au_reach Z b"
| reach_step: "au_reach Z b \<Longrightarrow> au_step Z b b' \<Longrightarrow> au_reach Z b'"

text \<open>The failures that the file counts: one or two, and less than two of the release that is being installed.\<close>

definition counts_ok :: "au_state \<Rightarrow> bool" where
  "counts_ok s \<longleftrightarrow>
     (case as_Failures s of
        None \<Rightarrow> True
      | Some f \<Rightarrow> 1 \<le> fa_Count f \<and> fa_Count f \<le> 2 \<and>
          (case as_Last s of
             None \<Rightarrow> True
           | Some l \<Rightarrow> la_Result l = resultRunning \<longrightarrow> fa_Version f = la_Version l \<longrightarrow> fa_Count f < 2))"

definition file_ok :: "box \<Rightarrow> bool" where
  "file_ok b \<longleftrightarrow> (case bx_file b of None \<Rightarrow> True | Some s \<Rightarrow> window_valid s \<and> counts_ok s)"

lemma results_differ: "resultFailed \<noteq> resultRunning" "resultSucceeded \<noteq> resultRunning"
  by (simp_all add: resultFailed_def resultRunning_def resultSucceeded_def)

lemma counts_ok_load: "file_ok b \<Longrightarrow> counts_ok (load b)"
proof -
  have "counts_ok defaults" by code_simp
  then show "file_ok b \<Longrightarrow> counts_ok (load b)" by (auto simp: file_ok_def load_def window_valid_def split: option.splits)
qed

lemma file_ok_modify:
  assumes "file_ok b" "\<And>s'. fst (ch (load b)) = Some s' \<Longrightarrow> window_valid s' \<and> counts_ok s'"
  shows "file_ok (fst (modify wr ch b))"
  using assms by (auto simp: modify_def file_ok_def Let_def split: prod.splits option.splits)

lemma counts_fail:
  assumes "counts_ok s" "last_running s"
  shows "counts_ok (fst (fail_attempt s))"
  using assms
  by (auto simp: counts_ok_def last_running_def fail_attempt_def Let_def results_differ split: option.splits)

lemma file_ok_settle:
  assumes "file_ok b"
  shows "file_ok (settle e b)"
  unfolding settle_def
proof (rule file_ok_modify [OF assms])
  fix s' assume s': "fst (settle_change (unitActive (wd_unitSettle e)) (wd_current e) (load b)) = Some s'"
  have "window_valid s'" using settle_change_keeps(1) [OF s'] same_choice_valid by fastforce
  moreover have "counts_ok s'"
    using s' counts_fail [OF counts_ok_load [OF assms]]
    by (auto simp: settle_change_def Let_def last_running_def counts_ok_def split: option.splits if_splits prod.splits)
  ultimately show "window_valid s' \<and> counts_ok s'" by blast
qed

lemma file_ok_update:
  assumes "file_ok b"
  shows "file_ok (fst (modify wr (update_change c) b))"
proof (rule file_ok_modify [OF assms])
  fix s' assume s': "fst (update_change c (load b)) = Some s'"
  have "as_Last s' = as_Last (load b)" "as_Failures s' = None \<or> as_Failures s' = as_Failures (load b)" "window_valid s'"
    using s' by (auto simp: update_change_def apply_change_def Let_def split: option.splits if_splits)
  then show "window_valid s' \<and> counts_ok s'"
    using counts_ok_load [OF assms] by (auto simp: counts_ok_def split: option.splits)
qed

lemma file_ok_meanwhile: "file_ok b \<Longrightarrow> file_ok (foldl (\<lambda>x c. fst (modify wr (update_change c) x)) b cs)"
  by (induction cs arbitrary: b) (simp_all add: file_ok_update)

text \<open>The version of the attempt and its result are the check's to write, not the owner's.\<close>

lemma last_meanwhile: "as_Last (load (foldl (\<lambda>x c. fst (modify wr (update_change c) x)) b cs)) = as_Last (load b)"
proof (induction cs arbitrary: b)
  case (Cons c cs)
  have "as_Last (apply_change c s) = as_Last s" for s
    by (simp add: apply_change_def Let_def split: option.split)
  then have "as_Last (load (fst (modify wr (update_change c) b))) = as_Last (load b)"
    by (simp add: load_modify update_change_def Let_def)
  then show ?case using Cons by simp
qed simp

lemma file_ok_start:
  assumes "file_ok b" "\<not> last_running (load b)"
    and "\<And>x. as_Failures (load b) = Some x \<Longrightarrow> fa_Version x = v \<Longrightarrow> fa_Count x < 2"
  shows "file_ok (start_update e v b)"
proof -
  define s where "s = (load b)\<lparr>as_Last := Some \<lparr>la_Version = v, la_StartedAt = floor_second (wd_now e), la_Result = resultRunning\<rparr>\<rparr>"
  have "window_valid s" using same_choice_valid [of "load b" s] by (simp add: s_def same_choice_def)
  moreover have "counts_ok s" using counts_ok_load [OF assms(1)] assms(3) by (auto simp: counts_ok_def s_def split: option.splits)
  ultimately have r: "file_ok (recorded e v b)"
    unfolding recorded_def s_def by (intro file_ok_meanwhile) (simp add: file_ok_def)
  have taken: "file_ok (fst (modify True (take_back v (as_Last (load b))) (recorded e v b)))"
  proof (rule file_ok_modify [OF r])
    fix s' assume "fst (take_back v (as_Last (load b)) (load (recorded e v b))) = Some s'"
    then have "s' = (load (recorded e v b))\<lparr>as_Last := as_Last (load b)\<rparr>"
      by (auto simp: take_back_def split: option.splits if_splits)
    then show "window_valid s' \<and> counts_ok s'"
      using same_choice_valid [of "load (recorded e v b)" s'] counts_ok_load [OF r] assms(2)
      by (auto simp: same_choice_def counts_ok_def last_running_def split: option.splits)
  qed
  have failed: "file_ok (fst (modify True fail_change (recorded e v b)))"
  proof (rule file_ok_modify [OF r])
    fix s' assume "fst (fail_change (load (recorded e v b))) = Some s'"
    then have "last_running (load (recorded e v b))" "s' = fst (fail_attempt (load (recorded e v b)))"
      by (auto simp: fail_change_def split: if_splits prod.splits)
    then show "window_valid s' \<and> counts_ok s'"
      using counts_fail [OF counts_ok_load [OF r]] same_choice_valid [OF fail_keeps(1)] by simp
  qed
  show ?thesis using assms(1) r taken failed by (cases "wd_Start e v") (simp_all add: start_update_cases)
qed

lemma file_ok_step:
  assumes "local_clock Z" "au_step Z b b'" "file_ok b"
  shows "file_ok b'"
  using assms(2)
proof cases
  case (step_settle e)
  then show ?thesis using file_ok_settle [OF assms(3)] by simp
next
  case (step_check e)
  show ?thesis
  proof (cases "b' = settle e b")
    case False
    then obtain rel p where s: "b' = start_update e (rl_Version rel) (settle e b)" "start_allowed Z e (load (settle e b)) rel p"
      using check_start [OF assms(1) step_check] by blast
    show ?thesis
      unfolding s(1) by (rule file_ok_start [OF file_ok_settle [OF assms(3)]]) (use s(2) in \<open>auto simp: start_allowed_def\<close>)
  qed (simp add: file_ok_settle [OF assms(3)])
next
  case (step_update e c)
  have "fst (Update Z e c b) = fst (modify (wd_writable e) (update_change c) b)"
    by (simp add: Update_def Let_def split: prod.split)
  then show ?thesis using step_update file_ok_update [OF assms(3)] by simp
qed

text \<open>
  (C24) Whatever checks and changes a box that started without a file goes through, its file always holds a window that is one, never
  counts more than two failures of a release, and never counts two of a release that is being installed:
  a release that failed twice is not tried again until the owner resumes it.
\<close>

theorem file_always_ok:
  assumes "local_clock Z" "au_reach Z b"
  shows "file_ok b"
  using assms(2)
proof induction
  case (reach_new b)
  then show ?case by (simp add: file_ok_def)
next
  case (reach_step b b')
  then show ?case using file_ok_step [OF assms(1)] by blast
qed

theorem file_always_ok_witness:
  "file_ok (fst (Update (fixed_zone 0) night_world \<lparr>ch_Enabled = Some True, ch_WindowStart = None, ch_WindowEnd = None, ch_Resume = False\<rparr>
     \<lparr>bx_file = None, bx_notified = [], bx_started = []\<rparr>))"
  by (rule file_always_ok [OF fixed.local_clock_axioms reach_step [OF reach_new step_update]]) simp

text \<open>
  A change of the owner's is all or nothing: with a window that is not one nothing is written and the answer says so; otherwise
  the file holds exactly the state before with the fields that were given, and reads back as that.
\<close>

theorem update_all_or_nothing:
  assumes "wd_writable e"
  shows "if window_valid (apply_change c (load b))
         then load (fst (Update Z e c b)) = apply_change c (load b) \<and> snd (Update Z e c b) = Inr (Status Z e (fst (Update Z e c b)))
         else bx_file (fst (Update Z e c b)) = bx_file b \<and> snd (Update Z e c b) = Inl ErrWindow"
  using assms by (auto simp: Update_def modify_def update_change_def Let_def)

theorem update_all_or_nothing_witness:
  "snd (Update (fixed_zone 0) night_world \<lparr>ch_Enabled = None, ch_WindowStart = Some ''04:30'', ch_WindowEnd = None, ch_Resume = False\<rparr> night_box)
     = Inl ErrWindow"
proof -
  have "wd_writable night_world" by (simp add: night_world_def)
  moreover have "\<not> window_valid (apply_change \<lparr>ch_Enabled = None, ch_WindowStart = Some ''04:30'', ch_WindowEnd = None, ch_Resume = False\<rparr> (load night_box))"
    by code_simp
  ultimately show ?thesis using update_all_or_nothing by meson
qed

end
