(* ===== verification/ModuleJob.thy ===== *)
theory ModuleJob
  imports Calendar LineText
begin

section \<open>The job of a module: the reader of its log\<close>

text \<open>
  Models \<open>pkg/modulecmd/jobstate.go\<close>. A job installs, removes or updates a module in a unit of its own, which reports in a log;
  the core keeps nothing in memory and works out how the job is going from the lines of the log, what systemd
  says of the unit and the time. The reader is a record that is fed line by line.
\<close>

subsection \<open>Words\<close>

datatype job_state = JobIdle | JobRunning | JobSucceeded | JobFailed | JobInterrupted | JobRefused

definition KindInstall :: string where "KindInstall = ''install''"
definition KindRemove :: string where "KindRemove = ''remove''"
definition KindUpdate :: string where "KindUpdate = ''update''"

definition ValidKind :: "string \<Rightarrow> bool" where
  "ValidKind kind \<longleftrightarrow> kind = KindInstall \<or> kind = KindRemove \<or> kind = KindUpdate"

definition UndoRolledBack :: string where "UndoRolledBack = ''rolled_back''"
definition UndoIncomplete :: string where "UndoIncomplete = ''rollback_incomplete''"
definition UndoRolledBackWithLeft :: string where "UndoRolledBackWithLeft = ''rolled_back_with_left''"

abbreviation (input) InterruptedAfter :: duration where "InterruptedAfter \<equiv> 30 * second"
abbreviation (input) SilentAfter :: duration where "SilentAfter \<equiv> 30 * minute"
abbreviation (input) clockSlack :: duration where "clockSlack \<equiv> 30 * second"

definition TailLines :: nat where "TailLines = 20"
definition maxLine :: nat where "maxLine = 4096"
definition keptPrefix :: string where "keptPrefix = ''kept_packages: ''"
definition maxKept :: nat where "maxKept = 40"
definition jobMarkerPrefix :: string where "jobMarkerPrefix = ''CASAOS_MODULE_''"

text \<open>The three kinds of marker and the words that begin their lines.\<close>

datatype job_mkind = stepMarker | resultMarker | queuedMarker

primrec job_mkind_word :: "job_mkind \<Rightarrow> string" where
  "job_mkind_word stepMarker = ''CASAOS_MODULE_STEP''"
| "job_mkind_word resultMarker = ''CASAOS_MODULE_RESULT''"
| "job_mkind_word queuedMarker = ''CASAOS_MODULE_QUEUED''"

datatype job_unit = UnitGone | UnitActive | UnitUnknown

definition stepWord :: "string \<Rightarrow> bool" where
  "stepWord s \<longleftrightarrow> s \<noteq> [] \<and> length s \<le> 32 \<and> lower (hd s) \<and> list_all (\<lambda>c. lower c \<or> c = CHR ''_'') (tl s)"

definition codeWord :: "string \<Rightarrow> bool" where
  "codeWord s \<longleftrightarrow>
     s \<noteq> [] \<and> length s \<le> 48 \<and> lower (hd s) \<and> list_all (\<lambda>c. lower c \<or> is_digit c \<or> c = CHR ''_'') (tl s)"

text \<open>\<open>osmodule.ValidPackageName\<close>\<close>

definition has_suffix :: "string \<Rightarrow> string \<Rightarrow> bool" where
  "has_suffix s e \<longleftrightarrow> length e \<le> length s \<and> drop (length s - length e) s = e"

definition ValidPackageName :: "string \<Rightarrow> bool" where
  "ValidPackageName s \<longleftrightarrow>
     2 \<le> length s \<and> length s \<le> 64 \<and> (lower (hd s) \<or> is_digit (hd s)) \<and>
     list_all (\<lambda>c. lower c \<or> is_digit c \<or> c \<in> set ''+.-'') (tl s) \<and>
     \<not> has_suffix s ''-'' \<and> \<not> has_suffix s ''+'' \<and> \<not> has_suffix s ''.deb''"

subsection \<open>Markers\<close>

record job_marker =
  jm_kind :: job_mkind
  jm_nonce :: string
  jm_jobKind :: string
  jm_step :: string
  jm_phase :: string
  jm_verdict :: string
  jm_code :: string
  jm_undo :: string
  jm_at :: instant

definition new_job_marker :: "job_mkind \<Rightarrow> string \<Rightarrow> job_marker" where
  "new_job_marker k nonce =
     \<lparr>jm_kind = k, jm_nonce = nonce, jm_jobKind = [], jm_step = [], jm_phase = [], jm_verdict = [], jm_code = [], jm_undo = [],
      jm_at = zero_time\<rparr>"

definition resultAgrees :: "job_marker \<Rightarrow> bool" where
  "resultAgrees m =
     (let stepOK = jm_step m = ''-'' \<or> stepWord (jm_step m);
          codeOK = codeWord (jm_code m);
          undoOK = jm_undo m = ''-'' \<or> jm_undo m = UndoRolledBack \<or> jm_undo m = UndoRolledBackWithLeft \<or> jm_undo m = UndoIncomplete
      in if jm_verdict m = ''ok'' then jm_step m = ''done'' \<and> jm_code m = ''-'' \<and> jm_undo m = ''-''
         else if jm_verdict m = ''refused'' then jm_step m = ''-'' \<and> codeOK \<and> jm_undo m = ''-''
         else if jm_verdict m = ''failed'' then stepOK \<and> codeOK \<and> undoOK
         else False)"

text \<open>The time of a marker: one that \<open>time.Parse\<close> takes as RFC 3339 and that has the shape of \<open>markerTimeRe\<close>.\<close>

definition markerTime :: "string \<Rightarrow> instant option" where
  "markerTime s = (case parse_rfc3339 s of None \<Rightarrow> None | Some t \<Rightarrow> if layout_fields s = None then None else Some t)"

definition parseJobMarker :: "string \<Rightarrow> string \<Rightarrow> job_marker option" where
  "parseJobMarker line name =
     (let f = split_on CHR '' '' line;
          parsed =
            (if f ! 0 = job_mkind_word stepMarker \<and> length f = 6
             then (let m = (new_job_marker stepMarker (f ! 1))\<lparr>jm_step := f ! 3, jm_phase := f ! 4\<rparr>
                   in if f ! 2 \<noteq> name \<or> \<not> stepWord (jm_step m) \<or>
                         jm_phase m \<noteq> ''begin'' \<and> jm_phase m \<noteq> ''done'' \<and> jm_phase m \<noteq> ''failed'' \<and> jm_phase m \<noteq> ''skipped''
                      then None else Some m)
             else if f ! 0 = job_mkind_word resultMarker \<and> length f = 8
             then (let m = (new_job_marker resultMarker (f ! 1))
                             \<lparr>jm_verdict := f ! 3, jm_step := f ! 4, jm_code := f ! 5, jm_undo := f ! 6\<rparr>
                   in if f ! 2 \<noteq> name \<or> \<not> resultAgrees m then None else Some m)
             else if f ! 0 = job_mkind_word queuedMarker \<and> length f = 5
             then (let m = (new_job_marker queuedMarker (f ! 1))\<lparr>jm_jobKind := f ! 3\<rparr>
                   in if f ! 2 \<noteq> name \<or> \<not> ValidKind (jm_jobKind m) then None else Some m)
             else None)
      in case parsed of
           None \<Rightarrow> None
         | Some m \<Rightarrow>
             if \<not> nonceOK (jm_nonce m) then None
             else (case markerTime (last f) of None \<Rightarrow> None | Some t \<Rightarrow> Some (m\<lparr>jm_at := t\<rparr>)))"

text \<open>\<open>QueuedLine\<close>: the line the core writes, with its new line.\<close>

definition QueuedLine :: "string \<Rightarrow> string \<Rightarrow> string \<Rightarrow> instant \<Rightarrow> string" where
  "QueuedLine name nonce kind at =
     job_mkind_word queuedMarker @ '' '' @ nonce @ '' '' @ name @ '' '' @ kind @ '' '' @ FormatTime at @ [CHR 0x0A]"

subsection \<open>The reader\<close>

record reducer =
  rd_name :: string
  rd_nonce :: string
  rd_fed :: nat
  rd_kind :: string
  rd_first :: instant
  rd_last :: instant
  rd_step :: string
  rd_result :: "job_marker option"
  rd_kept :: "string list option"
  rd_tail :: "string list"

definition NewReducer :: "string \<Rightarrow> string \<Rightarrow> reducer" where
  "NewReducer name nonce =
     \<lparr>rd_name = name, rd_nonce = nonce, rd_fed = 0, rd_kind = [], rd_first = zero_time, rd_last = zero_time, rd_step = [],
      rd_result = None, rd_kept = None, rd_tail = []\<rparr>"

text \<open>\<open>keep\<close>: the names of the sentence about the packages that stay.\<close>

definition keep :: "string \<Rightarrow> reducer \<Rightarrow> reducer" where
  "keep rest r =
     (if rd_result r \<noteq> None then r
      else if rest = ''unknown'' then r\<lparr>rd_kept := None\<rparr>
      else if rest = ''none'' then r\<lparr>rd_kept := Some []\<rparr>
      else (let names = split_on CHR '' '' rest
            in if length names > maxKept then r\<lparr>rd_kept := None\<rparr>
               else if list_all ValidPackageName names \<and> distinct names then r\<lparr>rd_kept := Some names\<rparr>
               else r\<lparr>rd_kept := None\<rparr>))"

definition push_tail :: "string \<Rightarrow> string list \<Rightarrow> string list" where
  "push_tail line t = (if length t = TailLines then tl t else t) @ [line]"

text \<open>The count of the lines and the tail, which has no marker lines.\<close>

definition note_line :: "string \<Rightarrow> reducer \<Rightarrow> reducer" where
  "note_line line r0 =
     (let r1 = r0\<lparr>rd_fed := rd_fed r0 + 1\<rparr>
      in if cut_prefix jobMarkerPrefix line = None then r1\<lparr>rd_tail := push_tail line (rd_tail r1)\<rparr> else r1)"

text \<open>What a marker of the job changes: the part of \<open>Feed\<close> behind the check of the nonce.\<close>

definition take_marker :: "bool \<Rightarrow> job_marker \<Rightarrow> reducer \<Rightarrow> reducer" where
  "take_marker firstLine m r0 =
     (let r1 = (if rd_first r0 = zero_time then r0\<lparr>rd_first := jm_at m\<rparr> else r0);
          r2 = r1\<lparr>rd_last := jm_at m\<rparr>
      in case jm_kind m of
           stepMarker \<Rightarrow> r2\<lparr>rd_step := jm_step m\<rparr>
         | resultMarker \<Rightarrow> r2\<lparr>rd_result := Some m\<rparr>
         | queuedMarker \<Rightarrow> if firstLine then r2\<lparr>rd_kind := jm_jobKind m\<rparr> else r2)"

definition Feed :: "string \<Rightarrow> bool \<Rightarrow> reducer \<Rightarrow> reducer" where
  "Feed line0 whole0 r0 =
     (let firstLine = (rd_fed r0 = 0);
          long = length line0 > maxLine;
          line = (if long then take maxLine line0 else line0);
          whole = (if long then False else whole0);
          r2 = note_line line r0
      in if \<not> whole then r2
         else (case cut_prefix keptPrefix line of
                 Some rest \<Rightarrow> keep rest r2
               | None \<Rightarrow>
                   (case parseJobMarker line (rd_name r2) of
                      None \<Rightarrow> r2
                    | Some m \<Rightarrow>
                        if rd_result r2 \<noteq> None then r2
                        else if rd_nonce r2 = [] then take_marker firstLine m (r2\<lparr>rd_nonce := jm_nonce m\<rparr>)
                        else if jm_nonce m \<noteq> rd_nonce r2 then r2
                        else take_marker firstLine m r2)))"

subsection \<open>The state of the job\<close>

record job =
  jb_Name :: string
  jb_Kind :: string
  jb_State :: job_state
  jb_Step :: string
  jb_Code :: string
  jb_Undo :: string
  jb_KeptPackages :: "string list option"
  jb_StartedAt :: string
  jb_EndedAt :: string
  jb_LogTail :: "string list"

definition stamp :: "instant \<Rightarrow> string" where
  "stamp t = (if t = zero_time then [] else FormatTime t)"

definition dashless :: "string \<Rightarrow> string" where
  "dashless s = (if s = ''-'' then [] else s)"

definition quietState :: "job_unit \<Rightarrow> instant \<Rightarrow> instant list \<Rightarrow> job_state" where
  "quietState unit now signs =
     (let limit = (if unit = UnitUnknown then SilentAfter else InterruptedAfter)
      in if list_ex (\<lambda>t. t \<noteq> zero_time \<and> time_sub now t \<ge> - clockSlack \<and> time_sub now t < limit) signs
         then JobRunning else JobInterrupted)"

definition idle_job :: "string \<Rightarrow> job" where
  "idle_job name =
     \<lparr>jb_Name = name, jb_Kind = [], jb_State = JobIdle, jb_Step = [], jb_Code = [], jb_Undo = [], jb_KeptPackages = None,
      jb_StartedAt = [], jb_EndedAt = [], jb_LogTail = []\<rparr>"

text \<open>\<open>Job\<close>: from what was fed, what systemd says, the time now and the time the log was written.\<close>

definition Job :: "reducer \<Rightarrow> job_unit \<Rightarrow> instant \<Rightarrow> instant \<Rightarrow> job" where
  "Job r unit now logWritten =
     (let job0 = idle_job (rd_name r)
      in if rd_first r = zero_time
         then (if unit = UnitActive then job0\<lparr>jb_State := JobRunning\<rparr>
               else if rd_fed r = 0 \<and> logWritten \<noteq> zero_time then job0\<lparr>jb_State := quietState unit now [logWritten]\<rparr>
               else job0)
         else (let job1 = job0\<lparr>jb_Kind := rd_kind r, jb_StartedAt := stamp (rd_first r), jb_Step := rd_step r,
                               jb_LogTail := filter (\<lambda>l. l \<noteq> []) (map sanitizeLine (rd_tail r))\<rparr>
               in case rd_result r of
                    Some m \<Rightarrow>
                      (let job2 = job1\<lparr>jb_EndedAt := stamp (jm_at m)\<rparr>
                       in if jm_verdict m = ''ok'' then job2\<lparr>jb_State := JobSucceeded, jb_Step := jm_step m\<rparr>
                          else if jm_verdict m = ''refused''
                          then job2\<lparr>jb_State := JobRefused, jb_Step := [], jb_Code := jm_code m\<rparr>
                          else job2\<lparr>jb_State := JobFailed, jb_Code := jm_code m, jb_Step := dashless (jm_step m),
                                    jb_Undo := dashless (jm_undo m), jb_KeptPackages := rd_kept r\<rparr>)
                  | None \<Rightarrow>
                      if unit = UnitActive then job1\<lparr>jb_State := JobRunning\<rparr>
                      else job1\<lparr>jb_State := quietState unit now [rd_last r, logWritten]\<rparr>))"

definition ReduceLines :: "string \<Rightarrow> string \<Rightarrow> string list \<Rightarrow> job_unit \<Rightarrow> instant \<Rightarrow> instant \<Rightarrow> job" where
  "ReduceLines name nonce lines unit now logWritten =
     Job (foldl (\<lambda>r l. Feed l True r) (NewReducer name nonce) lines) unit now logWritten"

end
