(* ===== verification/ModuleRun.thy ===== *)
theory ModuleRun
  imports ModuleJob
begin

section \<open>The job of a module: the writers of its log\<close>

text \<open>
  Models the two writers of the log of a module and the file they write: the core, which puts the first line before it starts the
  unit and a last line when the unit could not be started (\<open>pkg/modulecmd/queue.go\<close>), and the run in the unit
  (\<open>pkg/modulecmd/job.go\<close>); and the reader of the file (\<open>pkg/modulecmd/jobio.go\<close>). The file is a value: not there, a regular file
  with its bytes, or something else. What the host answers (folders, the lock, the calls on the file) is a parameter.
\<close>

definition newline :: char where "newline = CHR 0x0A"

datatype log_file = NoLog | LogFile string | NotRegular

subsection \<open>The run in the unit\<close>

record job_run =
  jr_name :: string
  jr_nonce :: string
  jr_log :: "string option"
  jr_stdout :: string
  jr_tool :: int
  jr_openStep :: string

definition newJob :: "string \<Rightarrow> string \<Rightarrow> job_run" where
  "newJob env_nonce name =
     \<lparr>jr_name = name, jr_nonce = (if \<not> nonceOK env_nonce then ''-'' else env_nonce), jr_log = None, jr_stdout = [],
      jr_tool = 0, jr_openStep = []\<rparr>"

definition maxQueuedLine :: nat where "maxQueuedLine = 256"

definition queuedLength :: "job_run \<Rightarrow> string \<Rightarrow> string \<Rightarrow> nat" where
  "queuedLength j content kind =
     (let buf = take maxQueuedLine content
      in if newline \<notin> set buf then 0
         else (let first = takeWhile (\<lambda>c. c \<noteq> newline) buf
               in case parseJobMarker first (jr_name j) of
                    None \<Rightarrow> 0
                  | Some m \<Rightarrow>
                      if jm_kind m \<noteq> queuedMarker \<or> jm_nonce m \<noteq> jr_nonce j \<or> jm_jobKind m \<noteq> kind then 0
                      else length first + 1))"

text \<open>The answers of the host while the log is opened, each whether it was no error.\<close>

record open_answers =
  oa_dirs :: bool
  oa_open :: bool
  oa_truncate :: bool
  oa_seek :: bool
  oa_chmod :: bool

definition openLog :: "open_answers \<Rightarrow> string \<Rightarrow> job_run \<Rightarrow> log_file \<Rightarrow> (job_run \<times> log_file) \<times> bool" where
  "openLog host kind j file =
     (if \<not> oa_dirs host then ((j, file), False)
      else if \<not> oa_open host then ((j, file), False)
      else (case file of
              NotRegular \<Rightarrow> ((j, file), False)
            | _ \<Rightarrow>
                (let content = (case file of LogFile c \<Rightarrow> c | _ \<Rightarrow> []);
                     kept = take (queuedLength j content kind) content
                 in if \<not> oa_truncate host then ((j, LogFile content), False)
                    else if \<not> oa_seek host then ((j, LogFile kept), False)
                    else ((j\<lparr>jr_log := Some kept\<rparr>, LogFile kept), oa_chmod host))))"

definition append_log :: "string \<Rightarrow> job_run \<Rightarrow> job_run" where
  "append_log t j = (case jr_log j of None \<Rightarrow> j | Some l \<Rightarrow> j\<lparr>jr_log := Some (l @ t)\<rparr>)"

definition say :: "string \<Rightarrow> job_run \<Rightarrow> job_run" where
  "say text j = (let line = text @ [newline] in append_log line (j\<lparr>jr_stdout := jr_stdout j @ line\<rparr>))"

text \<open>The words of a line of the run, with one blank between them.\<close>

definition say_words :: "string list \<Rightarrow> job_run \<Rightarrow> job_run" where
  "say_words ws = say (join_on CHR '' '' ws)"

definition say_marker :: "instant \<Rightarrow> string \<Rightarrow> string \<Rightarrow> job_run \<Rightarrow> job_run" where
  "say_marker now step phase j =
     (let j1 = j\<lparr>jr_openStep := (if phase = ''begin'' then step else [])\<rparr>
      in say_words [job_mkind_word stepMarker, jr_nonce j, jr_name j, step, phase, FormatTime now] j1)"

definition say_result :: "instant \<Rightarrow> string \<Rightarrow> string \<Rightarrow> string \<Rightarrow> string \<Rightarrow> job_run \<Rightarrow> job_run" where
  "say_result now verdict step code undo j =
     say_words [job_mkind_word resultMarker, jr_nonce j, jr_name j, verdict, if step = [] then ''-'' else step,
                if code = [] then ''-'' else code, undo, FormatTime now] j"

definition maxToolOutput :: int where "maxToolOutput = 2 ^ 20"

definition flush_line :: "string \<Rightarrow> job_run \<Rightarrow> job_run" where
  "flush_line line j =
     (if jr_log j = None \<or> jr_tool j > maxToolOutput then j
      else (let text = ''| '' @ printable line 400 @ [newline];
                j1 = j\<lparr>jr_tool := jr_tool j + int (length text)\<rparr>
            in append_log (if jr_tool j1 > maxToolOutput then ''| [the output is cut here]'' @ [newline] else text) j1))"

text \<open>The loop of \<open>lineWriter.Write\<close> over the lines of the buffer.\<close>

function flush_lines :: "string \<Rightarrow> job_run \<Rightarrow> string \<times> job_run" where
  "flush_lines buf j =
     (case dropWhile (\<lambda>c. c \<noteq> newline) buf of
        [] \<Rightarrow> (buf, j)
      | _ # rest \<Rightarrow> flush_lines rest (flush_line (takeWhile (\<lambda>c. c \<noteq> newline) buf) j))"
  by pat_completeness auto
termination
proof (relation "measure (\<lambda>(buf, j). length buf)")
  fix buf :: string and j :: job_run and x xs
  assume "dropWhile (\<lambda>c. c \<noteq> newline) buf = x # xs"
  then have "length (x # xs) \<le> length buf" by (metis length_dropWhile_le)
  then show "((xs, flush_line (takeWhile (\<lambda>c. c \<noteq> newline) buf) j), buf, j) \<in> measure (\<lambda>(buf, j). length buf)" by simp
qed simp

declare flush_lines.simps [simp del]

definition line_write :: "string \<Rightarrow> string \<times> job_run \<Rightarrow> string \<times> job_run" where
  "line_write p w =
     (case flush_lines (fst w @ p) (snd w) of
        (buf, j) \<Rightarrow> if length buf > 4096 then ([], flush_line buf j) else (buf, j))"

text \<open>What a command printed, chunk by chunk, through a writer of its own.\<close>

definition tool_output :: "string list \<Rightarrow> job_run \<Rightarrow> job_run" where
  "tool_output chunks j = snd (foldl (\<lambda>w p. line_write p w) ([], j) chunks)"

definition failOpen :: "instant \<Rightarrow> job_run \<Rightarrow> job_run \<times> string" where
  "failOpen now j =
     (let step = jr_openStep j in if step = [] then (j, ''-'') else (say_marker now step ''failed'' j, step))"

text \<open>\<open>recoverRun\<close> for a panic whose text and stack are \<open>trace\<close>; the exit status is 3.\<close>

definition CodeInternal :: string where "CodeInternal = ''internal_error''"

definition recoverRun :: "instant \<Rightarrow> string \<Rightarrow> string \<Rightarrow> job_run \<Rightarrow> job_run \<times> int" where
  "recoverRun now trace undo j =
     (case failOpen now (tool_output [trace] j) of
        (j1, step) \<Rightarrow>
          (let j2 = say (if step = ''-'' then ''failed: '' @ CodeInternal else ''failed at step '' @ step @ '': '' @ CodeInternal) j1
           in (say_result now ''failed'' step CodeInternal undo j2, 3)))"

subsection \<open>The core: the first line and the last line\<close>

datatype lock_answer = LockTaken | LockBusy | LockError

datatype queue_error =
    errBadJob | errFolder | errUnsafe | ErrLockHeld | errLock | ErrLogChanged | errLog | errWrite

record queue_host =
  qh_stateDir :: bool
  qh_safe :: bool
  qh_lockFile :: "bool option"
  qh_lock :: "nat \<Rightarrow> lock_answer"
  qh_logsDir :: bool
  qh_readable :: bool
  qh_write :: bool

definition lockTries :: nat where "lockTries = 3"

text \<open>\<open>takeLock\<close>: the tries that are left, from the first on.\<close>

primrec take_lock_from :: "(nat \<Rightarrow> lock_answer) \<Rightarrow> nat \<Rightarrow> nat \<Rightarrow> lock_answer" where
  "take_lock_from lock 0 try = lock try"
| "take_lock_from lock (Suc left) try =
     (if lock try \<noteq> LockBusy then lock try else take_lock_from lock left (try + 1))"

definition takeLock :: "queue_host \<Rightarrow> lock_answer" where
  "takeLock host = take_lock_from (qh_lock host) (lockTries - 1) 1"

definition withLock :: "queue_host \<Rightarrow> (log_file \<Rightarrow> log_file \<times> queue_error option) \<Rightarrow> log_file \<Rightarrow> log_file \<times> queue_error option" where
  "withLock host write file =
     (if \<not> qh_stateDir host then (file, Some errFolder)
      else if \<not> qh_safe host then (file, Some errUnsafe)
      else (case takeLock host of
              LockBusy \<Rightarrow> (file, Some ErrLockHeld)
            | LockError \<Rightarrow> (file, Some errLock)
            | LockTaken \<Rightarrow> if \<not> qh_logsDir host then (file, Some errFolder) else write file))"

text \<open>\<open>LockHeld\<close>: \<open>qh_lockFile\<close> is \<open>Some False\<close> when the file of the lock is not there.\<close>

definition LockHeld :: "queue_host \<Rightarrow> queue_error + bool" where
  "LockHeld host =
     (if qh_lockFile host = Some False then Inr False
      else (case qh_lock host 1 of LockTaken \<Rightarrow> Inr False | LockBusy \<Rightarrow> Inr True | LockError \<Rightarrow> Inl errLock))"

text \<open>\<open>writeFileAtomic\<close>: the whole text, or the file as it was.\<close>

definition write_file :: "queue_host \<Rightarrow> string \<Rightarrow> log_file \<Rightarrow> log_file \<times> queue_error option" where
  "write_file host t file = (if qh_write host then (LogFile t, None) else (file, Some errWrite))"

definition moduleName :: "string \<Rightarrow> bool" where
  "moduleName s \<longleftrightarrow>
     s \<noteq> [] \<and> length s \<le> 32 \<and> lower (hd s) \<and> list_all (\<lambda>c. lower c \<or> is_digit c \<or> c = CHR ''-'') (tl s)"

definition Queue :: "queue_host \<Rightarrow> string \<Rightarrow> string \<Rightarrow> string \<Rightarrow> instant \<Rightarrow> log_file \<Rightarrow> log_file \<times> queue_error option" where
  "Queue host name nonce kind at file =
     (if \<not> moduleName name \<or> \<not> nonceOK nonce \<or> \<not> ValidKind kind then (file, Some errBadJob)
      else withLock host (write_file host (QueuedLine name nonce kind at)) file)"

definition logIsOnly :: "queue_host \<Rightarrow> string \<Rightarrow> log_file \<Rightarrow> queue_error option" where
  "logIsOnly host want file =
     (case file of
        NoLog \<Rightarrow> None
      | NotRegular \<Rightarrow> Some errLog
      | LogFile c \<Rightarrow>
          if \<not> qh_readable host then Some errLog
          else if take (length want + 1) c \<noteq> want then Some ErrLogChanged else None)"

definition CodeStartFailed :: string where "CodeStartFailed = ''start_failed''"

definition said_lines :: "string list \<Rightarrow> string list" where
  "said_lines said = filter (\<lambda>l. l \<noteq> []) (map (\<lambda>l. printable (sanitizeLine l) 200) (take 3 said))"

definition abandoned_log :: "string \<Rightarrow> string \<Rightarrow> string \<Rightarrow> instant \<Rightarrow> instant \<Rightarrow> string list \<Rightarrow> string" where
  "abandoned_log name nonce kind queuedAt at said =
     QueuedLine name nonce kind queuedAt @ ''failed: '' @ CodeStartFailed @ [newline] @
     concat (map (\<lambda>l. ''| '' @ l @ [newline]) (said_lines said)) @
     join_on CHR '' '' [job_mkind_word resultMarker, nonce, name, ''failed'', ''-'', CodeStartFailed, ''-'', FormatTime at] @ [newline]"

definition Abandon ::
  "queue_host \<Rightarrow> string \<Rightarrow> string \<Rightarrow> string \<Rightarrow> instant \<Rightarrow> instant \<Rightarrow> string list \<Rightarrow> log_file \<Rightarrow> log_file \<times> queue_error option" where
  "Abandon host name nonce kind queuedAt at said file =
     (if \<not> moduleName name \<or> \<not> nonceOK nonce \<or> \<not> ValidKind kind then (file, Some errBadJob)
      else withLock host
             (\<lambda>f. case logIsOnly host (QueuedLine name nonce kind queuedAt) f of
                    Some e \<Rightarrow> (f, Some e)
                  | None \<Rightarrow> write_file host (abandoned_log name nonce kind queuedAt at said) f)
             file)"

subsection \<open>The reader of the file\<close>

text \<open>\<open>scanLines\<close>: a buffer of \<open>maxLine\<close> bytes; a line that does not end in it is given cut, and its rest is dropped.\<close>

function scanLines :: "string \<Rightarrow> bool \<Rightarrow> reducer \<Rightarrow> reducer" where
  "scanLines bytes skipping r =
     (let buf = take maxLine bytes; line = takeWhile (\<lambda>c. c \<noteq> newline) buf
      in if newline \<in> set buf
         then scanLines (drop (length line + 1) bytes) False (if skipping then r else Feed line True r)
         else if length bytes \<ge> maxLine
         then scanLines (drop maxLine bytes) True (if skipping then r else Feed buf False r)
         else if \<not> skipping \<and> bytes \<noteq> [] then Feed bytes False r else r)"
  by pat_completeness auto
termination
  by (relation "measure (\<lambda>(bytes, skipping, r). length bytes)") (auto simp: maxLine_def dest: in_set_takeD intro!: Nat.diff_less)

declare scanLines.simps [simp del]

definition logScanBytes :: nat where "logScanBytes = 8 * 2 ^ 20"

definition scanLog :: "string \<Rightarrow> reducer \<Rightarrow> reducer" where
  "scanLog bytes r =
     (if length bytes \<le> logScanBytes then scanLines bytes False r
      else (let half = logScanBytes div 2
            in scanLines (drop (length bytes - half - 1) bytes) True (scanLines (take half bytes) False r)))"

datatype read_error = errName | errOpen | errNotRegular

definition ReadJob :: "bool \<Rightarrow> string \<Rightarrow> log_file \<Rightarrow> instant \<Rightarrow> job_unit \<Rightarrow> instant \<Rightarrow> read_error + job" where
  "ReadJob readable name file written unit now =
     (if \<not> moduleName name then Inl errName
      else (case file of
              NoLog \<Rightarrow> Inr (Job (NewReducer name []) unit now zero_time)
            | NotRegular \<Rightarrow> Inl errNotRegular
            | LogFile bytes \<Rightarrow>
                if \<not> readable then Inl errOpen
                else Inr (Job (scanLog bytes (NewReducer name [])) unit now written)))"

end
