(* ===== verification/ModuleJobFacts.thy ===== *)
theory ModuleJobFacts
  imports ModuleRun
begin

section \<open>The job of a module: what the reader reads\<close>

text \<open>
  The lines of the three markers and what they are read as, and the meaning of a log: the reader, which is fed line by line and forgets
  the lines, is a refinement of a reading of the whole list of markers of the job.
\<close>

subsection \<open>Lines of markers\<close>

lemma FormatTime_plain: "datable t \<Longrightarrow> CHR '' '' \<notin> set (FormatTime t) \<and> newline \<notin> set (FormatTime t)"
  using FormatTime_free by (simp add: newline_def)

lemma markerTime_FormatTime:
  assumes "datable t"
  shows "markerTime (FormatTime t) = Some (whole_second t)"
proof -
  obtain x where "layout_fields (FormatTime t) = Some x"
    using layout_FormatTime assms unfolding datable_def by metis
  then show ?thesis by (cases x) (simp add: markerTime_def parse_FormatTime assms)
qed

lemma class_plain:
  "list_all P s \<Longrightarrow> \<not> P (CHR '' '') \<Longrightarrow> \<not> P newline \<Longrightarrow> CHR '' '' \<notin> set s \<and> newline \<notin> set s"
  by (auto simp: list_all_iff)

lemma words_plain:
  "stepWord s \<Longrightarrow> CHR '' '' \<notin> set s \<and> newline \<notin> set s"
  "codeWord s \<Longrightarrow> CHR '' '' \<notin> set s \<and> newline \<notin> set s"
  "moduleName s \<Longrightarrow> CHR '' '' \<notin> set s \<and> newline \<notin> set s"
proof -
  show "stepWord s \<Longrightarrow> CHR '' '' \<notin> set s \<and> newline \<notin> set s"
    by (rule class_plain [of "\<lambda>c. lower c \<or> c = CHR ''_''"]; cases s) (simp_all add: stepWord_def lower_def newline_def)
  show "codeWord s \<Longrightarrow> CHR '' '' \<notin> set s \<and> newline \<notin> set s"
    by (rule class_plain [of "\<lambda>c. lower c \<or> is_digit c \<or> c = CHR ''_''"]; cases s) (simp_all add: codeWord_def lower_def newline_def)
  show "moduleName s \<Longrightarrow> CHR '' '' \<notin> set s \<and> newline \<notin> set s"
    by (rule class_plain [of "\<lambda>c. lower c \<or> is_digit c \<or> c = CHR ''-''"]; cases s) (simp_all add: moduleName_def lower_def newline_def)
qed

lemma nonceOK_plain: "nonceOK s \<Longrightarrow> CHR '' '' \<notin> set s \<and> newline \<notin> set s"
  using nonceOK_free by (simp add: newline_def)

lemma ValidKind_plain: "ValidKind k \<Longrightarrow> CHR '' '' \<notin> set k \<and> newline \<notin> set k"
  by (auto simp: ValidKind_def KindInstall_def KindRemove_def KindUpdate_def newline_def)

lemma resultAgrees_plain:
  assumes "resultAgrees m" "w \<in> {jm_verdict m, jm_step m, jm_code m, jm_undo m}"
  shows "CHR '' '' \<notin> set w \<and> newline \<notin> set w"
proof -
  have "jm_verdict m \<in> {''ok'', ''refused'', ''failed''}"
    "jm_step m \<in> {''-'', ''done''} \<or> stepWord (jm_step m)" "jm_code m = ''-'' \<or> codeWord (jm_code m)"
    "jm_undo m \<in> {''-'', ''rolled_back'', ''rolled_back_with_left'', ''rollback_incomplete''}"
    using assms(1)
    by (auto simp: resultAgrees_def UndoRolledBack_def UndoIncomplete_def UndoRolledBackWithLeft_def Let_def split: if_splits)
  then have "CHR '' '' \<notin> set (jm_verdict m) \<and> newline \<notin> set (jm_verdict m)" "CHR '' '' \<notin> set (jm_step m) \<and> newline \<notin> set (jm_step m)"
    "CHR '' '' \<notin> set (jm_code m) \<and> newline \<notin> set (jm_code m)" "CHR '' '' \<notin> set (jm_undo m) \<and> newline \<notin> set (jm_undo m)"
    by (elim insertE disjE emptyE; simp add: words_plain; simp add: newline_def)+
  then show ?thesis using assms(2) by blast
qed

lemma resultAgrees_at: "resultAgrees (m\<lparr>jm_at := t\<rparr>) = resultAgrees m"
  by (simp add: resultAgrees_def)

definition step_of :: "string \<Rightarrow> string \<Rightarrow> string \<Rightarrow> instant \<Rightarrow> job_marker" where
  "step_of nonce step phase t = (new_job_marker stepMarker nonce)\<lparr>jm_step := step, jm_phase := phase, jm_at := whole_second t\<rparr>"

definition result_of_run :: "string \<Rightarrow> string \<Rightarrow> string \<Rightarrow> string \<Rightarrow> string \<Rightarrow> instant \<Rightarrow> job_marker" where
  "result_of_run nonce verdict step code undo t =
     (new_job_marker resultMarker nonce)
       \<lparr>jm_verdict := verdict, jm_step := step, jm_code := code, jm_undo := undo, jm_at := whole_second t\<rparr>"

definition queued_of :: "string \<Rightarrow> string \<Rightarrow> instant \<Rightarrow> job_marker" where
  "queued_of nonce kind t = (new_job_marker queuedMarker nonce)\<lparr>jm_jobKind := kind, jm_at := whole_second t\<rparr>"

lemmas nth_words = nth_Cons_0 nth_Cons_Suc numeral_eq_Suc pred_numeral_simps

lemma parse_step_line:
  assumes "nonceOK nonce" "moduleName name" "stepWord step" "phase \<in> {''begin'', ''done'', ''failed'', ''skipped''}" "datable t"
  shows "parseJobMarker (join_on CHR '' '' [job_mkind_word stepMarker, nonce, name, step, phase, FormatTime t]) name
           = Some (step_of nonce step phase t)"
proof -
  let ?ws = "[job_mkind_word stepMarker, nonce, name, step, phase, FormatTime t]"
  have "split_on CHR '' '' (join_on CHR '' '' ?ws) = ?ws"
    using assms words_plain nonceOK_plain FormatTime_plain by (intro split_join_on) auto
  then show ?thesis
    using assms markerTime_FormatTime [of t]
    by (auto simp: parseJobMarker_def Let_def new_job_marker_def step_of_def)
qed

lemma parse_result_line:
  assumes "nonceOK nonce" "moduleName name" "datable t" "resultAgrees (result_of_run nonce verdict step code undo t)"
  shows "parseJobMarker (join_on CHR '' '' [job_mkind_word resultMarker, nonce, name, verdict, step, code, undo, FormatTime t]) name
           = Some (result_of_run nonce verdict step code undo t)"
proof -
  let ?ws = "[job_mkind_word resultMarker, nonce, name, verdict, step, code, undo, FormatTime t]"
  have "CHR '' '' \<notin> set verdict" "CHR '' '' \<notin> set step" "CHR '' '' \<notin> set code" "CHR '' '' \<notin> set undo"
    using resultAgrees_plain [OF assms(4)] by (auto simp: result_of_run_def)
  then have "split_on CHR '' '' (join_on CHR '' '' ?ws) = ?ws"
    using assms words_plain nonceOK_plain FormatTime_plain by (intro split_join_on) auto
  moreover have "resultAgrees ((result_of_run nonce verdict step code undo t)\<lparr>jm_at := zero_time\<rparr>)"
    unfolding resultAgrees_at by (rule assms(4))
  ultimately show ?thesis
    using assms markerTime_FormatTime [of t]
    by (simp add: parseJobMarker_def Let_def new_job_marker_def result_of_run_def)
qed

lemma QueuedLine_words:
  "QueuedLine name nonce kind t = join_on CHR '' '' [job_mkind_word queuedMarker, nonce, name, kind, FormatTime t] @ [newline]"
  by (simp add: QueuedLine_def newline_def)

lemma parse_queued_line:
  assumes "nonceOK nonce" "moduleName name" "ValidKind kind" "datable t"
  shows "parseJobMarker (join_on CHR '' '' [job_mkind_word queuedMarker, nonce, name, kind, FormatTime t]) name
           = Some (queued_of nonce kind t)"
proof -
  let ?ws = "[job_mkind_word queuedMarker, nonce, name, kind, FormatTime t]"
  have "split_on CHR '' '' (join_on CHR '' '' ?ws) = ?ws"
    using assms words_plain nonceOK_plain ValidKind_plain FormatTime_plain by (intro split_join_on) auto
  then show ?thesis
    using assms markerTime_FormatTime [of t]
    by (simp add: parseJobMarker_def Let_def new_job_marker_def queued_of_def)
qed

text \<open>Whatever is a marker begins with the prefix of the markers and carries a nonce.\<close>

lemma split_on_prefix: "split_on c s ! 0 = w \<Longrightarrow> take (length w) s = w"
proof -
  assume w: "split_on c s ! 0 = w"
  obtain u us where u: "split_on c s = u # us" by (cases "split_on c s") auto
  have "s = join_on c (u # us)" using u join_split_on [of c s] by simp
  then show ?thesis using w u by (cases us) auto
qed

lemma parseJobMarker_facts:
  assumes "parseJobMarker line name = Some m"
  shows "nonceOK (jm_nonce m)" "\<exists>r. line = jobMarkerPrefix @ r" "jm_kind m = resultMarker \<Longrightarrow> resultAgrees m"
    "jm_kind m = queuedMarker \<Longrightarrow> ValidKind (jm_jobKind m)"
proof -
  show "nonceOK (jm_nonce m)"
    using assms by (auto simp: parseJobMarker_def Let_def split: option.splits if_splits)
  show "resultAgrees m" if "jm_kind m = resultMarker"
    using assms that resultAgrees_at
    by (auto simp: parseJobMarker_def Let_def new_job_marker_def split: option.splits if_splits)
  show "ValidKind (jm_jobKind m)" if "jm_kind m = queuedMarker"
    using assms that by (auto simp: parseJobMarker_def Let_def new_job_marker_def split: option.splits if_splits)
  obtain k where "split_on CHR '' '' line ! 0 = job_mkind_word k"
    using assms by (auto simp: parseJobMarker_def Let_def simp del: job_mkind_word.simps split: option.splits if_splits)
  then have "take (length (job_mkind_word k)) line = job_mkind_word k" by (rule split_on_prefix)
  then have "line = job_mkind_word k @ drop (length (job_mkind_word k)) line" by (metis append_take_drop_id)
  moreover have "\<exists>q. job_mkind_word k = jobMarkerPrefix @ q" by (cases k) (simp_all add: jobMarkerPrefix_def)
  ultimately show "\<exists>r. line = jobMarkerPrefix @ r" by (metis append.assoc)
qed

lemma marker_not_kept: "parseJobMarker line name = Some m \<Longrightarrow> cut_prefix keptPrefix line = None"
  using parseJobMarker_facts(2) by (fastforce simp: keptPrefix_def jobMarkerPrefix_def)

end
