(* ===== verification/ModuleReading.thy ===== *)
theory ModuleReading
  imports ModuleJobFacts LineReader
begin

section \<open>The job of a module: the meaning of a log\<close>

text \<open>
  An abstract reading of a log as a whole, and that the reader which is fed line by line refines it; what follows for the job that is
  shown: a result is final, what the tools print says nothing, and what is shown of the log is short and printable.
\<close>

subsection \<open>The reading of a whole log\<close>

text \<open>A line that was fed, with whether it was whole, and the marker it is.\<close>

type_synonym fed_line = "string \<times> bool"

definition feed_all :: "reducer \<Rightarrow> fed_line list \<Rightarrow> reducer" where
  "feed_all = foldl (\<lambda>r (l, whole). Feed l whole r)"

definition marker_of :: "string \<Rightarrow> fed_line \<Rightarrow> job_marker option" where
  "marker_of name x = (if \<not> snd x \<or> length (fst x) > maxLine then None else parseJobMarker (fst x) name)"

definition markers_of :: "string \<Rightarrow> fed_line list \<Rightarrow> job_marker list" where
  "markers_of name xs = List.map_filter (marker_of name) xs"

definition nonce_of :: "string \<Rightarrow> string \<Rightarrow> fed_line list \<Rightarrow> string" where
  "nonce_of name nonce xs =
     (if nonce \<noteq> [] then nonce else case markers_of name xs of [] \<Rightarrow> [] | m # _ \<Rightarrow> jm_nonce m)"

abbreviation is_result :: "job_marker \<Rightarrow> bool" where
  "is_result m \<equiv> jm_kind m = resultMarker"

text \<open>The markers of the job up to its first result.\<close>

fun until_result :: "job_marker list \<Rightarrow> job_marker list" where
  "until_result [] = []"
| "until_result (m # ms) = (if is_result m then [m] else m # until_result ms)"

definition own_markers :: "string \<Rightarrow> string \<Rightarrow> fed_line list \<Rightarrow> job_marker list" where
  "own_markers name nonce xs =
     until_result (filter (\<lambda>m. jm_nonce m = nonce_of name nonce xs) (markers_of name xs))"

record job_word =
  jw_nonce :: string
  jw_kind :: string
  jw_first :: instant
  jw_last :: instant
  jw_step :: string
  jw_result :: "job_marker option"

definition time_of :: "job_marker list \<Rightarrow> instant" where
  "time_of ms = (case ms of [] \<Rightarrow> zero_time | m # _ \<Rightarrow> jm_at m)"

definition first_kind :: "string \<Rightarrow> string \<Rightarrow> fed_line list \<Rightarrow> string" where
  "first_kind name nonce xs =
     (case xs of
        [] \<Rightarrow> []
      | x # _ \<Rightarrow>
          (case marker_of name x of
             Some m \<Rightarrow> if jm_kind m = queuedMarker \<and> jm_nonce m = nonce_of name nonce xs then jm_jobKind m else []
           | None \<Rightarrow> []))"

definition read_log :: "string \<Rightarrow> string \<Rightarrow> fed_line list \<Rightarrow> job_word" where
  "read_log name nonce xs =
     (let ms = own_markers name nonce xs
      in \<lparr>jw_nonce = nonce_of name nonce xs, jw_kind = first_kind name nonce xs,
          jw_first = time_of (filter (\<lambda>m. jm_at m \<noteq> zero_time) ms), jw_last = time_of (rev ms),
          jw_step = (case filter (\<lambda>m. jm_kind m = stepMarker) (rev ms) of [] \<Rightarrow> [] | m # _ \<Rightarrow> jm_step m),
          jw_result = List.find is_result ms\<rparr>)"

text \<open>What the reader holds of that.\<close>

definition word_of :: "reducer \<Rightarrow> job_word" where
  "word_of r =
     \<lparr>jw_nonce = rd_nonce r, jw_kind = rd_kind r, jw_first = rd_first r, jw_last = rd_last r, jw_step = rd_step r,
      jw_result = rd_result r\<rparr>"

lemma word_of_fields [simp]: "jw_nonce (word_of r) = rd_nonce r" "jw_result (word_of r) = rd_result r"
  by (simp_all add: word_of_def)

subsection \<open>The refinement\<close>

definition hears :: "job_marker \<Rightarrow> job_word \<Rightarrow> bool" where
  "hears m w \<longleftrightarrow> jw_result w = None \<and> (jw_nonce w = [] \<or> jm_nonce m = jw_nonce w)"

definition hear :: "bool \<Rightarrow> job_marker \<Rightarrow> job_word \<Rightarrow> job_word" where
  "hear firstLine m w =
     (if \<not> hears m w then w
      else \<lparr>jw_nonce = jm_nonce m, jw_kind = (if jm_kind m = queuedMarker \<and> firstLine then jm_jobKind m else jw_kind w),
            jw_first = (if jw_first w = zero_time then jm_at m else jw_first w), jw_last = jm_at m,
            jw_step = (if jm_kind m = stepMarker then jm_step m else jw_step w),
            jw_result = (if is_result m then Some m else None)\<rparr>)"

lemma keep_word [simp]: "word_of (keep rest r) = word_of r" "rd_fed (keep rest r) = rd_fed r" "rd_name (keep rest r) = rd_name r"
  "rd_tail (keep rest r) = rd_tail r"
  by (simp_all add: keep_def word_of_def Let_def)

lemma take_marker_fields [simp]:
  "rd_fed (take_marker b m r) = rd_fed r" "rd_name (take_marker b m r) = rd_name r" "rd_tail (take_marker b m r) = rd_tail r"
  "rd_nonce (take_marker b m r) = rd_nonce r" "rd_kept (take_marker b m r) = rd_kept r"
  by (simp_all add: take_marker_def Let_def split: job_mkind.split)

lemma take_marker_word:
  "rd_result r = None \<Longrightarrow> rd_nonce r = jm_nonce m \<Longrightarrow> word_of (take_marker b m r) = hear b m (word_of r)"
  by (simp add: take_marker_def hear_def hears_def word_of_def Let_def split: job_mkind.split)

lemma note_line_fields [simp]:
  "word_of (note_line l r) = word_of r" "rd_name (note_line l r) = rd_name r" "rd_nonce (note_line l r) = rd_nonce r"
  "rd_result (note_line l r) = rd_result r" "rd_fed (note_line l r) = rd_fed r + 1" "rd_kept (note_line l r) = rd_kept r"
  by (simp_all add: note_line_def word_of_def Let_def)

lemma Feed_fields [simp]: "rd_fed (Feed l w r) = rd_fed r + 1" "rd_name (Feed l w r) = rd_name r"
  by (auto simp: Feed_def Let_def split: option.split)

lemma Feed_marker:
  assumes "marker_of (rd_name r) (l, w) = Some m"
  shows "Feed l w r =
    (let r2 = note_line l r
     in if rd_result r \<noteq> None \<or> rd_nonce r \<noteq> [] \<and> jm_nonce m \<noteq> rd_nonce r then r2
        else take_marker (rd_fed r = 0) m (r2\<lparr>rd_nonce := jm_nonce m\<rparr>))"
proof -
  from assms have m: "w" "\<not> length l > maxLine" "parseJobMarker l (rd_name r) = Some m" "cut_prefix keptPrefix l = None"
    by (auto simp: marker_of_def marker_not_kept split: if_splits)
  have same: "(note_line l r)\<lparr>rd_nonce := rd_nonce r\<rparr> = note_line l r"
    by (simp add: note_line_def Let_def)
  show ?thesis using m by (auto simp: Feed_def Let_def same)
qed

lemma Feed_word:
  "word_of (Feed l w r) =
     (case marker_of (rd_name r) (l, w) of None \<Rightarrow> word_of r | Some m \<Rightarrow> hear (rd_fed r = 0) m (word_of r))"
proof (cases "marker_of (rd_name r) (l, w)")
  case None
  then show ?thesis by (auto simp: Feed_def Let_def marker_of_def split: option.split if_splits)
next
  case (Some m)
  let ?r = "(note_line l r)\<lparr>rd_nonce := jm_nonce m\<rparr>"
  have "hear b m (word_of ?r) = hear b m (word_of r)" if "hears m (word_of r)" for b
    using that by (simp add: hear_def hears_def word_of_def note_line_def Let_def)
  then show ?thesis
    using take_marker_word [of ?r m] unfolding Feed_marker [OF Some] Some Let_def
    by (auto simp: hear_def hears_def word_of_def [of r])
qed

lemma until_result_snoc:
  "until_result (ms @ [m]) = (if list_ex is_result ms then until_result ms else ms @ [m])"
  by (induction ms) auto

lemma until_result_none: "\<not> list_ex is_result ms \<Longrightarrow> until_result ms = ms"
  by (induction ms) auto

lemma find_until_result: "List.find is_result (until_result ms) = List.find is_result ms"
  by (induction ms) auto

lemma find_result_none: "List.find is_result ms = None \<longleftrightarrow> \<not> list_ex is_result ms"
  by (induction ms) auto

lemma find_result_snoc:
  "\<not> list_ex is_result ms \<Longrightarrow> List.find is_result (ms @ [m]) = (if is_result m then Some m else None)"
  by (induction ms) auto

lemma markers_of_simps [simp]:
  "markers_of name [] = []"
  "markers_of name (xs @ [x]) = markers_of name xs @ (case marker_of name x of None \<Rightarrow> [] | Some m \<Rightarrow> [m])"
  by (auto simp: markers_of_def map_filter_def split: option.split)

lemma marker_nonce: "marker_of name x = Some m \<Longrightarrow> jm_nonce m \<noteq> []"
  by (auto simp: marker_of_def dest!: parseJobMarker_facts(1) nonceOK_not_Nil split: if_splits)

lemma markers_nonce: "m \<in> set (markers_of name xs) \<Longrightarrow> jm_nonce m \<noteq> []"
  by (auto simp: markers_of_def map_filter_def dest: marker_nonce)

lemma nonce_of_Nil: "nonce_of name nonce xs = [] \<Longrightarrow> nonce = [] \<and> markers_of name xs = []"
  using markers_nonce [of "hd (markers_of name xs)" name xs] by (auto simp: nonce_of_def split: if_splits list.splits)

lemma nonce_of_snoc:
  "nonce_of name nonce (xs @ [x]) =
     (if nonce_of name nonce xs \<noteq> [] then nonce_of name nonce xs
      else case marker_of name x of None \<Rightarrow> [] | Some m \<Rightarrow> jm_nonce m)"
proof (cases "nonce_of name nonce xs = []")
  case True
  then show ?thesis using nonce_of_Nil [OF True] by (simp add: nonce_of_def split: option.split)
next
  case False
  then show ?thesis by (cases "markers_of name xs") (auto simp: nonce_of_def split: option.split if_splits)
qed

lemma first_kind_snoc: "xs \<noteq> [] \<Longrightarrow> first_kind name nonce (xs @ [x]) = first_kind name nonce xs"
proof -
  assume "xs \<noteq> []"
  then obtain y ys where xs: "xs = y # ys" by (cases xs) auto
  have "marker_of name y = None" if "nonce_of name nonce xs = []"
    using nonce_of_Nil [OF that] xs by (auto simp: markers_of_def map_filter_def split: if_splits)
  then show ?thesis using xs nonce_of_snoc [of name nonce xs x] by (auto simp: first_kind_def split: option.split)
qed

lemma own_markers_quiet: "marker_of name x = None \<Longrightarrow> own_markers name nonce (xs @ [x]) = own_markers name nonce xs"
  using nonce_of_Nil [of name nonce xs] by (auto simp: own_markers_def nonce_of_snoc)

lemma own_markers_snoc:
  assumes "marker_of name x = Some m"
  shows "own_markers name nonce (xs @ [x]) =
    (if list_ex is_result (own_markers name nonce xs) \<or> nonce_of name nonce xs \<notin> {[], jm_nonce m} then own_markers name nonce xs
     else own_markers name nonce xs @ [m])"
proof -
  let ?N = "nonce_of name nonce xs" and ?ms = "markers_of name xs"
  have ex: "list_ex is_result (until_result ms) = list_ex is_result ms" for ms by (induction ms) auto
  show ?thesis
  proof (cases "?N = []")
    case True
    with nonce_of_Nil [OF True] assms show ?thesis by (simp add: own_markers_def nonce_of_snoc)
  next
    case False
    then have n: "nonce_of name nonce (xs @ [x]) = ?N" by (simp add: nonce_of_snoc)
    show ?thesis
      using assms False unfolding own_markers_def n markers_of_simps ex
      by (cases "jm_nonce m = ?N") (simp_all add: until_result_snoc until_result_none)
  qed
qed

lemma time_first_snoc:
  "time_of (filter (\<lambda>m. jm_at m \<noteq> zero_time) (ms @ [m])) =
     (if time_of (filter (\<lambda>m. jm_at m \<noteq> zero_time) ms) = zero_time then jm_at m
      else time_of (filter (\<lambda>m. jm_at m \<noteq> zero_time) ms))"
proof (cases "filter (\<lambda>m. jm_at m \<noteq> zero_time) ms")
  case (Cons a l)
  have "a \<in> set (filter (\<lambda>m. jm_at m \<noteq> zero_time) ms)" unfolding Cons by simp
  then have "jm_at a \<noteq> zero_time" by simp
  with Cons show ?thesis by (simp add: time_of_def)
qed (simp add: time_of_def)

lemma time_last_snoc: "time_of (rev (ms @ [m])) = jm_at m"
  by (simp add: time_of_def)

lemma read_log_snoc:
  "read_log name nonce (xs @ [x]) =
     (case marker_of name x of None \<Rightarrow> read_log name nonce xs | Some m \<Rightarrow> hear (xs = []) m (read_log name nonce xs))"
proof (cases "marker_of name x")
  case None
  have "first_kind name nonce (xs @ [x]) = first_kind name nonce xs"
    using first_kind_snoc None by (cases "xs = []") (auto simp: first_kind_def)
  moreover have "nonce_of name nonce (xs @ [x]) = nonce_of name nonce xs" using None by (simp add: nonce_of_snoc)
  ultimately show ?thesis using None by (simp add: read_log_def Let_def own_markers_quiet)
next
  case (Some m)
  have kind: "first_kind name nonce (xs @ [x]) =
      (if xs = [] then if jm_kind m = queuedMarker \<and> jm_nonce m = nonce_of name nonce [x] then jm_jobKind m else []
       else first_kind name nonce xs)"
    using first_kind_snoc Some by (auto simp: first_kind_def)
  have n: "nonce_of name nonce (xs @ [x]) = (if nonce_of name nonce xs \<noteq> [] then nonce_of name nonce xs else jm_nonce m)"
    using Some by (simp add: nonce_of_snoc)
  have n1: "nonce_of name nonce [x] = (if nonce \<noteq> [] then nonce else jm_nonce m)"
    using nonce_of_snoc [of name nonce "[]" x] Some by (simp add: nonce_of_def)
  have res: "jw_result (read_log name nonce xs) = None \<longleftrightarrow> \<not> list_ex is_result (own_markers name nonce xs)"
    by (simp add: read_log_def Let_def find_result_none)
  have quiet: "?thesis" if "\<not> hears m (read_log name nonce xs)"
  proof -
    have D: "list_ex is_result (own_markers name nonce xs) \<or> nonce_of name nonce xs \<notin> {[], jm_nonce m}"
      using that unfolding hears_def res by (auto simp: read_log_def Let_def)
    then have own: "own_markers name nonce (xs @ [x]) = own_markers name nonce xs" by (simp only: own_markers_snoc [OF Some] if_True)
    have "nonce_of name nonce xs \<noteq> []" using D nonce_of_Nil [of name nonce xs] by (auto simp: own_markers_def)
    note own = own this
    have "first_kind name nonce (xs @ [x]) = first_kind name nonce xs"
      using D own(2) unfolding kind n1 by (auto simp: first_kind_def own_markers_def nonce_of_def)
    then show ?thesis using own Some that by (simp add: hear_def read_log_def Let_def n)
  qed
  have loud: "?thesis" if h: "hears m (read_log name nonce xs)"
  proof -
    have N: "nonce_of name nonce xs \<in> {[], jm_nonce m}" and R: "\<not> list_ex is_result (own_markers name nonce xs)"
      using h unfolding hears_def res by (auto simp: read_log_def Let_def)
    then have own: "own_markers name nonce (xs @ [x]) = own_markers name nonce xs @ [m]"
      by (simp add: own_markers_snoc [OF Some])
    have N': "nonce_of name nonce (xs @ [x]) = jm_nonce m" using N n by auto
    have k: "first_kind name nonce (xs @ [x]) = (if jm_kind m = queuedMarker \<and> xs = [] then jm_jobKind m else first_kind name nonce xs)"
      using N' unfolding kind by (cases "xs = []") (simp_all add: first_kind_def)
    have "List.find is_result (own_markers name nonce xs @ [m]) = (if is_result m then Some m else None)"
      using R by (rule find_result_snoc)
    then show ?thesis
      using Some h
      by (simp add: hear_def read_log_def Let_def own k N' time_first_snoc time_last_snoc del: filter_append rev_append) simp
  qed
  show ?thesis using quiet loud by blast
qed

lemma feed_all_simps [simp]:
  "feed_all r [] = r" "feed_all r ((l, w) # xs) = feed_all (Feed l w r) xs" "feed_all r (xs @ ys) = feed_all (feed_all r xs) ys"
  by (simp_all add: feed_all_def)

lemma feed_all_fields [simp]: "rd_name (feed_all r xs) = rd_name r" "rd_fed (feed_all r xs) = rd_fed r + length xs"
  by (induction xs arbitrary: r) auto

lemma word_feed_all:
  "word_of (feed_all (NewReducer name nonce) xs) = read_log name nonce xs"
proof (induction xs rule: rev_induct)
  case Nil
  show ?case
    by (simp add: word_of_def NewReducer_def read_log_def Let_def own_markers_def nonce_of_def first_kind_def time_of_def)
next
  case (snoc x xs)
  obtain l w where x: "x = (l, w)" by (cases x)
  have "rd_name (NewReducer name nonce) = name" "rd_fed (NewReducer name nonce) = 0" by (simp_all add: NewReducer_def)
  then show ?case
    unfolding read_log_snoc x using snoc by (simp add: Feed_word split: option.split)
qed

text \<open>
  (C28) The reader, which is fed line by line, keeps a handful of fields and never goes back, says of every log what the list of its
  markers says as a whole: its nonce is the given one or that of the first marker; its markers are those with
  that nonce up to the first result; the job began at the first of them, was last heard of at the last, is at the
  step of the last step line and ended as the first result says; and its kind is what the first line says.
\<close>

theorem reader_refines_reading:
  "word_of (feed_all (NewReducer name nonce) xs) = read_log name nonce xs"
  by (rule word_feed_all)

subsection \<open>Lines that say nothing\<close>

text \<open>Two readers that differ only in the tail and in the number of lines, and go on the same way.\<close>

definition same_word :: "reducer \<Rightarrow> reducer \<Rightarrow> bool" where
  "same_word r r' \<longleftrightarrow>
     word_of r = word_of r' \<and> rd_kept r = rd_kept r' \<and> rd_name r = rd_name r' \<and> (rd_fed r = 0 \<longleftrightarrow> rd_fed r' = 0)"

lemma word_of_eq:
  "word_of r = word_of r' \<longleftrightarrow>
     rd_nonce r = rd_nonce r' \<and> rd_kind r = rd_kind r' \<and> rd_first r = rd_first r' \<and> rd_last r = rd_last r' \<and>
     rd_step r = rd_step r' \<and> rd_result r = rd_result r'"
  by (auto simp: word_of_def)

lemma keep_kept: "rd_kept r = rd_kept r' \<Longrightarrow> rd_result r = rd_result r' \<Longrightarrow> rd_kept (keep rest r) = rd_kept (keep rest r')"
  by (simp add: keep_def Let_def)

lemma Feed_kept:
  "rd_kept (Feed l w r) =
     (if \<not> w \<or> length l > maxLine then rd_kept r
      else case cut_prefix keptPrefix l of None \<Rightarrow> rd_kept r | Some rest \<Rightarrow> rd_kept (keep rest r))"
  using keep_kept [of "note_line l r" r] by (auto simp: Feed_def Let_def split: option.split)

lemma same_word_Feed:
  assumes "same_word r r'"
  shows "same_word (Feed l w r) (Feed l w r')"
proof -
  have "word_of (Feed l w r) = word_of (Feed l w r')" using assms by (simp add: Feed_word same_word_def split: option.split)
  moreover have "rd_kept (Feed l w r) = rd_kept (Feed l w r')"
    using assms keep_kept [of r r'] unfolding Feed_kept same_word_def word_of_eq by (simp split: option.split)
  ultimately show ?thesis using assms by (simp add: same_word_def)
qed

text \<open>A line that is not a word of the job with this nonce: no marker of it, and no sentence about packages.\<close>

definition foreign :: "string \<Rightarrow> string \<Rightarrow> fed_line \<Rightarrow> bool" where
  "foreign name nonce x \<longleftrightarrow>
     cut_prefix keptPrefix (fst x) = None \<and> (case marker_of name x of None \<Rightarrow> True | Some m \<Rightarrow> nonce \<noteq> [] \<and> jm_nonce m \<noteq> nonce)"

lemma Feed_foreign:
  assumes "foreign (rd_name r) (rd_nonce r) (l, w)" "rd_fed r \<noteq> 0"
  shows "same_word (Feed l w r) r"
proof -
  have "word_of (Feed l w r) = word_of r"
    using assms by (auto simp: Feed_word foreign_def hear_def hears_def split: option.splits)
  then show ?thesis using assms by (auto simp: same_word_def Feed_kept foreign_def split: option.splits)
qed

interpretation module_reader: line_reader "\<lambda>r x. Feed (fst x) (snd x) r" same_word
  "\<lambda>r x. rd_fed r \<noteq> 0 \<and> foreign (rd_name r) (rd_nonce r) x"
proof
  show "same_word r r" for r by (simp add: same_word_def)
  show "same_word r s \<Longrightarrow> same_word s t \<Longrightarrow> same_word r t" for r s t by (simp add: same_word_def)
  show "same_word r s \<Longrightarrow> same_word (Feed (fst x) (snd x) r) (Feed (fst x) (snd x) s)" for r s x by (rule same_word_Feed)
  show "same_word r s \<Longrightarrow> rd_fed s \<noteq> 0 \<and> foreign (rd_name s) (rd_nonce s) x \<Longrightarrow>
      rd_fed r \<noteq> 0 \<and> foreign (rd_name r) (rd_nonce r) x" for r s x
    by (simp add: same_word_def word_of_eq)
  show "rd_fed r \<noteq> 0 \<and> foreign (rd_name r) (rd_nonce r) x \<Longrightarrow> same_word (Feed (fst x) (snd x) r) r" for r x
    by (simp add: Feed_foreign)
qed

lemma feed_all_foldl: "feed_all r xs = foldl (\<lambda>r x. Feed (fst x) (snd x) r) r xs"
  by (simp add: feed_all_def case_prod_beta')

lemma tool_line_foreign: "foreign name nonce (''| '' @ t, w)"
proof -
  have "marker_of name (''| '' @ t, w) = None"
  proof (rule ccontr)
    assume "marker_of name (''| '' @ t, w) \<noteq> None"
    then obtain m where "parseJobMarker (''| '' @ t) name = Some m" by (auto simp: marker_of_def split: if_splits)
    from parseJobMarker_facts(2) [OF this] show False by (simp add: jobMarkerPrefix_def)
  qed
  then show ?thesis by (simp add: foreign_def keptPrefix_def)
qed

text \<open>
  Nothing that a tool prints, and nothing with a nonce of another job, says anything: with any number of such lines anywhere behind
  the first line of a log, the job reads as without them, in its state, its kind, its step, its code, what was undone,
  the packages that stay and its times, whatever systemd says and whenever it is read; only the tail shows them.
\<close>

theorem foreign_lines_say_nothing:
  assumes "xs \<noteq> []" "\<forall>x\<in>set zs. foreign name (nonce_of name nonce xs) x"
  shows "(Job (feed_all (NewReducer name nonce) (xs @ zs @ ys)) unit now written)\<lparr>jb_LogTail := []\<rparr> =
         (Job (feed_all (NewReducer name nonce) (xs @ ys)) unit now written)\<lparr>jb_LogTail := []\<rparr>"
proof -
  let ?r = "feed_all (NewReducer name nonce) xs"
  have "jw_nonce (word_of ?r) = nonce_of name nonce xs"
    unfolding word_feed_all by (simp add: read_log_def Let_def)
  then have n: "rd_nonce ?r = nonce_of name nonce xs" "rd_name ?r = name" "rd_fed ?r \<noteq> 0"
    using assms(1) by (simp_all add: word_of_def NewReducer_def)
  have "list_all (\<lambda>x. rd_fed ?r \<noteq> 0 \<and> foreign (rd_name ?r) (rd_nonce ?r) x) zs"
    using assms(2) unfolding n(1,2) using n(3) by (simp add: list_all_iff)
  then have "same_word (feed_all ?r (zs @ ys)) (feed_all ?r ys)"
    unfolding feed_all_foldl by (rule module_reader.silent_lines)
  then show ?thesis
    using n(3) by (auto simp: same_word_def word_of_eq Job_def Let_def split: option.split)
qed

definition example_job_nonce :: string where
  "example_job_nonce = replicate 32 (CHR ''a'')"

definition example_first_line :: string where
  "example_first_line = ''CASAOS_MODULE_QUEUED '' @ example_job_nonce @ '' virt install 2026-10-18T12:00:00Z''"

lemma tailless_state: "a\<lparr>jb_LogTail := []\<rparr> = b\<lparr>jb_LogTail := []\<rparr> \<Longrightarrow> jb_State a = jb_State b"
  by (cases a; cases b) simp

lemma Job_active: "rd_result r = None \<Longrightarrow> jb_State (Job r UnitActive now written) = JobRunning"
  by (simp add: Job_def Let_def)

lemma example_first_marker:
  "parseJobMarker example_first_line ''virt'' =
     Some ((new_job_marker queuedMarker example_job_nonce)\<lparr>jm_jobKind := KindInstall, jm_at := 63927921600 * second\<rparr>)"
  unfolding example_first_line_def example_job_nonce_def by code_simp

lemma example_first_word:
  "word_of (Feed example_first_line True (NewReducer ''virt'' [])) =
     \<lparr>jw_nonce = example_job_nonce, jw_kind = KindInstall, jw_first = 63927921600 * second, jw_last = 63927921600 * second,
      jw_step = [], jw_result = None\<rparr>"
proof -
  have "length example_first_line \<le> maxLine"
    by (simp add: example_first_line_def example_job_nonce_def maxLine_def)
  then have "marker_of ''virt'' (example_first_line, True) = parseJobMarker example_first_line ''virt''" by (simp add: marker_of_def)
  then show ?thesis
    using word_feed_all [of "''virt''" "[]" "[(example_first_line, True)]"]
    by (simp add: read_log_def own_markers_def markers_of_def map_filter_def nonce_of_def first_kind_def example_first_marker Let_def
        time_of_def new_job_marker_def)
qed

theorem foreign_lines_say_nothing_witness:
  "jb_State (Job (feed_all (NewReducer ''virt'' [])
     [(example_first_line, True), (''| CASAOS_MODULE_RESULT '' @ example_job_nonce @ '' virt ok done - - 2026-10-18T12:00:01Z'', True)])
     UnitActive 0 0) = JobRunning"
proof -
  let ?t = "''CASAOS_MODULE_RESULT '' @ example_job_nonce @ '' virt ok done - - 2026-10-18T12:00:01Z''"
  let ?long = "Job (feed_all (NewReducer ''virt'' []) ([(example_first_line, True)] @ [(''| '' @ ?t, True)] @ [])) UnitActive 0 0"
  let ?short = "Job (feed_all (NewReducer ''virt'' []) ([(example_first_line, True)] @ [])) UnitActive 0 0"
  have "?long\<lparr>jb_LogTail := []\<rparr> = ?short\<lparr>jb_LogTail := []\<rparr>"
    by (rule foreign_lines_say_nothing) (use tool_line_foreign [of _ _ ?t] in simp_all)
  then have "jb_State ?long = jb_State ?short" by (rule tailless_state)
  moreover have "jb_State ?short = JobRunning"
    using example_first_word by (simp add: Job_active word_of_def)
  ultimately show ?thesis by simp
qed

subsection \<open>A result is final\<close>

lemma Feed_after_result:
  assumes "rd_result r \<noteq> None"
  shows "word_of (Feed l w r) = word_of r" "rd_kept (Feed l w r) = rd_kept r"
proof -
  show "word_of (Feed l w r) = word_of r" using assms by (simp add: Feed_word hear_def hears_def split: option.split)
  show "rd_kept (Feed l w r) = rd_kept r" using assms by (simp add: Feed_kept keep_def split: option.split)
qed

lemma feed_all_after_result:
  "rd_result r \<noteq> None \<Longrightarrow> word_of (feed_all r xs) = word_of r \<and> rd_kept (feed_all r xs) = rd_kept r"
proof (induction xs arbitrary: r)
  case (Cons x xs)
  obtain l w where x: "x = (l, w)" by (cases x)
  note f = Feed_after_result [OF Cons.prems, of l w]
  then have "rd_result (Feed l w r) \<noteq> None" using Cons.prems by (simp add: word_of_eq)
  from Cons.IH [OF this] f show ?case by (simp add: x)
qed simp

text \<open>
  (C29) A result is final: once the log of a job that began has a result, no line that comes after it, no answer of systemd and no time
  changes anything of the job that is shown but the tail of its log, and the job has ended in one of the three ways
  that the result says.
\<close>

theorem result_is_final:
  assumes "rd_result r = Some m" "rd_first r \<noteq> zero_time"
  shows "(Job (feed_all r xs) unit now written)\<lparr>jb_LogTail := []\<rparr> = (Job r unit' now' written')\<lparr>jb_LogTail := []\<rparr> \<and>
    jb_State (Job r unit now written) =
      (if jm_verdict m = ''ok'' then JobSucceeded else if jm_verdict m = ''refused'' then JobRefused else JobFailed)"
proof -
  have "word_of (feed_all r xs) = word_of r" "rd_kept (feed_all r xs) = rd_kept r"
    using feed_all_after_result [of r xs] assms(1) by simp_all
  then show ?thesis
    using assms by (simp add: word_of_eq Job_def Let_def)
qed

definition example_ended :: reducer where
  "example_ended =
     (NewReducer ''virt'' example_job_nonce)
       \<lparr>rd_fed := 2, rd_first := 5, rd_last := 9,
        rd_result := Some (result_of_run example_job_nonce ''refused'' ''-'' ''busy'' ''-'' 9)\<rparr>"

theorem result_is_final_witness:
  "jb_State (Job (feed_all example_ended [(example_first_line, True)]) UnitActive 7 8) = JobRefused"
proof -
  let ?m = "result_of_run example_job_nonce ''refused'' ''-'' ''busy'' ''-'' 9"
  have "rd_result example_ended = Some ?m" "rd_first example_ended \<noteq> zero_time" by (simp_all add: example_ended_def)
  from result_is_final [OF this, of "[(example_first_line, True)]" UnitActive 7 8 UnitActive 7 8]
  have "(Job (feed_all example_ended [(example_first_line, True)]) UnitActive 7 8)\<lparr>jb_LogTail := []\<rparr> =
      (Job example_ended UnitActive 7 8)\<lparr>jb_LogTail := []\<rparr>" "jb_State (Job example_ended UnitActive 7 8) = JobRefused"
    by (simp_all add: result_of_run_def)
  then show ?thesis using tailless_state by metis
qed

subsection \<open>What is shown of the log\<close>

definition tail_ok :: "string list \<Rightarrow> bool" where
  "tail_ok t \<longleftrightarrow> length t \<le> TailLines \<and> list_all (\<lambda>l. cut_prefix jobMarkerPrefix l = None) t"

lemma tail_ok_note_line: "tail_ok (rd_tail r) \<Longrightarrow> tail_ok (rd_tail (note_line l r))"
  by (cases "rd_tail r") (auto simp: note_line_def push_tail_def tail_ok_def TailLines_def Let_def)

lemma Feed_tail: "\<exists>l'. rd_tail (Feed l w r) = rd_tail (note_line l' r)"
  by (auto simp: Feed_def Let_def split: option.split)

lemma tail_ok_feed_all: "tail_ok (rd_tail r) \<Longrightarrow> tail_ok (rd_tail (feed_all r xs))"
proof (induction xs arbitrary: r)
  case (Cons x xs)
  obtain l w where "x = (l, w)" by (cases x)
  then show ?case using Cons Feed_tail [of l w r] by (auto simp: tail_ok_note_line)
qed simp

text \<open>
  Whatever was fed, the state carries at most twenty lines of the log, none of them empty, longer than two hundred bytes or with a
  byte that is not printable ASCII, and none of the lines they were made from was a line of a marker, which carry
  the nonce.
\<close>

theorem shown_tail_is_safe:
  "tail_ok (rd_tail (feed_all (NewReducer name nonce) xs)) \<and>
   length (jb_LogTail (Job (feed_all (NewReducer name nonce) xs) unit now written)) \<le> 20 \<and>
   list_all (\<lambda>l. l \<noteq> [] \<and> length l \<le> 200 \<and> list_all printable_char l)
     (jb_LogTail (Job (feed_all (NewReducer name nonce) xs) unit now written))"
proof -
  define r where "r = feed_all (NewReducer name nonce) xs"
  have "tail_ok (rd_tail (NewReducer name nonce))" by (simp add: NewReducer_def tail_ok_def)
  then have t: "tail_ok (rd_tail r)" unfolding r_def by (rule tail_ok_feed_all)
  define shown where "shown = filter (\<lambda>l. l \<noteq> []) (map sanitizeLine (rd_tail r))"
  have "jb_LogTail (Job r unit now written) \<in> {[], shown}"
    by (simp add: Job_def idle_job_def shown_def Let_def split: option.split)
  moreover have "length shown \<le> 20"
    using t unfolding shown_def tail_ok_def TailLines_def by (metis (no_types, lifting) length_filter_le length_map order_trans)
  moreover have "list_all (\<lambda>l. l \<noteq> [] \<and> length l \<le> 200 \<and> list_all printable_char l) shown"
    using sanitizeLine_length sanitizeLine_printable by (auto simp: shown_def list_all_iff maxDetailChars_def)
  ultimately show ?thesis using t unfolding r_def [symmetric] by auto
qed

subsection \<open>A unit that is gone\<close>

lemma quietState_cases: "quietState unit now signs \<in> {JobRunning, JobInterrupted}"
  by (simp add: quietState_def Let_def)

text \<open>
  (C33) A unit that ended without a word is noticed: thirty seconds after the last marker and the last writing of the log, whatever the
  log holds, the job of a unit that systemd says is gone is not shown as running, and it is never shown as running
  again as long as nothing is written.
\<close>

theorem gone_unit_is_noticed:
  assumes "rd_last r + 30 * second \<le> now" "written + 30 * second \<le> now"
  shows "jb_State (Job r UnitGone now written) \<noteq> JobRunning"
proof -
  have old: "\<not> time_sub now t < 30 * second" if "t + 30 * second \<le> now" for t
    using that by (auto simp: time_defs)
  have "quietState UnitGone now signs \<noteq> JobRunning" if "set signs \<subseteq> {rd_last r, written}" for signs
    using that assms old unfolding quietState_def Let_def by (auto simp: list_ex_iff)
  then show ?thesis by (simp add: Job_def idle_job_def Let_def split: option.split)
qed

theorem gone_unit_is_noticed_witness:
  "jb_State (Job (Feed example_first_line True (NewReducer ''virt'' [])) UnitGone (10 ^ 30) 5) \<noteq> JobRunning"
proof (rule gone_unit_is_noticed)
  show "rd_last (Feed example_first_line True (NewReducer ''virt'' [])) + 30 * second \<le> 10 ^ 30"
    using example_first_word by (simp add: word_of_def)
qed simp

end
