(* ===== verification/ModuleLog.thy ===== *)
theory ModuleLog
  imports ModuleReading
begin

section \<open>The job of a module: from the writers to the reader\<close>

text \<open>
  The composition of the writers of the log with its reader: what the core queued and abandoned is read as that, and of the log of a run
  the reader hears exactly the markers that the run said, whatever the tools it ran printed.
\<close>

subsection \<open>Logs made of lines\<close>

definition unlines :: "string list \<Rightarrow> string" where
  "unlines ls = concat (map (\<lambda>l. l @ [newline]) ls)"

definition line_ok :: "string \<Rightarrow> bool" where
  "line_ok l \<longleftrightarrow> newline \<notin> set l \<and> length l < maxLine"

lemma unlines_simps [simp]: "unlines [] = []" "unlines (l # ls) = l @ newline # unlines ls" "unlines (ks @ ls) = unlines ks @ unlines ls"
  by (simp_all add: unlines_def)

lemma takeWhile_line: "newline \<notin> set l \<Longrightarrow> takeWhile (\<lambda>c. c \<noteq> newline) (l @ newline # r) = l"
  by (induction l) auto

lemma scanLines_line:
  assumes "line_ok l"
  shows "scanLines (l @ newline # bytes) False r = scanLines bytes False (Feed l True r)"
proof -
  let ?b = "l @ newline # bytes"
  have n: "newline \<notin> set l" "length l < maxLine" using assms by (simp_all add: line_ok_def)
  have buf: "take maxLine ?b = l @ newline # take (maxLine - length l - 1) bytes"
    using n(2) by (simp add: take_Cons')
  have "takeWhile (\<lambda>c. c \<noteq> newline) (take maxLine ?b) = l" unfolding buf by (rule takeWhile_line [OF n(1)])
  then show ?thesis by (subst scanLines.simps) (simp add: Let_def buf del: take_append)
qed

lemma scanLines_unlines:
  "list_all line_ok ls \<Longrightarrow> scanLines (unlines ls) False r = feed_all r (map (\<lambda>l. (l, True)) ls)"
proof (induction ls arbitrary: r)
  case Nil
  show ?case by (subst scanLines.simps) (simp add: maxLine_def)
next
  case (Cons l ls)
  then show ?case by (simp add: scanLines_line)
qed

lemma unlines_length: "list_all line_ok ls \<Longrightarrow> length (unlines ls) \<le> length ls * maxLine"
  by (induction ls) (auto simp: line_ok_def)

abbreviation whole_lines :: "string list \<Rightarrow> fed_line list" where
  "whole_lines \<equiv> map (\<lambda>l. (l, True))"

lemma scanLog_unlines:
  "list_all line_ok ls \<Longrightarrow> length (unlines ls) \<le> logScanBytes \<Longrightarrow> scanLog (unlines ls) r = feed_all r (whole_lines ls)"
  by (simp add: scanLog_def scanLines_unlines)

lemma marker_of_whole: "line_ok l \<Longrightarrow> marker_of name (l, True) = parseJobMarker l name"
  by (simp add: marker_of_def line_ok_def)

lemma markers_of_append: "markers_of name (xs @ ys) = markers_of name xs @ markers_of name ys"
  by (simp add: markers_of_def map_filter_def)

lemma markers_of_Cons:
  "markers_of name (x # xs) = (case marker_of name x of None \<Rightarrow> [] | Some m \<Rightarrow> [m]) @ markers_of name xs"
  by (auto simp: markers_of_def map_filter_def split: option.split)

lemma markers_of_silent: "list_all (\<lambda>x. marker_of name x = None) xs \<Longrightarrow> markers_of name xs = []"
  by (induction xs) (auto simp: markers_of_Cons)

subsection \<open>The lengths of the lines\<close>

lemma FormatTime_length: "datable t \<Longrightarrow> length (FormatTime t) = 20"
  unfolding datable_def
proof (erule layout_FormatTime)
  fix Y M D h mi se
  assume "layout_fields (FormatTime t) = Some (Y, M, D, h, mi, se)"
  then show "length (FormatTime t) = 20" by (auto simp: layout_fields_def split: list.splits if_splits)
qed

lemma ValidKind_length: "ValidKind k \<Longrightarrow> length k \<le> 7"
  by (auto simp: ValidKind_def KindInstall_def KindRemove_def KindUpdate_def)

definition queued_words :: "string \<Rightarrow> string \<Rightarrow> string \<Rightarrow> instant \<Rightarrow> string" where
  "queued_words name nonce kind t = join_on CHR '' '' [job_mkind_word queuedMarker, nonce, name, kind, FormatTime t]"

lemma queued_words_ok:
  assumes "moduleName name" "nonceOK nonce" "ValidKind kind" "datable t"
  shows "newline \<notin> set (queued_words name nonce kind t)" "length (queued_words name nonce kind t) < 116"
proof -
  show "newline \<notin> set (queued_words name nonce kind t)"
    using words_plain(3) [OF assms(1)] nonceOK_plain [OF assms(2)] ValidKind_plain [OF assms(3)] FormatTime_plain [OF assms(4)]
    by (simp add: queued_words_def newline_def)
  have "length name \<le> 32" "length nonce = 32" using assms(1,2) by (simp_all add: moduleName_def nonceOK_def)
  then show "length (queued_words name nonce kind t) < 116"
    using ValidKind_length [OF assms(3)] FormatTime_length [OF assms(4)] by (simp add: queued_words_def)
qed

lemma QueuedLine_unlines: "QueuedLine name nonce kind t = unlines [queued_words name nonce kind t]"
  by (simp add: QueuedLine_words queued_words_def)

subsection \<open>The first line\<close>

lemma withLock_done: "withLock host write file = (file', None) \<Longrightarrow> write file = (file', None)"
  by (auto simp: withLock_def split: if_splits lock_answer.splits)

lemma withLock_error:
  "withLock host write file = (file', Some e) \<Longrightarrow> (\<And>f f'. write f = (f', Some e) \<Longrightarrow> f' = f) \<Longrightarrow> file' = file"
  by (auto simp: withLock_def split: if_splits lock_answer.splits)

lemma Queue_done:
  assumes "Queue host name nonce kind at file = (file', None)"
  shows "moduleName name" "nonceOK nonce" "ValidKind kind" "file' = LogFile (QueuedLine name nonce kind at)"
  using assms by (auto simp: Queue_def write_file_def dest!: withLock_done split: if_splits)

lemma read_queued_line:
  assumes "moduleName name" "nonceOK nonce" "ValidKind kind" "datable t" "whole_second t \<noteq> zero_time"
  shows "read_log name [] [(queued_words name nonce kind t, True)] =
    \<lparr>jw_nonce = nonce, jw_kind = kind, jw_first = whole_second t, jw_last = whole_second t, jw_step = [], jw_result = None\<rparr>"
proof -
  have "line_ok (queued_words name nonce kind t)"
    using queued_words_ok [OF assms(1-4)] by (simp add: line_ok_def maxLine_def)
  then have "marker_of name (queued_words name nonce kind t, True) = Some (queued_of nonce kind t)"
    using parse_queued_line [OF assms(2,1,3,4)] by (simp add: marker_of_whole queued_words_def)
  then show ?thesis
    using assms(5) nonceOK_not_Nil [OF assms(2)]
    by (simp add: read_log_def Let_def own_markers_def nonce_of_def markers_of_Cons first_kind_def time_of_def queued_of_def
        new_job_marker_def)
qed

lemma scanLog_short: "length bytes \<le> logScanBytes \<Longrightarrow> scanLog bytes r = scanLines bytes False r"
  by (simp add: scanLog_def)

text \<open>
  (C30) What the core queued is what it reads: after a queueing that succeeded, the log reads as a job of that kind that began then, which
  is running while the unit is, and otherwise as long as the line or the file is young enough; and a run with that
  nonce and kind that opens the log keeps the line, and nothing else, while a run of another job keeps nothing.
\<close>

theorem queued_job_is_read:
  assumes "Queue host name nonce kind at file = (file', None)" "datable at" "whole_second at \<noteq> zero_time"
  shows "\<exists>job. ReadJob True name file' written unit now = Inr job \<and> jb_Kind job = kind \<and> jb_Step job = [] \<and>
           jb_StartedAt job = FormatTime at \<and>
           jb_State job = (if unit = UnitActive then JobRunning else quietState unit now [whole_second at, written]) \<and>
           snd (fst (openLog \<lparr>oa_dirs = True, oa_open = True, oa_truncate = True, oa_seek = True, oa_chmod = True\<rparr> kind'
                       (newJob nonce' name) file')) =
             (if nonce' = nonce \<and> kind' = kind then file' else LogFile [])"
proof -
  note q = Queue_done [OF assms(1)]
  let ?w = "queued_words name nonce kind at"
  have ok: "line_ok ?w" "newline \<notin> set ?w" "length ?w < 116"
    using queued_words_ok [OF q(1-3) assms(2)] by (simp_all add: line_ok_def maxLine_def)
  have bytes: "QueuedLine name nonce kind at = ?w @ [newline]" using QueuedLine_unlines [of name nonce kind at] by simp
  have scan: "scanLog (QueuedLine name nonce kind at) (NewReducer name []) = feed_all (NewReducer name []) [(?w, True)]"
    using scanLines_unlines [of "[?w]"] ok QueuedLine_unlines [of name nonce kind at]
    by (simp add: scanLog_short logScanBytes_def)
  define r where "r = feed_all (NewReducer name []) [(?w, True)]"
  have "word_of r = \<lparr>jw_nonce = nonce, jw_kind = kind, jw_first = whole_second at, jw_last = whole_second at, jw_step = [], jw_result = None\<rparr>"
    unfolding r_def word_feed_all using read_queued_line [OF q(1-3) assms(2,3)] .
  then have r: "rd_kind r = kind" "rd_first r = whole_second at" "rd_last r = whole_second at" "rd_step r = []" "rd_result r = None"
    by (simp_all add: word_of_def)
  have stamp: "stamp (whole_second at) = FormatTime at"
    using assms(3) by (simp add: stamp_def FormatTime_def whole_second_def)
  have "take maxQueuedLine (?w @ [newline]) = ?w @ [newline]" using ok(3) by (simp add: maxQueuedLine_def)
  moreover have "parseJobMarker ?w name = Some (queued_of nonce kind at)"
    unfolding queued_words_def using parse_queued_line [OF q(2,1,3) assms(2)] .
  ultimately have len: "queuedLength (newJob nonce' name) (QueuedLine name nonce kind at) kind' =
      (if nonce' = nonce \<and> kind' = kind then length (QueuedLine name nonce kind at) else 0)"
    using q(2) takeWhile_line [OF ok(2), of "[]"]
    by (auto simp: bytes queuedLength_def Let_def newJob_def queued_of_def new_job_marker_def nonceOK_def)
  have "ReadJob True name file' written unit now = Inr (Job r unit now written)"
    unfolding ReadJob_def q(4) log_file.case scan r_def [symmetric] using q(1) by simp
  moreover have "jb_Kind (Job r unit now written) = kind" "jb_Step (Job r unit now written) = []"
    "jb_StartedAt (Job r unit now written) = FormatTime at"
    "jb_State (Job r unit now written) = (if unit = UnitActive then JobRunning else quietState unit now [whole_second at, written])"
    using assms(3) by (simp_all add: Job_def Let_def r stamp)
  ultimately show ?thesis by (simp add: q(4) openLog_def Let_def len)
qed

definition example_host :: queue_host where
  "example_host =
     \<lparr>qh_stateDir = True, qh_safe = True, qh_lockFile = None, qh_lock = (\<lambda>n. if n < 2 then LockBusy else LockTaken), qh_logsDir = True,
      qh_readable = True, qh_write = True\<rparr>"

abbreviation example_noon :: instant where
  "example_noon \<equiv> 63927921600 * second"

lemma example_noon_datable: "datable example_noon" "whole_second example_noon \<noteq> zero_time"
  unfolding datable_def whole_second_def atLeastAtMost_iff by code_simp+

lemma example_queue:
  "Queue example_host ''virt'' example_job_nonce ''update'' example_noon NotRegular =
     (LogFile (QueuedLine ''virt'' example_job_nonce ''update'' example_noon), None)"
proof -
  have "moduleName ''virt''" "nonceOK example_job_nonce" "ValidKind ''update''"
    unfolding example_job_nonce_def by code_simp+
  then show ?thesis
    by (simp add: Queue_def withLock_def example_host_def takeLock_def lockTries_def numeral_eq_Suc write_file_def)
qed

theorem queued_job_is_read_witness:
  "\<exists>job. ReadJob True ''virt'' (LogFile (QueuedLine ''virt'' example_job_nonce ''update'' example_noon)) 0 UnitActive 0 = Inr job \<and>
     jb_Kind job = ''update'' \<and> jb_State job = JobRunning"
  using queued_job_is_read [OF example_queue example_noon_datable, of 0 UnitActive 0 "''update''" example_job_nonce] by auto

subsection \<open>The last line of a job that could not be started\<close>

lemma silent_line: "cut_prefix jobMarkerPrefix l = None \<Longrightarrow> marker_of name (l, w) = None"
  by (auto simp: marker_of_def dest!: parseJobMarker_facts(2) split: option.splits if_splits)
     (metis cut_prefix_append not_None_eq option.distinct(1) parseJobMarker_facts(2))

definition result_words :: "string \<Rightarrow> string \<Rightarrow> string \<Rightarrow> string \<Rightarrow> string \<Rightarrow> string \<Rightarrow> instant \<Rightarrow> string" where
  "result_words name nonce verdict step code undo t =
     join_on CHR '' '' [job_mkind_word resultMarker, nonce, name, verdict, step, code, undo, FormatTime t]"

lemma resultAgrees_length:
  assumes "resultAgrees m"
  shows "length (jm_verdict m) \<le> 7" "length (jm_step m) \<le> 32" "length (jm_code m) \<le> 48" "length (jm_undo m) \<le> 21"
  using assms
  by (auto simp: resultAgrees_def stepWord_def codeWord_def UndoRolledBack_def UndoIncomplete_def UndoRolledBackWithLeft_def Let_def
      split: if_splits)

lemma result_line:
  assumes "moduleName name" "nonceOK nonce" "datable t" "resultAgrees (result_of_run nonce verdict step code undo t)"
  shows "line_ok (result_words name nonce verdict step code undo t)"
    "marker_of name (result_words name nonce verdict step code undo t, True) = Some (result_of_run nonce verdict step code undo t)"
proof -
  let ?m = "result_of_run nonce verdict step code undo t"
  have f: "jm_verdict ?m = verdict" "jm_step ?m = step" "jm_code ?m = code" "jm_undo ?m = undo" by (simp_all add: result_of_run_def)
  have "newline \<notin> set verdict" "newline \<notin> set step" "newline \<notin> set code" "newline \<notin> set undo"
    using resultAgrees_plain [OF assms(4)] unfolding f by blast+
  moreover have "length verdict \<le> 7" "length step \<le> 32" "length code \<le> 48" "length undo \<le> 21"
    using resultAgrees_length [OF assms(4)] unfolding f by blast+
  moreover have "length name \<le> 32" "length nonce = 32" using assms(1,2) by (simp_all add: moduleName_def nonceOK_def)
  ultimately show ok: "line_ok (result_words name nonce verdict step code undo t)"
    using words_plain(3) [OF assms(1)] nonceOK_plain [OF assms(2)] FormatTime_plain [OF assms(3)] FormatTime_length [OF assms(3)]
    by (simp add: line_ok_def result_words_def newline_def maxLine_def)
  show "marker_of name (result_words name nonce verdict step code undo t, True) = Some ?m"
    unfolding marker_of_whole [OF ok] unfolding result_words_def by (rule parse_result_line [OF assms(2,1,3,4)])
qed

definition said_by_tool :: "string \<Rightarrow> bool" where
  "said_by_tool l \<longleftrightarrow> (\<exists>t. l = ''| '' @ t) \<and> line_ok l"

lemma said_by_tool_silent: "said_by_tool l \<Longrightarrow> marker_of name (l, w) = None"
  by (rule silent_line) (auto simp: said_by_tool_def jobMarkerPrefix_def)

text \<open>A log that begins with the first line of the job: its reading, from the markers behind it.\<close>

definition reading_of :: "string \<Rightarrow> string \<Rightarrow> instant \<Rightarrow> job_marker list \<Rightarrow> job_word" where
  "reading_of nonce kind t ms =
     \<lparr>jw_nonce = nonce, jw_kind = kind, jw_first = whole_second t, jw_last = time_of (rev (queued_of nonce kind t # until_result ms)),
      jw_step = (case filter (\<lambda>m. jm_kind m = stepMarker) (rev (until_result ms)) of [] \<Rightarrow> [] | m # _ \<Rightarrow> jm_step m),
      jw_result = List.find is_result ms\<rparr>"

lemma read_begun_log:
  assumes "moduleName name" "nonceOK nonce" "ValidKind kind" "datable t" "whole_second t \<noteq> zero_time"
    and "markers_of name xs = ms" "list_all (\<lambda>m. jm_nonce m = nonce) ms"
  shows "read_log name [] ((queued_words name nonce kind t, True) # xs) = reading_of nonce kind t ms"
proof -
  have "line_ok (queued_words name nonce kind t)"
    using queued_words_ok [OF assms(1-4)] by (simp add: line_ok_def maxLine_def)
  then have q: "marker_of name (queued_words name nonce kind t, True) = Some (queued_of nonce kind t)"
    using parse_queued_line [OF assms(2,1,3,4)] by (simp add: marker_of_whole queued_words_def)
  have f: "jm_nonce (queued_of nonce kind t) = nonce" "jm_kind (queued_of nonce kind t) = queuedMarker"
    "jm_at (queued_of nonce kind t) = whole_second t" "jm_jobKind (queued_of nonce kind t) = kind"
    by (simp_all add: queued_of_def new_job_marker_def)
  have ms: "filter (\<lambda>m. jm_nonce m = nonce) ms = ms" using assms(7) by (auto simp: list_all_iff intro: filter_True)
  have n: "nonce_of name [] ((queued_words name nonce kind t, True) # xs) = nonce"
    by (simp add: nonce_of_def markers_of_Cons q f)
  have own: "own_markers name [] ((queued_words name nonce kind t, True) # xs) = queued_of nonce kind t # until_result ms"
    by (simp add: own_markers_def n markers_of_Cons q f assms(6) ms)
  show ?thesis
    using assms(5)
    by (simp add: read_log_def Let_def own n reading_of_def first_kind_def q f time_of_def find_until_result split: list.split)
qed

lemma abandoned_lines:
  "abandoned_log name nonce kind queuedAt at said =
     unlines (queued_words name nonce kind queuedAt # (''failed: '' @ CodeStartFailed) # map (\<lambda>l. ''| '' @ l) (said_lines said) @
       [result_words name nonce ''failed'' ''-'' CodeStartFailed ''-'' at])"
  by (simp add: abandoned_log_def QueuedLine_words queued_words_def result_words_def unlines_def comp_def)

lemma said_lines_tool: "list_all said_by_tool (map (\<lambda>l. ''| '' @ l) (said_lines said))"
proof -
  have "length (printable l 200) < 4094" "newline \<notin> set (printable l 200)" for l
    using printable_length [of l 200] printable_no_newline by (simp_all add: newline_def)
  then show ?thesis
    by (auto simp: said_lines_def said_by_tool_def line_ok_def list_all_iff maxLine_def newline_def)
qed

lemma failed_sentence: "line_ok (''failed: '' @ CodeStartFailed)" "marker_of name (''failed: '' @ CodeStartFailed, w) = None"
  by (simp_all add: line_ok_def CodeStartFailed_def newline_def maxLine_def silent_line jobMarkerPrefix_def)

lemma abandoned_read:
  assumes "moduleName name" "nonceOK nonce" "ValidKind kind" "datable queuedAt" "whole_second queuedAt \<noteq> zero_time" "datable at"
  shows "word_of (scanLog (abandoned_log name nonce kind queuedAt at said) (NewReducer name [])) =
    reading_of nonce kind queuedAt [result_of_run nonce ''failed'' ''-'' CodeStartFailed ''-'' at]"
proof -
  let ?m = "result_of_run nonce ''failed'' ''-'' CodeStartFailed ''-'' at"
  let ?said = "map (\<lambda>l. ''| '' @ l) (said_lines said)"
  let ?ls = "(''failed: '' @ CodeStartFailed) # ?said @ [result_words name nonce ''failed'' ''-'' CodeStartFailed ''-'' at]"
  let ?q = "queued_words name nonce kind queuedAt"
  have "resultAgrees ?m" unfolding result_of_run_def resultAgrees_at
    by (simp add: resultAgrees_def new_job_marker_def CodeStartFailed_def codeWord_def lower_def)
  note res = result_line [OF assms(1,2,6) this]
  have silent: "list_all (\<lambda>x. marker_of name x = None) (whole_lines ?said)"
    using said_lines_tool [of said] by (auto simp: list_all_iff said_by_tool_silent)
  have ok: "list_all line_ok (?q # ?ls)"
    using queued_words_ok [OF assms(1-4)] res(1) failed_sentence said_lines_tool [of said]
    by (auto simp: list_all_iff said_by_tool_def line_ok_def maxLine_def)
  have ms: "markers_of name (whole_lines ?ls) = [?m]"
    using res(2) failed_sentence(2) markers_of_silent [OF silent] by (simp add: markers_of_Cons markers_of_append markers_of_def map_filter_def)
  have n: "list_all (\<lambda>m. jm_nonce m = nonce) [?m]" by (simp add: result_of_run_def new_job_marker_def)
  have "length (said_lines said) \<le> 3" unfolding said_lines_def by (rule le_trans [OF length_filter_le]) simp
  then have "length (?q # ?ls) * maxLine \<le> logScanBytes" by (simp add: maxLine_def logScanBytes_def)
  then have "length (unlines (?q # ?ls)) \<le> logScanBytes" using unlines_length [OF ok] by (rule order_trans [rotated])
  then have scan: "scanLog (abandoned_log name nonce kind queuedAt at said) (NewReducer name []) =
      feed_all (NewReducer name []) (whole_lines (?q # ?ls))"
    unfolding abandoned_lines by (rule scanLog_unlines [OF ok])
  show ?thesis
    unfolding scan word_feed_all list.map(2) [of _ ?q] by (rule read_begun_log [OF assms(1-5) ms n])
qed

lemma Abandon_done:
  assumes "Abandon host name nonce kind queuedAt at said file = (file', None)"
  shows "moduleName name" "nonceOK nonce" "ValidKind kind" "file \<in> {NoLog, LogFile (QueuedLine name nonce kind queuedAt)}"
    "file' = LogFile (abandoned_log name nonce kind queuedAt at said)"
proof -
  have only: "take (Suc (length w)) c = w \<Longrightarrow> c = w" for c w :: string
    by (metis Suc_n_not_le_n length_take min_def nle_le take_all_iff)
  show "moduleName name" "nonceOK nonce" "ValidKind kind" "file \<in> {NoLog, LogFile (QueuedLine name nonce kind queuedAt)}"
    "file' = LogFile (abandoned_log name nonce kind queuedAt at said)"
    using assms only
    by (auto simp: Abandon_def write_file_def logIsOnly_def dest!: withLock_done split: if_splits option.splits log_file.splits)
qed

text \<open>
  (C31) A job whose unit could not be started ends as failed with the code \<open>start_failed\<close>, with its kind, at no step and with nothing undone,
  whatever systemd said and whenever it is read; and this is written only over the very line that was queued, or where
  there is no log: whatever else is in the log, the words of a unit that did start included, stays as it is.
\<close>

theorem abandoned_job_failed:
  assumes "Abandon host name nonce kind queuedAt at said file = (file', err)"
    and "datable queuedAt" "whole_second queuedAt \<noteq> zero_time" "datable at"
  shows "if err = None
         then file \<in> {NoLog, LogFile (QueuedLine name nonce kind queuedAt)} \<and>
              (\<exists>job. ReadJob True name file' written unit now = Inr job \<and> jb_State job = JobFailed \<and> jb_Code job = CodeStartFailed \<and>
                 jb_Kind job = kind \<and> jb_Step job = [] \<and> jb_Undo job = [])
         else file' = file"
proof (cases err)
  case None
  note d = Abandon_done [OF assms(1) [unfolded None]]
  define r where "r = scanLog (abandoned_log name nonce kind queuedAt at said) (NewReducer name [])"
  have "word_of r = reading_of nonce kind queuedAt [result_of_run nonce ''failed'' ''-'' CodeStartFailed ''-'' at]"
    unfolding r_def by (rule abandoned_read [OF d(1-3) assms(2-4)])
  then have r: "rd_first r = whole_second queuedAt" "rd_kind r = kind"
    "rd_result r = Some (result_of_run nonce ''failed'' ''-'' CodeStartFailed ''-'' at)"
    by (simp_all add: word_of_def reading_of_def result_of_run_def new_job_marker_def)
  have "ReadJob True name file' written unit now = Inr (Job r unit now written)"
    unfolding ReadJob_def d(5) log_file.case r_def using d(1) by simp
  moreover have "jb_State (Job r unit now written) = JobFailed" "jb_Code (Job r unit now written) = CodeStartFailed"
    "jb_Kind (Job r unit now written) = kind" "jb_Step (Job r unit now written) = []" "jb_Undo (Job r unit now written) = []"
    using assms(3) by (simp_all add: Job_def Let_def r result_of_run_def dashless_def)
  ultimately show ?thesis using None d(4) by simp
next
  case (Some e)
  have "withLock host (\<lambda>f. case logIsOnly host (QueuedLine name nonce kind queuedAt) f of Some e \<Rightarrow> (f, Some e)
      | None \<Rightarrow> write_file host (abandoned_log name nonce kind queuedAt at said) f) file = (file', Some e) \<Longrightarrow> file' = file"
    by (erule withLock_error) (auto simp: write_file_def split: option.splits if_splits)
  then show ?thesis using assms(1) Some by (auto simp: Abandon_def split: if_splits)
qed

theorem abandoned_job_failed_witness:
  "\<exists>file'. Abandon example_host ''virt'' example_job_nonce ''update'' example_noon example_noon [''Failed to start''] NoLog = (file', None) \<and>
     (\<exists>job. ReadJob True ''virt'' file' 0 UnitGone 0 = Inr job \<and> jb_State job = JobFailed)"
proof -
  have "moduleName ''virt''" "nonceOK example_job_nonce" "ValidKind ''update''"
    unfolding example_job_nonce_def by code_simp+
  then have "Abandon example_host ''virt'' example_job_nonce ''update'' example_noon example_noon [''Failed to start''] NoLog =
      (LogFile (abandoned_log ''virt'' example_job_nonce ''update'' example_noon example_noon [''Failed to start'']), None)"
    by (simp add: Abandon_def withLock_def example_host_def takeLock_def lockTries_def numeral_eq_Suc write_file_def logIsOnly_def)
  from abandoned_job_failed [OF this example_noon_datable example_noon_datable(1), of 0 UnitGone 0] this show ?thesis by auto
qed

end
