(* ===== verification/ModuleWriter.thy ===== *)
theory ModuleWriter
  imports ModuleLog
begin

section \<open>The job of a module: the log of a run\<close>

text \<open>
  A run as the sequence of what it says and what the tools it runs print, and the reading of the log it leaves: the reader hears exactly
  the markers that the run said, in their order, and nothing that a tool printed.
\<close>

subsection \<open>What a run does to its log\<close>

datatype run_event =
    EvStep instant string string
  | EvResult instant string string string string
  | EvSentence string
  | EvTool "string list"

primrec do_event :: "run_event \<Rightarrow> job_run \<Rightarrow> job_run" where
  "do_event (EvStep t step phase) = say_marker t step phase"
| "do_event (EvResult t verdict step code undo) = say_result t verdict step code undo"
| "do_event (EvSentence l) = say l"
| "do_event (EvTool chunks) = tool_output chunks"

definition do_run :: "run_event list \<Rightarrow> job_run \<Rightarrow> job_run" where
  "do_run evs j = foldl (\<lambda>j e. do_event e j) j evs"

definition dashed :: "string \<Rightarrow> string" where
  "dashed s = (if s = [] then ''-'' else s)"

primrec event_markers :: "string \<Rightarrow> run_event \<Rightarrow> job_marker list" where
  "event_markers nonce (EvStep t step phase) = [step_of nonce step phase t]"
| "event_markers nonce (EvResult t verdict step code undo) = [result_of_run nonce verdict (dashed step) (dashed code) undo t]"
| "event_markers nonce (EvSentence l) = []"
| "event_markers nonce (EvTool chunks) = []"

text \<open>
  What a run may say: words that a marker may have, and sentences of one line that do not begin like a marker. There is no condition on
  what a tool prints.
\<close>

primrec event_ok :: "run_event \<Rightarrow> bool" where
  "event_ok (EvStep t step phase) \<longleftrightarrow>
     datable t \<and> stepWord step \<and> phase \<in> {''begin'', ''done'', ''failed'', ''skipped''}"
| "event_ok (EvResult t verdict step code undo) \<longleftrightarrow>
     datable t \<and> resultAgrees (result_of_run [] verdict (dashed step) (dashed code) undo t)"
| "event_ok (EvSentence l) \<longleftrightarrow> line_ok l \<and> cut_prefix jobMarkerPrefix l = None"
| "event_ok (EvTool chunks) \<longleftrightarrow> True"

text \<open>A run whose log is open has written these lines behind what was there.\<close>

definition adds :: "job_run \<Rightarrow> string list \<Rightarrow> job_run \<Rightarrow> bool" where
  "adds j ls j' \<longleftrightarrow>
     (\<exists>bytes. jr_log j = Some bytes \<and> jr_log j' = Some (bytes @ unlines ls)) \<and> list_all line_ok ls \<and>
     jr_name j' = jr_name j \<and> jr_nonce j' = jr_nonce j"

lemma adds_Nil: "jr_log j = Some bytes \<Longrightarrow> adds j [] j"
  by (simp add: adds_def)

lemma adds_trans: "adds j ls j1 \<Longrightarrow> adds j1 ks j2 \<Longrightarrow> adds j (ls @ ks) j2"
  by (auto simp: adds_def)

lemma adds_open: "adds j ls j' \<Longrightarrow> \<exists>bytes. jr_log j' = Some bytes"
  by (auto simp: adds_def)

lemma adds_say: "jr_log j = Some bytes \<Longrightarrow> line_ok l \<Longrightarrow> adds j [l] (say l j)"
  by (simp add: adds_def say_def append_log_def Let_def)

lemma adds_flush_line:
  assumes "jr_log j = Some bytes"
  shows "\<exists>ls. adds j ls (flush_line l j) \<and> list_all said_by_tool ls"
proof (cases "jr_tool j > maxToolOutput")
  case True
  then show ?thesis using assms adds_Nil by (intro exI [of _ "[]"]) (simp add: flush_line_def)
next
  case False
  let ?t = "''| '' @ printable l 400" and ?cut = "''| [the output is cut here]''"
  have ok: "said_by_tool ?t" "said_by_tool ?cut"
    using printable_length [of l 400] printable_no_newline [of l 400]
    by (auto simp: said_by_tool_def line_ok_def newline_def maxLine_def)
  have "adds j [?t] (flush_line l j) \<or> adds j [?cut] (flush_line l j)"
    using False assms ok by (auto simp: adds_def flush_line_def append_log_def Let_def said_by_tool_def)
  then show ?thesis
  proof
    assume "adds j [?t] (flush_line l j)"
    with ok(1) show ?thesis by (intro exI [of _ "[?t]"]) simp
  next
    assume "adds j [?cut] (flush_line l j)"
    with ok(2) show ?thesis by (intro exI [of _ "[?cut]"]) simp
  qed
qed

lemma adds_flush_lines:
  "jr_log j = Some bytes \<Longrightarrow> \<exists>ls. adds j ls (snd (flush_lines buf j)) \<and> list_all said_by_tool ls"
proof (induction buf j arbitrary: bytes rule: flush_lines.induct)
  case (1 buf j)
  show ?case
  proof (cases "dropWhile (\<lambda>c. c \<noteq> newline) buf")
    case Nil
    have "snd (flush_lines buf j) = j" by (subst flush_lines.simps) (simp only: Nil list.case snd_conv)
    then show ?thesis using adds_Nil [OF 1(2)] by (intro exI [of _ "[]"]) simp
  next
    case (Cons c rest)
    let ?j = "flush_line (takeWhile (\<lambda>c. c \<noteq> newline) buf) j"
    obtain ls where ls: "adds j ls ?j" "list_all said_by_tool ls" using adds_flush_line [OF 1(2)] by blast
    then obtain bytes' where "jr_log ?j = Some bytes'" using adds_open by blast
    from 1(1) [OF Cons this] obtain ks where "adds ?j ks (snd (flush_lines rest ?j))" "list_all said_by_tool ks" by blast
    then show ?thesis
      using adds_trans [OF ls(1)] ls(2) Cons by (subst flush_lines.simps) (auto intro!: exI [of _ "ls @ ks"])
  qed
qed

lemma adds_line_write:
  assumes "jr_log (snd w) = Some bytes"
  shows "\<exists>ls. adds (snd w) ls (snd (line_write p w)) \<and> list_all said_by_tool ls"
proof -
  obtain buf j where f: "flush_lines (fst w @ p) (snd w) = (buf, j)" by (cases "flush_lines (fst w @ p) (snd w)")
  obtain ls where ls: "adds (snd w) ls j" "list_all said_by_tool ls"
    using adds_flush_lines [OF assms, of "fst w @ p"] f by auto
  then obtain bytes' where "jr_log j = Some bytes'" using adds_open by blast
  then obtain ks where ks: "adds j ks (flush_line buf j)" "list_all said_by_tool ks" using adds_flush_line by blast
  show ?thesis
  proof (cases "length buf > 4096")
    case True
    then have "snd (line_write p w) = flush_line buf j" using f by (simp add: line_write_def)
    then show ?thesis using adds_trans [OF ls(1) ks(1)] ls(2) ks(2) by (auto intro!: exI [of _ "ls @ ks"])
  next
    case False
    then have "snd (line_write p w) = j" using f by (simp add: line_write_def)
    then show ?thesis using ls by auto
  qed
qed

lemma adds_tool_output:
  assumes "jr_log j = Some bytes"
  shows "\<exists>ls. adds j ls (tool_output chunks j) \<and> list_all said_by_tool ls"
proof (induction chunks rule: rev_induct)
  case Nil
  show ?case using assms adds_Nil by (intro exI [of _ "[]"]) (simp add: tool_output_def)
next
  case (snoc p ps)
  then obtain ls where ls: "adds j ls (tool_output ps j)" "list_all said_by_tool ls" by blast
  let ?w = "foldl (\<lambda>w p. line_write p w) ([], j) ps"
  have j: "tool_output ps j = snd ?w" "tool_output (ps @ [p]) j = snd (line_write p ?w)" by (simp_all add: tool_output_def)
  obtain bytes' where "jr_log (snd ?w) = Some bytes'" using adds_open [OF ls(1)] j by auto
  from adds_line_write [OF this, of p] obtain ks where "adds (snd ?w) ks (snd (line_write p ?w))" "list_all said_by_tool ks" by blast
  then show ?case using ls adds_trans [OF ls(1)] unfolding j by (auto intro!: exI [of _ "ls @ ks"])
qed

lemma step_line:
  assumes "moduleName name" "nonceOK nonce" "datable t" "stepWord step" "phase \<in> {''begin'', ''done'', ''failed'', ''skipped''}"
  defines "l \<equiv> join_on CHR '' '' [job_mkind_word stepMarker, nonce, name, step, phase, FormatTime t]"
  shows "line_ok l" "marker_of name (l, True) = Some (step_of nonce step phase t)"
proof -
  have "newline \<notin> set phase" "length phase \<le> 7" using assms(5) by (auto simp: newline_def)
  moreover have "length name \<le> 32" "length nonce = 32" "length step \<le> 32"
    using assms(1,2,4) by (simp_all add: moduleName_def nonceOK_def stepWord_def)
  ultimately show ok: "line_ok l"
    using words_plain(3) [OF assms(1)] words_plain(1) [OF assms(4)] nonceOK_plain [OF assms(2)] FormatTime_plain [OF assms(3)]
      FormatTime_length [OF assms(3)]
    by (simp add: line_ok_def l_def newline_def maxLine_def)
  show "marker_of name (l, True) = Some (step_of nonce step phase t)"
    unfolding marker_of_whole [OF ok] unfolding l_def by (rule parse_step_line [OF assms(2,1,4,5,3)])
qed

lemma resultAgrees_nonce: "resultAgrees (m\<lparr>jm_nonce := n\<rparr>) = resultAgrees m"
  by (simp add: resultAgrees_def)

lemma adds_event:
  assumes "jr_log j = Some bytes" "moduleName (jr_name j)" "nonceOK (jr_nonce j)" "event_ok e"
  shows "\<exists>ls. adds j ls (do_event e j) \<and> markers_of (jr_name j) (whole_lines ls) = event_markers (jr_nonce j) e"
proof (cases e)
  case (EvStep t step phase)
  let ?l = "join_on CHR '' '' [job_mkind_word stepMarker, jr_nonce j, jr_name j, step, phase, FormatTime t]"
  have c: "datable t" "stepWord step" "phase \<in> {''begin'', ''done'', ''failed'', ''skipped''}" using assms(4) EvStep by simp_all
  note l = step_line [OF assms(2,3) c]
  define j1 where "j1 = j\<lparr>jr_openStep := (if phase = ''begin'' then step else [])\<rparr>"
  have "do_event e j = say ?l j1" by (simp only: EvStep do_event.simps say_marker_def say_words_def Let_def j1_def)
  moreover have "adds j [?l] (say ?l j1)"
    using adds_say [of j1 bytes ?l] assms(1) l(1) by (simp only: adds_def j1_def) simp
  ultimately show ?thesis
    using l(2) EvStep by (intro exI [of _ "[?l]"]) (simp add: markers_of_Cons)
next
  case (EvResult t verdict step code undo)
  have c: "datable t" "resultAgrees (result_of_run [] verdict (dashed step) (dashed code) undo t)" using assms(4) EvResult by simp_all
  have "resultAgrees (result_of_run (jr_nonce j) verdict (dashed step) (dashed code) undo t)"
    using c(2) resultAgrees_nonce [where n = "jr_nonce j" and m = "result_of_run [] verdict (dashed step) (dashed code) undo t"]
    by (simp add: result_of_run_def new_job_marker_def)
  note l = result_line [OF assms(2,3) c(1) this]
  let ?l = "result_words (jr_name j) (jr_nonce j) verdict (dashed step) (dashed code) undo t"
  have "do_event e j = say ?l j" by (simp add: EvResult say_result_def say_words_def result_words_def dashed_def)
  then show ?thesis
    using adds_say [OF assms(1) l(1)] l(2) EvResult by (intro exI [of _ "[?l]"]) (simp add: markers_of_Cons)
next
  case (EvSentence l)
  then show ?thesis
    using assms(1,4) adds_say [OF assms(1), of l] silent_line [of l]
    by (intro exI [of _ "[l]"]) (simp add: markers_of_Cons)
next
  case (EvTool chunks)
  from adds_tool_output [OF assms(1), of chunks] obtain ls
    where ls: "adds j ls (tool_output chunks j)" "list_all said_by_tool ls" by blast
  have "markers_of (jr_name j) (whole_lines ls) = []"
    using ls(2) by (intro markers_of_silent) (auto simp: list_all_iff said_by_tool_silent)
  then show ?thesis using ls(1) EvTool by auto
qed

lemma adds_run:
  assumes "jr_log j = Some bytes" "moduleName (jr_name j)" "nonceOK (jr_nonce j)" "list_all event_ok evs"
  shows "\<exists>ls. adds j ls (do_run evs j) \<and>
    markers_of (jr_name j) (whole_lines ls) = concat (map (event_markers (jr_nonce j)) evs)"
  using assms(4)
proof (induction evs rule: rev_induct)
  case Nil
  show ?case using adds_Nil [OF assms(1)] by (intro exI [of _ "[]"]) (simp add: do_run_def)
next
  case (snoc e evs)
  then obtain ls where ls: "adds j ls (do_run evs j)"
    "markers_of (jr_name j) (whole_lines ls) = concat (map (event_markers (jr_nonce j)) evs)" by auto
  let ?j = "do_run evs j"
  obtain bytes' where "jr_log ?j = Some bytes'" using adds_open [OF ls(1)] by blast
  moreover have same: "jr_name ?j = jr_name j" "jr_nonce ?j = jr_nonce j" using ls(1) by (simp_all add: adds_def)
  ultimately obtain ks where "adds ?j ks (do_event e ?j)" "markers_of (jr_name j) (whole_lines ks) = event_markers (jr_nonce j) e"
    using adds_event [of ?j bytes' e] assms(2,3) snoc.prems by auto
  moreover have "do_run (evs @ [e]) j = do_event e ?j" by (simp add: do_run_def)
  ultimately show ?case
    using adds_trans [OF ls(1)] ls(2) by (intro exI [of _ "ls @ ks"]) (simp add: markers_of_append)
qed

lemma event_markers_nonce: "list_all (\<lambda>m. jm_nonce m = nonce) (concat (map (event_markers nonce) evs))"
proof -
  have "list_all (\<lambda>m. jm_nonce m = nonce) (event_markers nonce e)" for e
    by (cases e) (simp_all add: step_of_def result_of_run_def new_job_marker_def)
  then show ?thesis by (induction evs) auto
qed

text \<open>
  (C27) Of the log of a run that the core queued, the reader hears exactly what the run said, in its order, and nothing else: the kind is
  the queued one, the step is that of the last step line up to the first result, and the result is the first one that was
  said. This holds whatever bytes the tools printed, in whatever chunks, and wherever among the lines of the run.
\<close>

theorem run_is_read_back:
  assumes "moduleName name" "nonceOK nonce" "ValidKind kind" "datable t" "whole_second t \<noteq> zero_time"
    and "jr_name j = name" "jr_nonce j = nonce" "jr_log j = Some (QueuedLine name nonce kind t)"
    and "list_all event_ok evs" "jr_log (do_run evs j) = Some bytes" "length bytes \<le> logScanBytes"
  shows "word_of (scanLog bytes (NewReducer name [])) = reading_of nonce kind t (concat (map (event_markers nonce) evs))"
proof -
  let ?q = "queued_words name nonce kind t"
  obtain ls where ls: "adds j ls (do_run evs j)" "markers_of name (whole_lines ls) = concat (map (event_markers nonce) evs)"
    using adds_run [OF assms(8)] assms(1,2,6,7,9) by blast
  have bytes: "bytes = unlines (?q # ls)"
    using ls(1) assms(8,10) QueuedLine_unlines [of name nonce kind t] by (simp add: adds_def)
  have "list_all line_ok (?q # ls)"
    using ls(1) queued_words_ok [OF assms(1-4)] by (simp add: adds_def line_ok_def maxLine_def)
  then have scan: "scanLog bytes (NewReducer name []) = feed_all (NewReducer name []) (whole_lines (?q # ls))"
    using assms(11) unfolding bytes by (rule scanLog_unlines)
  show ?thesis
    unfolding scan word_feed_all list.map(2) [of _ ?q] by (rule read_begun_log [OF assms(1-5) ls(2) event_markers_nonce])
qed

definition example_run :: job_run where
  "example_run = (newJob example_job_nonce ''virt'')\<lparr>jr_log := Some (QueuedLine ''virt'' example_job_nonce ''update'' example_noon)\<rparr>"

definition example_events :: "run_event list" where
  "example_events =
     [EvStep example_noon ''stop'' ''begin'',
      EvTool [''CASAOS_MODULE_RESULT '', example_job_nonce @ '' virt ok done - - 2026-10-18T12:00:00Z'' @ [newline, newline] @ ''end''],
      EvResult example_noon ''failed'' ''stop'' ''stop_failed'' ''rolled_back'']"

lemma example_noon_text: "FormatTime example_noon = ''2026-10-18T12:00:00Z''"
  by code_simp

lemma example_words: "moduleName ''virt''" "nonceOK example_job_nonce" "ValidKind ''update''"
  unfolding example_job_nonce_def by code_simp+

lemma example_events_ok: "list_all event_ok example_events"
proof -
  have "stepWord ''stop''" by code_simp
  moreover have "resultAgrees (result_of_run [] ''failed'' ''stop'' ''stop_failed'' ''rolled_back'' example_noon)" by code_simp
  ultimately show ?thesis using example_noon_datable(1) by (simp add: example_events_def dashed_def)
qed

lemma example_run_log:
  obtains bytes where "jr_log (do_run example_events example_run) = Some bytes" "length bytes \<le> logScanBytes"
proof -
  have "case jr_log (do_run example_events example_run) of None \<Rightarrow> False | Some b \<Rightarrow> int (length b) < 1000"
    by code_simp
  then have "\<exists>bytes. jr_log (do_run example_events example_run) = Some bytes \<and> length bytes < 1000"
    by (auto split: option.splits)
  then obtain bytes where "jr_log (do_run example_events example_run) = Some bytes" "length bytes < 1000" by blast
  moreover have "(1000 :: nat) \<le> logScanBytes" by (simp add: logScanBytes_def)
  ultimately show thesis using that [of bytes] by linarith
qed

theorem run_is_read_back_witness:
  "\<exists>bytes. jr_log (do_run example_events example_run) = Some bytes \<and>
     jw_result (word_of (scanLog bytes (NewReducer ''virt'' []))) =
       Some (result_of_run example_job_nonce ''failed'' ''stop'' ''stop_failed'' ''rolled_back'' example_noon)"
proof -
  obtain bytes where b: "jr_log (do_run example_events example_run) = Some bytes" "length bytes \<le> logScanBytes"
    by (rule example_run_log)
  have "jr_name example_run = ''virt''" "jr_nonce example_run = example_job_nonce"
    "jr_log example_run = Some (QueuedLine ''virt'' example_job_nonce ''update'' example_noon)"
    using example_words(2) by (simp_all add: example_run_def newJob_def)
  from run_is_read_back [OF example_words example_noon_datable this example_events_ok b] b(1) show ?thesis
    by (intro exI [of _ bytes])
       (simp add: reading_of_def example_events_def step_of_def result_of_run_def new_job_marker_def dashed_def)
qed

end
