(* ===== verification/DockerPlanFacts.thy ===== *)
theory DockerPlanFacts
  imports DockerPlan
begin

section \<open>The plan of an update of Docker: what is accepted and what it is made of\<close>

text \<open>
  What a name and a version may be made of, what a plan that the button accepts is, that nothing else reaches the arguments of apt, and
  that two plans have the same lines exactly when they are the same plan.
\<close>

subsection \<open>The characters of names and versions\<close>

lemma base_rest: "drop (length (name_base s)) s = dropWhile (\<lambda>c. c \<noteq> CHR '':'') s"
  by (simp add: name_base_def dropWhile_eq_drop)

lemma base_colon: "s = name_base s \<or> (\<exists>r. s = name_base s @ CHR '':'' # r)"
proof (cases "dropWhile (\<lambda>c. c \<noteq> CHR '':'') s")
  case Nil
  then show ?thesis by (metis append_Nil2 name_base_def takeWhile_dropWhile_id)
next
  case (Cons c r)
  then have "c = CHR '':''" using hd_dropWhile [of "\<lambda>c. c \<noteq> CHR '':''" s] by force
  then show ?thesis using Cons by (metis name_base_def takeWhile_dropWhile_id)
qed

definition safe_char :: "char \<Rightarrow> bool" where
  "safe_char c \<longleftrightarrow> letter c \<or> is_digit c \<or> c \<in> set ''+.-~:=''"

lemma class_safe: "arch_char c \<Longrightarrow> name_char c" "name_char c \<Longrightarrow> safe_char c" "version_char c \<Longrightarrow> safe_char c" "is_digit c \<Longrightarrow> version_char c"
  by (auto simp: arch_char_def name_char_def version_char_def safe_char_def letter_def)

lemma ValidName_chars:
  assumes "ValidName n"
  shows "list_all (\<lambda>c. name_char c \<or> c = CHR '':'') n" "n \<noteq> []" "arch_char (hd n)"
proof -
  obtain c r where b: "name_base n = c # r" "arch_char c" "list_all name_char r"
    using assms by (auto simp: ValidName_def split: list.splits)
  have base: "list_all name_char (name_base n)" using b class_safe(1) by simp
  show "n \<noteq> []" using b by (auto simp: name_base_def)
  show "arch_char (hd n)" using b base_colon [of n] by (metis append_Cons list.sel(1))
  show "list_all (\<lambda>c. name_char c \<or> c = CHR '':'') n"
    using base_colon [of n]
  proof
    assume "n = name_base n"
    then show ?thesis using base by (metis (mono_tags, lifting) list.pred_mono_strong)
  next
    assume "\<exists>r. n = name_base n @ CHR '':'' # r"
    then obtain r where r: "n = name_base n @ CHR '':'' # r" by blast
    then have "drop (length (name_base n)) n = CHR '':'' # r" by (metis append_eq_conv_conj)
    then have "list_all arch_char r" using assms by (simp add: ValidName_def)
    then show ?thesis
      using base class_safe(1) unfolding arg_cong [OF r, of "list_all (\<lambda>c. name_char c \<or> c = CHR '':'')"]
      by (auto simp: list_all_iff)
  qed
qed

lemma upstream_chars: "upstream_ok v \<Longrightarrow> list_all version_char v \<and> v \<noteq> [] \<and> is_digit (hd v)"
  by (cases v) (auto simp: upstream_ok_def class_safe)

lemma ValidVersion_chars:
  assumes "ValidVersion v"
  shows "list_all (\<lambda>c. version_char c \<or> c = CHR '':'') v" "v \<noteq> []"
proof -
  have "list_all (\<lambda>c. version_char c \<or> c = CHR '':'') v \<and> v \<noteq> []"
    using base_colon [of v]
  proof
    assume "v = name_base v"
    then have "drop (length (name_base v)) v = []" by (metis drop_eq_Nil order_refl)
    then have "upstream_ok v" using assms by (simp add: ValidVersion_def)
    then show ?thesis using upstream_chars by (auto simp: list_all_iff)
  next
    assume "\<exists>r. v = name_base v @ CHR '':'' # r"
    then obtain r where r: "v = name_base v @ CHR '':'' # r" by blast
    then have "drop (length (name_base v)) v = CHR '':'' # r" by (metis append_eq_conv_conj)
    then have b: "list_all (\<lambda>c. is_digit c) (name_base v)" "upstream_ok r" using assms by (simp_all add: ValidVersion_def)
    have "list_all (\<lambda>c. version_char c \<or> c = CHR '':'') (name_base v @ CHR '':'' # r)"
      using b upstream_chars [OF b(2)] class_safe(4) by (auto simp: list_all_iff)
    then show ?thesis using r by (metis append_is_Nil_conv list.distinct(1))
  qed
  then show "list_all (\<lambda>c. version_char c \<or> c = CHR '':'') v" "v \<noteq> []" by blast+
qed

lemma not_in_class: "list_all P s \<Longrightarrow> \<not> P c \<Longrightarrow> c \<notin> set s"
  by (auto simp: list_all_iff)

lemma ValidName_free: "ValidName n \<Longrightarrow> c \<in> {CHR '' '', CHR 0x0A, CHR ''>'', CHR ''='', CHR ''('' } \<Longrightarrow> c \<notin> set n"
  by (rule not_in_class [OF ValidName_chars(1)]) (auto simp: name_char_def lower_def)

lemma ValidVersion_free: "ValidVersion v \<Longrightarrow> c \<in> {CHR '' '', CHR 0x0A, CHR ''>'', CHR ''=''} \<Longrightarrow> c \<notin> set v"
  by (rule not_in_class [OF ValidVersion_chars(1)]) (auto simp: version_char_def letter_def lower_def)

lemma ValidName_safe: "ValidName n \<Longrightarrow> list_all safe_char n"
  using ValidName_chars(1) [of n] by (auto simp: list_all_iff class_safe safe_char_def [of "CHR '':''"])

lemma ValidVersion_safe: "ValidVersion v \<Longrightarrow> list_all safe_char v"
  using ValidVersion_chars(1) [of v] by (auto simp: list_all_iff class_safe safe_char_def [of "CHR '':''"])

subsection \<open>What is accepted\<close>

definition acceptable_package :: "plan_package \<Rightarrow> bool" where
  "acceptable_package pkg \<longleftrightarrow>
     ValidName (pp_Name pkg) \<and> ValidVersion (pp_Candidate pkg) \<and>
     (if pp_New pkg then \<not> IsDistributionDocker (pp_Name pkg) else IsEngineName (pp_Name pkg) \<and> ValidVersion (pp_Current pkg))"

lemma pkg_offending_iff: "pkg_offending pkg \<longleftrightarrow> \<not> acceptable_package pkg"
  by (auto simp: pkg_offending_def acceptable_package_def)

definition acceptable :: "plan \<Rightarrow> bool" where
  "acceptable p \<longleftrightarrow>
     pl_Removed p = [] \<and> length (filter pp_New (pl_Packages p)) \<le> 10 \<and> list_all acceptable_package (pl_Packages p)"

lemma Offending_Nil: "Offending p = [] \<longleftrightarrow> acceptable p"
proof -
  have "sort xs = [] \<longleftrightarrow> xs = []" for xs :: "string list" by (metis length_0_conv length_sort)
  then show ?thesis
    by (auto simp: Offending_def acceptable_def MaxNewPackages_def pkg_offending_iff filter_empty_conv list_all_iff)
qed

lemma fixed_texts: "\<not> ValidName InvalidName" "\<not> ValidName TooManyNew"
  using ValidName_free [of InvalidName "CHR ''(''"] ValidName_free [of TooManyNew "CHR ''(''"]
  by (auto simp: InvalidName_def TooManyNew_def)

text \<open>
  (C34) What the button refuses is nothing exactly for the plans that remove nothing, upgrade only packages of the engine, bring in at most
  ten new packages and none of the distribution's Docker, and have only names and versions that pass validation; and
  what is refused is shown sorted, once each, as valid names or one of two texts that cannot be names.
\<close>

theorem offending_exactly:
  "(Offending p = [] \<longleftrightarrow> acceptable p) \<and> sorted (Offending p) \<and> distinct (Offending p) \<and>
   list_all (\<lambda>n. if n = InvalidName \<or> n = TooManyNew then \<not> ValidName n else ValidName n) (Offending p)"
proof (intro conjI)
  show "list_all (\<lambda>n. if n = InvalidName \<or> n = TooManyNew then \<not> ValidName n else ValidName n) (Offending p)"
    using fixed_texts by (auto simp: Offending_def list_all_iff shown_name_def)
qed (simp_all add: Offending_Nil, simp_all add: Offending_def)

text \<open>
  (C35) Nothing that failed validation reaches an argument of apt, even of a plan that should have been refused: every pin is a package of
  the engine, an equals sign and a valid version, begins with a letter or a digit (so that it is no option) and has
  no character that a shell reads; every name is valid; and of a plan that is accepted no package is left out.
\<close>

theorem arguments_are_safe:
  "list_all (\<lambda>pin. list_all safe_char pin \<and> arch_char (hd pin) \<and> IsEngineName (takeWhile (\<lambda>c. c \<noteq> CHR ''='') pin) \<and>
               ValidVersion (tl (dropWhile (\<lambda>c. c \<noteq> CHR ''='') pin))) (Pins p) \<and>
   list_all ValidName (Names p) \<and>
   (Offending p = [] \<longrightarrow>
      mset (Names p) = mset (map pp_Name (pl_Packages p)) \<and>
      length (Pins p) + length (filter pp_New (pl_Packages p)) = length (pl_Packages p))"
proof (intro conjI impI)
  have "list_all safe_char (n @ ''='' @ v) \<and> arch_char (hd (n @ ''='' @ v)) \<and>
      IsEngineName (takeWhile (\<lambda>c. c \<noteq> CHR ''='') (n @ ''='' @ v)) \<and> ValidVersion (tl (dropWhile (\<lambda>c. c \<noteq> CHR ''='') (n @ ''='' @ v)))"
    if "ValidName n" "IsEngineName n" "ValidVersion v" for n v
  proof -
    have no: "CHR ''='' \<notin> set n" using ValidName_free [OF that(1)] by simp
    then have "takeWhile (\<lambda>c. c \<noteq> CHR ''='') (n @ ''='' @ v) = n" "dropWhile (\<lambda>c. c \<noteq> CHR ''='') (n @ ''='' @ v) = ''='' @ v"
      by (auto simp: takeWhile_append dropWhile_append)
    then show ?thesis
      using that ValidName_safe ValidVersion_safe ValidName_chars(2,3) [OF that(1)] by (simp add: safe_char_def)
  qed
  then show "list_all (\<lambda>pin. list_all safe_char pin \<and> arch_char (hd pin) \<and> IsEngineName (takeWhile (\<lambda>c. c \<noteq> CHR ''='') pin) \<and>
               ValidVersion (tl (dropWhile (\<lambda>c. c \<noteq> CHR ''='') pin))) (Pins p)"
    by (auto simp: Pins_def list_all_iff pkg_offending_iff acceptable_package_def)
  show "list_all ValidName (Names p)"
    by (auto simp: Names_def list_all_iff pkg_offending_iff acceptable_package_def)
  assume "Offending p = []"
  then have a: "\<forall>pkg\<in>set (pl_Packages p). \<not> pkg_offending pkg"
    by (auto simp: Offending_Nil acceptable_def pkg_offending_iff list_all_iff)
  then show "mset (Names p) = mset (map pp_Name (pl_Packages p))" by (simp add: Names_def filter_True)
  have "filter (\<lambda>pkg. \<not> pp_New pkg \<and> \<not> pkg_offending pkg) (pl_Packages p) = filter (\<lambda>pkg. \<not> pp_New pkg) (pl_Packages p)"
    using a by (intro filter_cong) auto
  then show "length (Pins p) + length (filter pp_New (pl_Packages p)) = length (pl_Packages p)"
    using sum_length_filter_compl [of pp_New "pl_Packages p"] by (simp add: Pins_def)
qed

definition example_inst :: string where
  "example_inst = ''Inst docker-ce [5:28.0.4-1~debian.11] (5:29.8.0-1~debian.11 Docker CE:bullseye [amd64])''"

definition example_new :: string where
  "example_new = ''Inst nftables (0.9.8-3.1 Debian:11 [amd64])''"

definition example_simulation :: "string list \<Rightarrow> string" where
  "example_simulation ls = join_on CHR 0x0A (''Reading package lists...'' # ls)"

lemma example_offending:
  "Offending (ParsePlan (example_simulation [example_inst, example_new])) = []"
  "Offending (ParsePlan (example_simulation [example_new, example_inst])) = []"
  unfolding example_simulation_def example_inst_def example_new_def by code_simp+

lemma example_packages:
  "map pp_Name (pl_Packages (ParsePlan (example_simulation [example_inst, example_new]))) = [''docker-ce'', ''nftables'']"
  "pl_Packages (ParsePlan (example_simulation [example_new, example_inst])) =
     rev (pl_Packages (ParsePlan (example_simulation [example_inst, example_new])))"
  unfolding example_simulation_def example_inst_def example_new_def by code_simp+

theorem arguments_are_safe_witness:
  "mset (Names (ParsePlan (example_simulation [example_inst, example_new]))) = {#''docker-ce'', ''nftables''#}"
  using arguments_are_safe [of "ParsePlan (example_simulation [example_inst, example_new])"] example_offending(1)
  unfolding example_packages(1) by simp

subsection \<open>What a plan is identified by\<close>

lemma inst_package_new: "pp_New (inst_package s) \<Longrightarrow> pp_Current (inst_package s) = []"
  by (auto simp: inst_package_def Let_def split: option.splits if_splits)

lemma ParsePlan_packages: "list_all (\<lambda>pkg. pp_New pkg \<longrightarrow> pp_Current pkg = []) (pl_Packages (ParsePlan s))"
proof -
  let ?P = "list_all (\<lambda>pkg. pp_New pkg \<longrightarrow> pp_Current pkg = [])"
  have "?P (pl_Packages (add_line p l))" if "?P (pl_Packages p)" for p l
    using that inst_package_new by (simp add: add_line_def split: option.split)
  then have "?P (pl_Packages (foldl add_line p ls))" if "?P (pl_Packages p)" for p ls
    using that by (induction ls arbitrary: p) auto
  then show ?thesis unfolding ParsePlan_def by simp
qed

lemma join_on_inj:
  assumes "\<forall>w\<in>set ws. w \<noteq> [] \<and> c \<notin> set w" "\<forall>w\<in>set vs. w \<noteq> [] \<and> c \<notin> set w" "join_on c ws = join_on c vs"
  shows "ws = vs"
proof -
  have nil: "join_on c us = [] \<longleftrightarrow> us = []" if "\<forall>w\<in>set us. w \<noteq> [] \<and> c \<notin> set w" for us
  proof (cases us)
    case (Cons w ws)
    then show ?thesis using that by (cases ws) auto
  qed simp
  show ?thesis
    using assms nil split_join_on [of ws c] split_join_on [of vs c] by metis
qed

lemma mset_map_inj:
  assumes "inj_on f (set xs \<union> set ys)" "mset (map f xs) = mset (map f ys)"
  shows "mset xs = mset ys"
proof -
  let ?g = "the_inv_into (set xs \<union> set ys) f"
  have inv: "image_mset ?g (mset (map f zs)) = mset zs" if "set zs \<subseteq> set xs \<union> set ys" for zs
    using that the_inv_into_f_f [OF assms(1)] by (induction zs) auto
  have "mset xs = image_mset ?g (mset (map f xs))" by (rule inv [symmetric]) simp
  also have "\<dots> = image_mset ?g (mset (map f ys))" by (simp only: assms(2))
  also have "\<dots> = mset ys" by (rule inv) simp
  finally show ?thesis .
qed

lemma sort_eq_iff:
  fixes xs ys :: "string list"
  shows "sort xs = sort ys \<longleftrightarrow> mset xs = mset ys"
  by (metis mset_sort properties_for_sort sorted_sort)

text \<open>A package of a simulation that is accepted, and its line.\<close>

definition line_of :: "plan_package \<Rightarrow> bool" where
  "line_of pkg \<longleftrightarrow> acceptable_package pkg \<and> (pp_New pkg \<longrightarrow> pp_Current pkg = [])"

lemma package_line_facts:
  assumes "line_of pkg"
  shows "package_line pkg \<noteq> []" "CHR 0x0A \<notin> set (package_line pkg)" "CHR ''>'' \<in> set (package_line pkg)"
proof -
  have v: "ValidName (pp_Name pkg)" "ValidVersion (pp_Candidate pkg)" "pp_Current pkg = [] \<or> ValidVersion (pp_Current pkg)"
    using assms by (auto simp: line_of_def acceptable_package_def split: if_splits)
  have "CHR 0x0A \<notin> set (pp_Name pkg)" using ValidName_free [OF v(1), of "CHR 0x0A"] by simp
  moreover have "CHR 0x0A \<notin> set (pp_Candidate pkg)" using ValidVersion_free [OF v(2), of "CHR 0x0A"] by simp
  moreover have "CHR 0x0A \<notin> set (pp_Current pkg)"
    using v(3) ValidVersion_free [of "pp_Current pkg" "CHR 0x0A"] by (elim disjE) simp_all
  ultimately show "package_line pkg \<noteq> []" "CHR 0x0A \<notin> set (package_line pkg)" "CHR ''>'' \<in> set (package_line pkg)"
    by (simp_all add: package_line_def)
qed

lemma append_sep_inj: "c \<notin> set a \<Longrightarrow> c \<notin> set a' \<Longrightarrow> a @ c # b = a' @ c # b' \<Longrightarrow> a = a' \<and> b = b'"
proof (induction a arbitrary: a')
  case Nil
  then show ?case by (cases a') auto
next
  case (Cons x a)
  then show ?case by (cases a') auto
qed

lemma package_line_inj: "inj_on package_line {pkg. line_of pkg}"
proof (rule inj_onI)
  fix x y assume xy: "x \<in> {pkg. line_of pkg}" "y \<in> {pkg. line_of pkg}" "package_line x = package_line y"
  have v: "ValidName (pp_Name z)" "ValidVersion (pp_Candidate z)" "pp_New z \<longleftrightarrow> pp_Current z = []" "CHR ''>'' \<notin> set (pp_Current z)"
    if "z \<in> {pkg. line_of pkg}" for z
    using that ValidVersion_chars(2) [of "pp_Current z"] ValidVersion_free [of "pp_Current z" "CHR ''>''"]
    by (auto simp: line_of_def acceptable_package_def split: if_splits)
  have "pp_Name x = pp_Name y" "pp_Current x @ CHR ''>'' # pp_Candidate x = pp_Current y @ CHR ''>'' # pp_Candidate y"
    using append_sep_inj [of "CHR '' ''" "pp_Name x" "pp_Name y"] xy ValidName_free [OF v(1)] by (auto simp: package_line_def)
  moreover from this(2) have "pp_Current x = pp_Current y" "pp_Candidate x = pp_Candidate y"
    using append_sep_inj [of "CHR ''>''" "pp_Current x" "pp_Current y"] v(4) [OF xy(1)] v(4) [OF xy(2)] by auto
  ultimately show "x = y" using v(3) [OF xy(1)] v(3) [OF xy(2)] by simp
qed

lemma heldLine_facts:
  assumes "list_all ValidName h"
  shows "heldLine h \<noteq> []" "CHR 0x0A \<notin> set (heldLine h)" "CHR ''>'' \<notin> set (heldLine h)"
proof -
  have "c \<notin> \<Union> (set ` set (sort h))" if "c \<in> {CHR 0x0A, CHR ''>''}" for c
    using assms that ValidName_free by (auto simp: list_all_iff)
  then have "c \<notin> set (join_on CHR '' '' (sort h))" if "c \<in> {CHR 0x0A, CHR ''>''}" for c
    using that set_join_on [of "CHR '' ''" "sort h"] by fastforce
  then show "heldLine h \<noteq> []" "CHR 0x0A \<notin> set (heldLine h)" "CHR ''>'' \<notin> set (heldLine h)"
    by (simp_all add: heldLine_def)
qed

lemma heldLine_inj: "list_all ValidName h \<Longrightarrow> list_all ValidName h' \<Longrightarrow> heldLine h = heldLine h' \<Longrightarrow> sort h = sort h'"
  using join_on_inj [of "sort h" "CHR '' ''" "sort h'"] ValidName_free ValidName_chars(2)
  by (auto simp: heldLine_def list_all_iff)

text \<open>The lines of a plan that is accepted: those of the packages have an angle bracket, the one of the holds has none.\<close>

definition lined :: "plan \<Rightarrow> bool" where
  "lined p \<longleftrightarrow> list_all line_of (pl_Packages p) \<and> list_all ValidName (pl_Held p)"

abbreviation package_lines :: "plan \<Rightarrow> string list" where
  "package_lines p \<equiv> map package_line (pl_Packages p)"

abbreviation held_lines :: "plan \<Rightarrow> string list" where
  "held_lines p \<equiv> if pl_Held p \<noteq> [] then [heldLine (pl_Held p)] else []"

lemma plan_lines_words: "lined p \<Longrightarrow> \<forall>w\<in>set (plan_lines p). w \<noteq> [] \<and> CHR 0x0A \<notin> set w"
  using package_line_facts heldLine_facts by (auto simp: lined_def plan_lines_def list_all_iff)

lemma mset_plan_lines: "mset (plan_lines p) = mset (package_lines p) + mset (held_lines p)"
  by (simp add: plan_lines_def)

lemma filter_package_lines: "lined p \<Longrightarrow> filter (\<lambda>l. CHR ''>'' \<in> set l) (package_lines p @ held_lines p) = package_lines p"
  "lined p \<Longrightarrow> filter (\<lambda>l. CHR ''>'' \<notin> set l) (package_lines p @ held_lines p) = held_lines p"
  using package_line_facts(3) heldLine_facts(3) by (auto simp: lined_def list_all_iff filter_empty_conv intro: filter_True)

lemma plan_lines_same:
  assumes "lined p" "lined q" "plan_lines p = plan_lines q"
  shows "mset (pl_Packages p) = mset (pl_Packages q)" "mset (pl_Held p) = mset (pl_Held q)"
proof -
  have m: "mset (package_lines p @ held_lines p) = mset (package_lines q @ held_lines q)"
    using assms(3) mset_plan_lines [of p] mset_plan_lines [of q] by simp
  have pk: "mset (package_lines p) = mset (package_lines q)"
    using arg_cong [OF m, of "filter_mset (\<lambda>l. CHR ''>'' \<in> set l)"] filter_package_lines(1) [OF assms(1)] filter_package_lines(1) [OF assms(2)]
    by (metis mset_filter)
  show "mset (pl_Packages p) = mset (pl_Packages q)"
    by (rule mset_map_inj [OF _ pk], rule inj_on_subset [OF package_line_inj])
       (use assms(1,2) in \<open>auto simp: lined_def list_all_iff\<close>)
  have "mset (held_lines p) = mset (held_lines q)" using m pk by simp
  then have "heldLine (pl_Held p) = heldLine (pl_Held q) \<and> pl_Held p \<noteq> [] \<and> pl_Held q \<noteq> [] \<or> pl_Held p = [] \<and> pl_Held q = []"
    by (auto split: if_splits)
  then show "mset (pl_Held p) = mset (pl_Held q)"
    using heldLine_inj assms(1,2) sort_eq_iff unfolding lined_def by metis
qed


lemma Offending_held: "Offending (p\<lparr>pl_Held := h\<rparr>) = Offending p"
  by (simp add: Offending_def)


end
