(* ===== verification/DockerRunFacts.thy ===== *)
theory DockerRunFacts
  imports DockerPlanFacts DockerRun
begin

section \<open>The log of an update of Docker: what the reader reads\<close>

text \<open>
  The lines that the core writes and what they are read as, what a line of another writer does (nothing), what every run that is read
  keeps to, and that its phase only goes forward.
\<close>

subsection \<open>Words and lines\<close>

lemma fields_single:
  assumes "w \<noteq> []" "list_all (\<lambda>c. \<not> white c) w"
  shows "DockerPlan.fields w = [w]"
proof -
  have d: "dropWhile white w = w" using assms by (cases w) simp_all
  have t: "takeWhile (\<lambda>c. \<not> white c) w = w" "dropWhile (\<lambda>c. \<not> white c) w = []"
    using assms(2) by (simp_all add: takeWhile_eq_all_conv list_all_iff)
  show ?thesis using assms(1) fields.simps [of "[]"] by (simp add: fields.simps [of w] d t)
qed

lemma fields_word:
  assumes "w \<noteq> []" "list_all (\<lambda>c. \<not> white c) w"
  shows "DockerPlan.fields (w @ CHR '' '' # s) = w # DockerPlan.fields s"
proof -
  let ?t = "w @ CHR '' '' # s"
  have blank: "white (CHR '' '')" by (simp add: white_def)
  have "dropWhile white ?t = ?t" using assms by (cases w) simp_all
  moreover have "takeWhile (\<lambda>c. \<not> white c) ?t = w" "dropWhile (\<lambda>c. \<not> white c) ?t = CHR '' '' # s"
    using assms(2) blank by (simp_all add: takeWhile_append dropWhile_append list_all_iff)
  moreover have "DockerPlan.fields (CHR '' '' # s) = DockerPlan.fields s"
    using blank by (simp add: fields.simps [of "CHR '' '' # s"] fields.simps [of s])
  ultimately show ?thesis by (simp add: fields.simps [of ?t])
qed

lemma cut_blank_append: "CHR '' '' \<notin> set w \<Longrightarrow> cut_blank (w @ CHR '' '' # s) = (w, Some s)"
  by (auto simp: cut_blank_def takeWhile_append dropWhile_append)

lemma trim_cr_id: "s = [] \<or> last s \<noteq> CHR 0x0D \<Longrightarrow> trim_cr s = s"
proof (cases s rule: rev_cases)
  case (snoc t c)
  moreover assume "s = [] \<or> last s \<noteq> CHR 0x0D"
  ultimately show ?thesis by (simp add: trim_cr_def)
qed (simp add: trim_cr_def)

text \<open>A marker with words behind the nonce is read as its kind and its words.\<close>

lemma markerOf_words:
  assumes "CHR '' '' \<notin> set kind" "nonceOK nonce" "s \<noteq> []" "last s \<noteq> CHR 0x0D"
  shows "markerOf (trim_cr (dockerPrefix @ kind @ '' '' @ nonce @ '' '' @ s)) nonce = Some (kind, DockerPlan.fields s)"
proof -
  have "trim_cr (dockerPrefix @ kind @ '' '' @ nonce @ '' '' @ s) = dockerPrefix @ kind @ '' '' @ nonce @ '' '' @ s"
    using assms(3,4) by (intro trim_cr_id) simp
  moreover have "cut_blank (kind @ '' '' @ nonce @ '' '' @ s) = (kind, Some (nonce @ '' '' @ s))"
    "cut_blank (nonce @ '' '' @ s) = (nonce, Some s)"
    using assms(1) nonceOK_free [OF assms(2), of "CHR '' ''"] by (simp_all add: cut_blank_append)
  ultimately show ?thesis by (simp add: markerOf_def)
qed


subsection \<open>Lines that say nothing\<close>

lemma take_docker_nonce: "dr_Nonce (fst (take_docker kind fs s)) = dr_Nonce (fst s)"
  by (cases s) (auto simp: take_docker_def split: option.splits list.splits if_splits)

lemma docker_line_nonce [simp]: "dr_Nonce (fst (docker_line s l)) = dr_Nonce (fst s)"
  by (simp add: docker_line_def take_docker_nonce split: option.split)

lemma docker_lines_nonce [simp]: "dr_Nonce (fst (foldl docker_line s ls)) = dr_Nonce (fst s)"
  by (induction ls arbitrary: s) simp_all

text \<open>The lines of a run: the prefix, a kind without a blank, a blank and the nonce, with nothing or a blank behind it.\<close>

definition line_of_run :: "string \<Rightarrow> string \<Rightarrow> bool" where
  "line_of_run nonce line \<longleftrightarrow>
     (\<exists>kind r. CHR '' '' \<notin> set kind \<and> line = dockerPrefix @ kind @ '' '' @ nonce @ r \<and> (r = [] \<or> hd r = CHR '' ''))"

lemma cut_blank_Some: "cut_blank s = (w, Some r) \<Longrightarrow> s = w @ '' '' @ r \<and> CHR '' '' \<notin> set w"
proof -
  assume c: "cut_blank s = (w, Some r)"
  then have w: "w = takeWhile (\<lambda>c. c \<noteq> CHR '' '') s" by (simp add: cut_blank_def)
  obtain b where b: "dropWhile (\<lambda>c. c \<noteq> CHR '' '') s = b # r" using c by (auto simp: cut_blank_def split: list.splits)
  then have "b = CHR '' ''" using hd_dropWhile [of "\<lambda>c. c \<noteq> CHR '' ''" s] by force
  then show ?thesis using b w takeWhile_dropWhile_id [of "\<lambda>c. c \<noteq> CHR '' ''" s] by (auto dest: set_takeWhileD)
qed

lemma cut_blank_None: "cut_blank s = (w, None) \<Longrightarrow> s = w"
proof -
  assume c: "cut_blank s = (w, None)"
  have d: "dropWhile (\<lambda>c. c \<noteq> CHR '' '') s = []"
    using c by (cases "dropWhile (\<lambda>c. c \<noteq> CHR '' '') s") (simp_all add: cut_blank_def)
  have "s = takeWhile (\<lambda>c. c \<noteq> CHR '' '') s @ dropWhile (\<lambda>c. c \<noteq> CHR '' '') s" by simp
  then show ?thesis using c unfolding d by (simp add: cut_blank_def)
qed

lemma markerOf_line: "markerOf line nonce = Some m \<Longrightarrow> line_of_run nonce line"
proof -
  assume "markerOf line nonce = Some m"
  then obtain rest kind rest1 rest2 where p: "line = dockerPrefix @ rest" "cut_blank rest = (kind, Some rest1)" "cut_blank rest1 = (nonce, rest2)"
    unfolding markerOf_def by (auto simp: cut_prefix_Some_iff split: option.splits prod.splits if_splits)
  have "\<exists>r. rest1 = nonce @ r \<and> (r = [] \<or> hd r = CHR '' '')"
  proof (cases rest2)
    case None
    then show ?thesis using p(3) cut_blank_None [of rest1 nonce] by simp
  next
    case (Some r)
    then show ?thesis using p(3) cut_blank_Some [of rest1 nonce r] by simp
  qed
  then obtain r where "rest1 = nonce @ r" "r = [] \<or> hd r = CHR '' ''" by blast
  moreover have "rest = kind @ '' '' @ rest1" "CHR '' '' \<notin> set kind" using cut_blank_Some [OF p(2)] by simp_all
  ultimately show ?thesis using p(1) unfolding line_of_run_def by blast
qed

lemma not_line_of_run: "\<not> line_of_run nonce line \<Longrightarrow> markerOf line nonce = None"
  using markerOf_line by (meson not_Some_eq)

interpretation docker_reader:
  line_reader docker_line "(=)" "\<lambda>s l. markerOf (trim_cr l) (dr_Nonce (fst s)) = None"
  by unfold_locales (simp_all add: docker_line_def)

lemma ParseRun_lines:
  assumes "list_all (\<lambda>l. CHR 0x0A \<notin> set l) (head # ls)"
  shows "ParseRun (join_on CHR 0x0A (head # ls)) =
    (case queued_run head of None \<Rightarrow> no_run | Some run \<Rightarrow> fst (foldl docker_line (run, False) ls))"
  using assms split_join_on [of "head # ls" "CHR 0x0A"] by (simp add: ParseRun_def Let_def list_all_iff del: join_on.simps cong: option.case_cong)

lemma ParseRun_nonce:
  assumes "list_all (\<lambda>l. CHR 0x0A \<notin> set l) (head # ls)"
  shows "dr_Nonce (ParseRun (join_on CHR 0x0A (head # ls))) = (case queued_run head of None \<Rightarrow> [] | Some run \<Rightarrow> dr_Nonce run)"
  unfolding ParseRun_lines [OF assms] by (simp add: no_run_def split: option.split)

text \<open>
  Nothing that apt, dpkg, a script of a package or Docker prints says anything of the run: with any number of lines anywhere behind the
  first one that do not begin with the prefix of the markers and the nonce of the run, a log reads as without them,
  whatever they look like (a marker in the middle of a line, a marker of another run, a terminal marker with a forged nonce).
\<close>

theorem docker_log_foreign_lines:
  assumes "list_all (\<lambda>l. CHR 0x0A \<notin> set l) (head # xs @ zs @ ys)"
    and "list_all (\<lambda>z. \<not> line_of_run (dr_Nonce (ParseRun (join_on CHR 0x0A (head # xs)))) (trim_cr z)) zs"
  shows "ParseRun (join_on CHR 0x0A (head # xs @ zs @ ys)) = ParseRun (join_on CHR 0x0A (head # xs @ ys))"
proof -
  have l: "list_all (\<lambda>l. CHR 0x0A \<notin> set l) (head # xs)" "list_all (\<lambda>l. CHR 0x0A \<notin> set l) (head # xs @ ys)"
    using assms(1) by simp_all
  show ?thesis
  proof (cases "queued_run head")
    case None
    then show ?thesis unfolding ParseRun_lines [OF assms(1)] ParseRun_lines [OF l(2)] by simp
  next
    case (Some run)
    let ?s = "foldl docker_line (run, False) xs"
    have "list_all (\<lambda>z. markerOf (trim_cr z) (dr_Nonce (fst ?s)) = None) zs"
      using assms(2) Some unfolding ParseRun_nonce [OF l(1)] by (simp add: list_all_iff not_line_of_run)
    then have "foldl docker_line ?s (zs @ ys) = foldl docker_line ?s ys" by (rule docker_reader.silent_lines)
    then show ?thesis unfolding ParseRun_lines [OF assms(1)] ParseRun_lines [OF l(2)] Some by simp
  qed
qed

definition example_docker_nonce :: string where
  "example_docker_nonce = replicate 32 (CHR ''b'')"

definition example_head :: string where
  "example_head = ''CASAOS_DOCKER_UPDATE_QUEUED '' @ example_docker_nonce @ '' 2026-10-18T12:00:00Z''"

definition example_forged :: string where
  "example_forged = ''CASAOS_DOCKER_UPDATE_SUCCESS '' @ replicate 32 (CHR ''c'') @ '' 2026-10-18T12:00:01Z''"

lemma example_log_facts:
  "list_all (\<lambda>l. CHR 0x0A \<notin> set l) [example_head, example_forged]"
  "trim_cr example_forged = dockerPrefix @ ''SUCCESS'' @ CHR '' '' # replicate 32 (CHR ''c'') @ '' 2026-10-18T12:00:01Z''"
  "queued_run example_head = Some (no_run\<lparr>dr_Nonce := example_docker_nonce, dr_QueuedAt := 63927921600 * second\<rparr>)"
  unfolding example_head_def example_forged_def example_docker_nonce_def by code_simp+

lemma example_forged_foreign: "\<not> line_of_run example_docker_nonce (trim_cr example_forged)"
proof
  assume "line_of_run example_docker_nonce (trim_cr example_forged)"
  then obtain kind r where k: "CHR '' '' \<notin> set kind"
    "''SUCCESS'' @ CHR '' '' # replicate 32 (CHR ''c'') @ '' 2026-10-18T12:00:01Z'' = kind @ CHR '' '' # example_docker_nonce @ r"
    unfolding line_of_run_def example_log_facts(2) by auto
  then have "replicate 32 (CHR ''c'') @ '' 2026-10-18T12:00:01Z'' = example_docker_nonce @ r"
    using append_sep_inj [of "CHR '' ''" "''SUCCESS''" kind] by simp
  then have "hd (replicate 32 (CHR ''c'')) = hd example_docker_nonce" by (simp add: example_docker_nonce_def numeral_eq_Suc)
  then show False by (simp add: example_docker_nonce_def)
qed

lemma ParseRun_one: "CHR 0x0A \<notin> set l \<Longrightarrow> ParseRun l = (case queued_run l of None \<Rightarrow> no_run | Some run \<Rightarrow> run)"
  using ParseRun_lines [of l "[]"] by (simp split: option.split)

theorem docker_log_foreign_lines_witness:
  "dr_Terminal (ParseRun (join_on CHR 0x0A [example_head, example_forged])) = None"
proof -
  have p: "ParseRun example_head = no_run\<lparr>dr_Nonce := example_docker_nonce, dr_QueuedAt := 63927921600 * second\<rparr>"
    using ParseRun_one [of example_head] example_log_facts by simp
  then have "ParseRun (join_on CHR 0x0A [example_head, example_forged]) = ParseRun example_head"
    using docker_log_foreign_lines [of example_head "[]" "[example_forged]" "[]"] example_log_facts(1) example_forged_foreign
    by (simp add: no_run_def)
  then show ?thesis by (simp add: p no_run_def)
qed

subsection \<open>What every run keeps to\<close>

definition held_ok :: "string list option \<Rightarrow> bool" where
  "held_ok h = (case h of None \<Rightarrow> True | Some ns \<Rightarrow> sorted ns \<and> distinct ns \<and> set ns \<subseteq> set EngineNames)"

definition previous_ok :: "bool \<Rightarrow> string list option \<Rightarrow> bool" where
  "previous_ok seen previous =
     (case previous of
        None \<Rightarrow> True
      | Some pins \<Rightarrow> seen \<and> pins \<noteq> [] \<and> distinct pins \<and> list_all validPin pins)"

definition sound_run :: "docker_run \<Rightarrow> bool" where
  "sound_run r \<longleftrightarrow>
     nonceOK (dr_Nonce r) \<and> (dr_Terminal r = Some TerminalFailed \<longleftrightarrow> dr_FailReason r \<noteq> None) \<and> previous_ok (dr_PreviousSeen r) (dr_Previous r) \<and>
     held_ok (dr_Held r) \<and> held_ok (dr_Holds r) \<and> (dr_DaemonVersion r = [] \<or> validDaemonVersion (dr_DaemonVersion r)) \<and>
     list_all (\<lambda>c. validContainerName (fst c) \<and> validRestartPolicy (snd c)) (dr_NotReturned r) \<and>
     (dr_From r = [] \<or> validPlanVersion (dr_From r)) \<and> (dr_To r = [] \<or> validPlanVersion (dr_To r))"

lemma heldNames_ok: "heldNames fs = Some ns \<Longrightarrow> held_ok (Some ns)"
proof -
  have "n \<in> set EngineNames" if "CHR '':'' \<notin> set n" "IsEngineName n" for n
  proof -
    have "name_base n = n" using that(1) by (auto simp: name_base_def takeWhile_eq_all_conv)
    then show ?thesis using that(2) by (simp add: IsEngineName_def)
  qed
  then show "heldNames fs = Some ns \<Longrightarrow> held_ok (Some ns)"
    by (auto simp: heldNames_def held_ok_def list_all_iff split: if_splits)
qed

lemma valid_pins_from_ok:
  "distinct (valid_pins_from seen fs) \<and> set (valid_pins_from seen fs) \<inter> set seen = {} \<and> list_all validPin (valid_pins_from seen fs)"
  by (induction seen fs rule: valid_pins_from.induct) auto

lemma validPins_ok: "validPins fs = Some pins \<Longrightarrow> pins \<noteq> [] \<and> distinct pins \<and> list_all validPin pins"
  using valid_pins_from_ok [of "[]" fs] by (auto simp: validPins_def Let_def split: if_splits)

lemma plan_field_ok: "plan_field f = Some v \<Longrightarrow> v = [] \<or> validPlanVersion v"
  by (auto simp: plan_field_def split: if_splits)

lemma planFields_ok:
  "planFields fs = Some (from, to, jump) \<Longrightarrow> (from = [] \<or> validPlanVersion from) \<and> (to = [] \<or> validPlanVersion to)"
  by (auto simp: planFields_def dest!: plan_field_ok split: list.splits option.splits if_splits)

lemma notReturned_ok: "notReturned fs = Some c \<Longrightarrow> validContainerName (fst c) \<and> validRestartPolicy (snd c)"
  by (auto simp: notReturned_def Let_def split: if_splits)

lemmas field_checks = heldNames_ok validPins_ok planFields_ok notReturned_ok

text \<open>What one line can do to a run; the flag is whether a plan was seen.\<close>

inductive docker_step :: "docker_run \<times> bool \<Rightarrow> docker_run \<times> bool \<Rightarrow> bool" where
  same: "docker_step s s"
| started: "dr_StartedAt run = zero_time \<Longrightarrow> docker_step (run, p) (run\<lparr>dr_StartedAt := t\<rparr>, p)"
| downloaded: "dr_DownloadedAt run = zero_time \<Longrightarrow> docker_step (run, p) (run\<lparr>dr_DownloadedAt := t\<rparr>, p)"
| installed: "dr_InstalledAt run = zero_time \<Longrightarrow> docker_step (run, p) (run\<lparr>dr_InstalledAt := t\<rparr>, p)"
| previous: "docker_step (run, p)
    (run\<lparr>dr_PreviousSeen := True, dr_Previous := (if dr_Previous run = None then validPins fs else dr_Previous run)\<rparr>, p)"
| plan: "planFields fs = Some (from, to, jump) \<Longrightarrow>
    docker_step (run, False) (run\<lparr>dr_From := from, dr_To := to, dr_MajorJump := jump\<rparr>, True)"
| held: "heldNames fs = Some ns \<Longrightarrow> dr_Held run = None \<Longrightarrow> docker_step (run, p) (run\<lparr>dr_Held := Some ns\<rparr>, p)"
| holds: "heldNames fs = Some ns \<Longrightarrow> docker_step (run, p) (run\<lparr>dr_Holds := Some ns\<rparr>, p)"
| daemon: "validDaemonVersion v \<Longrightarrow> docker_step (run, p) (run\<lparr>dr_DaemonVersion := v\<rparr>, p)"
| container: "notReturned fs = Some c \<Longrightarrow> docker_step (run, p) (run\<lparr>dr_NotReturned := dr_NotReturned run @ [c]\<rparr>, p)"
| ended: "e \<noteq> TerminalFailed \<Longrightarrow>
    docker_step (run, p) (run\<lparr>dr_Terminal := Some e, dr_FailReason := None, dr_CompletedAt := t\<rparr>, p)"
| failed: "docker_step (run, p) (run\<lparr>dr_Terminal := Some TerminalFailed, dr_FailReason := Some reason, dr_CompletedAt := t\<rparr>, p)"

lemma take_docker_step: "docker_step s (take_docker kind fs s)"
proof (cases s)
  case (Pair run p)
  show ?thesis
    unfolding Pair take_docker_def
    by (simp add: docker_step.intros split: option.split list.split prod.split)
qed

lemma docker_line_step: "docker_step s (docker_line s l)"
  by (auto simp: docker_line_def intro: docker_step.same take_docker_step split: option.split)

lemma validDaemonVersion_not_Nil: "validDaemonVersion v \<Longrightarrow> v \<noteq> []"
  by (auto simp: validDaemonVersion_def)

text \<open>The rule of the state of the reader, and how the state may change.\<close>

definition reader_rule :: "docker_run \<times> bool \<Rightarrow> bool" where
  "reader_rule s \<longleftrightarrow> sound_run (fst s) \<and> (\<not> snd s \<longrightarrow> dr_From (fst s) = [] \<and> dr_To (fst s) = [] \<and> \<not> dr_MajorJump (fst s))"

definition kept :: "'a \<Rightarrow> 'a \<Rightarrow> 'a \<Rightarrow> bool" where
  "kept none x y \<longleftrightarrow> x = none \<or> y = x"

definition grows :: "docker_run \<Rightarrow> docker_run \<Rightarrow> bool" where
  "grows r r' \<longleftrightarrow>
     dr_Nonce r' = dr_Nonce r \<and> dr_QueuedAt r' = dr_QueuedAt r \<and> kept zero_time (dr_StartedAt r) (dr_StartedAt r') \<and>
     kept zero_time (dr_DownloadedAt r) (dr_DownloadedAt r') \<and> kept zero_time (dr_InstalledAt r) (dr_InstalledAt r') \<and>
     kept None (dr_Previous r) (dr_Previous r') \<and> kept None (dr_Held r) (dr_Held r') \<and>
     kept ([], [], False) (dr_From r, dr_To r, dr_MajorJump r) (dr_From r', dr_To r', dr_MajorJump r') \<and>
     (dr_PreviousSeen r \<longrightarrow> dr_PreviousSeen r') \<and> (dr_DaemonVersion r \<noteq> [] \<longrightarrow> dr_DaemonVersion r' \<noteq> []) \<and>
     (dr_Terminal r \<noteq> None \<longrightarrow> dr_Terminal r' \<noteq> None) \<and>
     take (length (dr_NotReturned r)) (dr_NotReturned r') = dr_NotReturned r"

lemma kept_trans: "kept none x y \<Longrightarrow> kept none y z \<Longrightarrow> kept none x z"
  by (auto simp: kept_def)

lemma take_length_trans: "take (length a) b = a \<Longrightarrow> take (length b) c = b \<Longrightarrow> take (length a) c = a"
  by (metis append_take_drop_id append.assoc append_eq_conv_conj)

lemma grows_trans: "grows r s \<Longrightarrow> grows s t \<Longrightarrow> grows r t"
  unfolding grows_def by (elim conjE, intro conjI; (erule (1) kept_trans | erule (1) take_length_trans | simp))

lemma docker_step_sound: "docker_step s t \<Longrightarrow> reader_rule s \<Longrightarrow> reader_rule t"
proof (induction rule: docker_step.induct)
  case (previous run p fs)
  then have "previous_ok True (if dr_Previous run = None then validPins fs else dr_Previous run)"
    using validPins_ok by (auto simp: reader_rule_def sound_run_def previous_ok_def split: option.splits)
  then show ?case using previous by (simp add: reader_rule_def sound_run_def)
qed (auto simp: reader_rule_def sound_run_def dest: field_checks)

lemma docker_step_grows: "docker_step s t \<Longrightarrow> reader_rule s \<Longrightarrow> grows (fst s) (fst t)"
  by (induction rule: docker_step.induct) (auto simp: grows_def kept_def reader_rule_def dest: validDaemonVersion_not_Nil)

interpretation docker_growth: growing_reader docker_line reader_rule "\<lambda>s t. grows (fst s) (fst t)"
proof
  show "reader_rule s \<Longrightarrow> reader_rule (docker_line s l)" for s l using docker_step_sound [OF docker_line_step] .
  show "reader_rule s \<Longrightarrow> grows (fst s) (fst (docker_line s l))" for s l using docker_step_grows [OF docker_line_step] .
  show "grows (fst s) (fst s)" for s :: "docker_run \<times> bool" by (simp add: grows_def kept_def)
  show "grows (fst s) (fst t) \<Longrightarrow> grows (fst t) (fst u) \<Longrightarrow> grows (fst s) (fst u)" for s t u :: "docker_run \<times> bool"
    by (rule grows_trans)
qed

lemma no_marker: "docker_line s [] = s"
  by (simp add: docker_line_def trim_cr_def markerOf_def dockerPrefix_def)

lemma split_on_append: "split_on c (a @ c # b) = split_on c a @ split_on c b"
  by (induction a) (auto split: list.split)

lemma queued_run_rule: "queued_run head = Some run \<Longrightarrow> reader_rule (run, False)"
  by (auto simp: queued_run_def reader_rule_def sound_run_def no_run_def previous_ok_def held_ok_def split: list.splits if_splits option.splits)

lemma ParseRun_state:
  obtains "queued_run (hd (split_on CHR 0x0A log)) = None" "ParseRun log = no_run"
  | run where "queued_run (hd (split_on CHR 0x0A log)) = Some run"
      "ParseRun log = fst (foldl docker_line (run, False) (tl (split_on CHR 0x0A log)))"
  by (cases "queued_run (hd (split_on CHR 0x0A log))") (simp_all add: ParseRun_def Let_def)

lemma ParseRun_sound: "ParseRun log = no_run \<or> sound_run (ParseRun log)"
proof (cases rule: ParseRun_state [of log])
  case (2 run)
  then show ?thesis using docker_growth.fold_rule [OF queued_run_rule] by (auto simp: reader_rule_def)
qed simp

primrec phase_rank :: "docker_phase \<Rightarrow> nat" where
  "phase_rank PhasePreparing = 0"
| "phase_rank PhaseDownloading = 1"
| "phase_rank PhaseInstalling = 2"
| "phase_rank PhaseWaitingDocker = 3"
| "phase_rank PhaseWaitingContainers = 4"

definition run_rank :: "docker_run \<Rightarrow> nat" where
  "run_rank r = (case Phase r of None \<Rightarrow> 5 | Some p \<Rightarrow> phase_rank p)"

lemma run_rank_eq:
  "run_rank r =
     (if dr_Nonce r = [] \<or> dr_Terminal r \<noteq> None then 5 else if dr_DaemonVersion r \<noteq> [] then 4
      else if dr_InstalledAt r \<noteq> zero_time then 3 else if dr_DownloadedAt r \<noteq> zero_time then 2
      else if dr_PreviousSeen r then 1 else 0)"
  by (simp add: run_rank_def Phase_def)

lemma grows_rank:
  assumes "grows r r'"
  shows "run_rank r \<le> run_rank r'"
proof -
  have "dr_Terminal r \<noteq> None \<longrightarrow> dr_Terminal r' \<noteq> None" "dr_Nonce r' = dr_Nonce r" "dr_PreviousSeen r \<longrightarrow> dr_PreviousSeen r'"
    "dr_DaemonVersion r \<noteq> [] \<longrightarrow> dr_DaemonVersion r' \<noteq> []"
    using assms unfolding grows_def by simp_all
  moreover have "dr_InstalledAt r \<noteq> zero_time \<longrightarrow> dr_InstalledAt r' \<noteq> zero_time"
    "dr_DownloadedAt r \<noteq> zero_time \<longrightarrow> dr_DownloadedAt r' \<noteq> zero_time"
    using assms unfolding grows_def kept_def by force+
  ultimately show ?thesis unfolding run_rank_eq by (simp split: if_split)
qed


definition example_started :: string where
  "example_started = ''CASAOS_DOCKER_UPDATE_PREVIOUS '' @ example_docker_nonce @ '' docker-ce=5:28.0.4-1''"

lemma example_growth:
  "dr_Nonce (ParseRun (example_head @ CHR 0x0A # example_started @ [CHR 0x0A])) \<noteq> []"
  "run_rank (ParseRun (example_head @ CHR 0x0A # example_started @ [CHR 0x0A])) = 1"
  unfolding example_head_def example_started_def example_docker_nonce_def by code_simp+


subsection \<open>What the core writes is read back\<close>

definition word_ok :: "string \<Rightarrow> bool" where
  "word_ok w \<longleftrightarrow> w \<noteq> [] \<and> list_all (\<lambda>c. \<not> white c) w"

lemma fields_words: "ws \<noteq> [] \<Longrightarrow> list_all word_ok ws \<Longrightarrow> DockerPlan.fields (join_on CHR '' '' ws) = ws"
  by (induction "CHR '' ''" ws rule: join_on.induct) (auto simp: word_ok_def fields_single fields_word)

lemma join_words_last: "ws \<noteq> [] \<Longrightarrow> list_all word_ok ws \<Longrightarrow> join_on CHR '' '' ws \<noteq> [] \<and> \<not> white (last (join_on CHR '' '' ws))"
  by (induction "CHR '' ''" ws rule: join_on.induct) (auto simp: word_ok_def list_all_iff)

lemma marker_words:
  assumes "CHR '' '' \<notin> set kind" "nonceOK nonce" "ws \<noteq> []" "list_all word_ok ws"
  shows "markerOf (trim_cr (dockerPrefix @ kind @ '' '' @ nonce @ '' '' @ join_on CHR '' '' ws)) nonce = Some (kind, ws)"
proof -
  have "join_on CHR '' '' ws \<noteq> []" "last (join_on CHR '' '' ws) \<noteq> CHR 0x0D"
    using join_words_last [OF assms(3,4)] by (auto simp: white_def)
  from markerOf_words [OF assms(1,2) this] show ?thesis using fields_words [OF assms(3,4)] by simp
qed

lemma FormatTime_word:
  assumes "datable t"
  shows "word_ok (FormatTime t)"
proof -
  have "\<not> white c" if "c \<in> set (FormatTime t)" for c
    using FormatTime_free [OF assms, of c] that unfolding white_def by blast
  moreover have "FormatTime t \<noteq> []"
    unfolding FormatTime_def Let_def by (simp split: prod.split)
  ultimately show ?thesis by (simp add: word_ok_def list_all_iff)
qed

lemma fail_word_ok: "word_ok (fail_word r)"
  by (cases r) (simp_all add: word_ok_def white_def)

lemma validPlanVersion_word: "validPlanVersion v \<Longrightarrow> word_ok v"
proof -
  assume v: "validPlanVersion v"
  then have "\<forall>w\<in>set (split_on CHR ''.'' v). list_all (\<lambda>c. is_digit c) w" by (auto simp: validPlanVersion_def list_all_iff)
  then have d: "\<forall>c\<in>set v. is_digit c \<or> c = CHR ''.''"
    using set_join_on [of "CHR ''.''" "split_on CHR ''.'' v"] unfolding join_split_on by (auto simp: list_all_iff)
  have "v \<noteq> []" using v by (auto simp: validPlanVersion_def)
  moreover have "\<not> white c" if "is_digit c \<or> c = CHR ''.''" for c using that by (auto simp: white_def)
  ultimately show ?thesis using d by (simp add: word_ok_def list_all_iff)
qed

lemma planVersion_word: "word_ok (planVersion v)"
  using validPlanVersion_word by (auto simp: planVersion_def word_ok_def white_def)

lemma plan_field_planVersion: "plan_field (planVersion v) = Some (if validPlanVersion v then v else [])"
proof -
  have "\<not> validPlanVersion ''-''" by code_simp
  then show ?thesis by (auto simp: plan_field_def planVersion_def)
qed

lemma newline_free: "word_ok w \<Longrightarrow> CHR 0x0A \<notin> set w"
  by (auto simp: word_ok_def list_all_iff white_def)

lemma queued_run_line:
  assumes "nonceOK nonce" "datable t"
  shows "queued_run (dockerPrefix @ ''QUEUED '' @ nonce @ '' '' @ FormatTime t) =
    Some (no_run\<lparr>dr_Nonce := nonce, dr_QueuedAt := whole_second t\<rparr>)"
proof -
  let ?ws = "[dockerPrefix @ ''QUEUED'', nonce, FormatTime t]"
  have line: "dockerPrefix @ ''QUEUED '' @ nonce @ '' '' @ FormatTime t = join_on CHR '' '' ?ws" by simp
  have "word_ok (FormatTime t)" using FormatTime_word [OF assms(2)] .
  then have "FormatTime t \<noteq> []" "last (FormatTime t) \<noteq> CHR 0x0D" "CHR '' '' \<notin> set (FormatTime t)"
    by (auto simp: word_ok_def list_all_iff white_def)
  then have "trim_cr (join_on CHR '' '' ?ws) = join_on CHR '' '' ?ws" by (intro trim_cr_id) simp
  moreover have "split_on CHR '' '' (join_on CHR '' '' ?ws) = ?ws"
    using nonceOK_free [OF assms(1)] \<open>CHR '' '' \<notin> set (FormatTime t)\<close>
    by (intro split_join_on) (auto simp: dockerPrefix_def)
  ultimately show ?thesis
    unfolding line queued_run_def using assms by (simp add: parse_FormatTime)
qed

text \<open>
  (C39) What the core writes of an update is read back: the first line, the plan behind it (with a version that is not made of digits and dots
  read as not known) and, for a unit that could not be started, the line that says it failed, make a log that is
  read as a run with that nonce, queued at that second, with that plan, failed for that reason at that second, and nothing else.
\<close>

theorem docker_run_written_read:
  assumes "nonceOK nonce" "datable t" "datable t'"
  shows "ParseRun (QueuedMarker nonce t @ PlanMarker nonce from to jump @ FailedMarker nonce t' reason) =
    no_run\<lparr>dr_Nonce := nonce, dr_QueuedAt := whole_second t, dr_CompletedAt := whole_second t', dr_Terminal := Some TerminalFailed,
      dr_FailReason := Some reason, dr_From := (if validPlanVersion from then from else []),
      dr_To := (if validPlanVersion to then to else []), dr_MajorJump := jump\<rparr>"
proof -
  let ?head = "dockerPrefix @ ''QUEUED '' @ nonce @ '' '' @ FormatTime t"
  let ?plan = "dockerPrefix @ ''PLAN'' @ '' '' @ nonce @ '' '' @ join_on CHR '' '' [planVersion from, planVersion to, if jump then ''1'' else ''0'']"
  let ?failed = "dockerPrefix @ ''FAILED'' @ '' '' @ nonce @ '' '' @ join_on CHR '' '' [FormatTime t', fail_word reason]"
  have log: "QueuedMarker nonce t @ PlanMarker nonce from to jump @ FailedMarker nonce t' reason =
      join_on CHR 0x0A [?head, ?plan, ?failed, []]"
    by (simp add: QueuedMarker_def PlanMarker_def FailedMarker_def)
  have "CHR 0x0A \<notin> set nonce" "CHR 0x0A \<notin> set dockerPrefix" using nonceOK_free [OF assms(1)] by (simp_all add: dockerPrefix_def)
  then have lines: "list_all (\<lambda>l. CHR 0x0A \<notin> set l) [?head, ?plan, ?failed, []]"
    using newline_free [OF FormatTime_word] assms newline_free [OF planVersion_word] newline_free [OF fail_word_ok] by simp
  have plan: "markerOf (trim_cr ?plan) nonce = Some (''PLAN'', [planVersion from, planVersion to, if jump then ''1'' else ''0''])"
    by (rule marker_words [OF _ assms(1)]) (simp_all add: planVersion_word, simp add: word_ok_def white_def)
  have failed: "markerOf (trim_cr ?failed) nonce = Some (''FAILED'', [FormatTime t', fail_word reason])"
    by (rule marker_words [OF _ assms(1)]) (simp_all add: FormatTime_word assms fail_word_ok)
  let ?r = "no_run\<lparr>dr_Nonce := nonce, dr_QueuedAt := whole_second t\<rparr>"
  let ?p = "?r\<lparr>dr_From := (if validPlanVersion from then from else []), dr_To := (if validPlanVersion to then to else []), dr_MajorJump := jump\<rparr>"
  have "planFields [planVersion from, planVersion to, if jump then ''1'' else ''0''] =
      Some (if validPlanVersion from then from else [], if validPlanVersion to then to else [], jump)"
    by (simp add: planFields_def plan_field_planVersion)
  then have l2: "docker_line (?r, False) ?plan = (?p, True)"
    unfolding docker_line_def take_docker_def using plan by (simp del: append.simps join_on.simps)
  have l3: "docker_line (?p, True) ?failed =
      (?p\<lparr>dr_Terminal := Some TerminalFailed, dr_FailReason := Some reason, dr_CompletedAt := whole_second t'\<rparr>, True)"
    unfolding docker_line_def take_docker_def using failed parse_FormatTime [OF assms(3)] by (simp del: append.simps join_on.simps)
  show ?thesis
    unfolding log ParseRun_lines [OF lines] queued_run_line [OF assms(1,2)] option.case foldl_Cons foldl_Nil l2 l3 no_marker
    by simp
qed

text \<open>The nonce that is made is one that is read.\<close>

lemma hex_digit_ok: "d < 16 \<Longrightarrow> is_digit (hex_digit d) \<or> CHR ''a'' \<le> hex_digit d \<and> hex_digit d \<le> CHR ''f''"
  by (auto simp: hex_digit_def less_eq_char_def)

lemma NewNonce_ok: "length bytes = 16 \<Longrightarrow> list_all (\<lambda>b. b < 256) bytes \<Longrightarrow> nonceOK (NewNonce bytes)"
proof -
  assume b: "length bytes = 16" "list_all (\<lambda>b. b < 256) bytes"
  have "length (NewNonce bytes) = 2 * length bytes" by (induction bytes) (simp_all add: NewNonce_def)
  moreover have "list_all (\<lambda>c. is_digit c \<or> CHR ''a'' \<le> c \<and> c \<le> CHR ''f'') (NewNonce bytes)"
    using b(2) by (induction bytes) (simp_all add: NewNonce_def hex_digit_ok div_less_iff_less_mult)
  ultimately show ?thesis using b(1) by (simp add: nonceOK_def)
qed

definition example_moment :: instant where
  "example_moment = 63927921600 * second"

lemma example_moment_datable: "datable example_moment"
  unfolding datable_def atLeastAtMost_iff by code_simp

theorem docker_run_written_read_witness:
  "dr_FailReason (ParseRun (QueuedMarker (NewNonce (replicate 16 171)) example_moment @
     PlanMarker (NewNonce (replicate 16 171)) ''28.0.4'' ''29.8.0-rc'' True @
     FailedMarker (NewNonce (replicate 16 171)) example_moment FailStart)) = Some FailStart"
proof -
  have "nonceOK (NewNonce (replicate 16 171))" by (rule NewNonce_ok) (simp_all add: list_all_iff)
  from docker_run_written_read [OF this example_moment_datable example_moment_datable] show ?thesis by simp
qed

subsection \<open>The command that goes back\<close>

abbreviation (input) listed :: "'a list option \<Rightarrow> 'a list" where
  "listed x \<equiv> case x of None \<Rightarrow> [] | Some xs \<Rightarrow> xs"

lemma validPin_form:
  assumes "validPin pin"
  obtains name version where "pin = name @ ''='' @ version" "ValidName name" "IsEngineName name" "ValidVersion version"
proof -
  let ?n = "takeWhile (\<lambda>c. c \<noteq> CHR ''='') pin"
  have "dropWhile (\<lambda>c. c \<noteq> CHR ''='') pin \<noteq> []" using assms by (auto simp: validPin_def Let_def)
  then obtain c r where c: "dropWhile (\<lambda>c. c \<noteq> CHR ''='') pin = c # r" by (meson list.exhaust)
  then have "c = CHR ''=''" using hd_dropWhile [of "\<lambda>c. c \<noteq> CHR ''=''" pin] by force
  then have "pin = ?n @ ''='' @ r" using c takeWhile_dropWhile_id [of "\<lambda>c. c \<noteq> CHR ''=''" pin] by simp
  moreover have "drop (length ?n + 1) pin = r" using c by (metis Suc_eq_plus1 drop_Suc dropWhile_eq_drop list.sel(3) tl_drop)
  ultimately show thesis using that assms unfolding validPin_def Let_def by metis
qed

lemma validPin_safe:
  assumes "validPin pin"
  shows "list_all safe_char pin" "arch_char (hd pin)"
proof -
  obtain name version where p: "pin = name @ ''='' @ version" "ValidName name" "ValidVersion version"
    using assms by (rule validPin_form)
  show "list_all safe_char pin"
    unfolding p(1) using ValidName_safe [OF p(2)] ValidVersion_safe [OF p(3)] by (simp add: safe_char_def)
  show "arch_char (hd pin)"
    unfolding p(1) using ValidName_chars(2,3) [OF p(2)] by simp
qed

lemma holdNames_engine:
  assumes "sorted ns" "distinct ns" "set ns \<subseteq> set EngineNames"
  shows "holdNames ns = ns"
proof -
  have "list_all (\<lambda>n. CHR '':'' \<notin> set n) EngineNames" by (simp add: EngineNames_def)
  then have c: "CHR '':'' \<notin> set n" if "n \<in> set ns" for n using that assms(3) by (auto simp: list_all_iff)
  have "IsFamily n" if "n \<in> set ns" for n
  proof -
    have "name_base n = n" using c [OF that] by (auto simp: name_base_def takeWhile_eq_all_conv)
    then show ?thesis using that assms(3) by (auto simp: IsFamily_def family_def)
  qed
  then have "filter (\<lambda>n. IsFamily n \<and> CHR '':'' \<notin> set n) ns = ns" using c by (simp add: filter_id_conv)
  then show ?thesis using assms(1,2) by (simp add: holdNames_def sortedNames_def distinct_remdups_id sorted_sort_id)
qed

lemma replace_head:
  "replace_first ''--allow-downgrades '' new (rollbackHead @ s) = ''sudo apt-get install '' @ new @ s"
  by (simp add: rollbackHead_def replace_first.simps)

text \<open>
  (C37) Whatever a log holds, what is read of it is no run or a run whose parts are valid (the nonce; the reason, which is there exactly when it
  failed; the packages, which are pins of the engine, once each; the names on hold; the version of the daemon;
  the containers), and the command for going back that is shown is made of its pins and names only: each pin begins with a
  letter or a digit and has no character that a shell reads, each name is the engine's.
\<close>

theorem docker_run_is_sound:
  "(ParseRun log = no_run \<or> sound_run (ParseRun log)) \<and>
   list_all (\<lambda>pin. list_all safe_char pin \<and> arch_char (hd pin)) (listed (dr_Previous (ParseRun log))) \<and>
   set (listed (dr_Held (ParseRun log))) \<subseteq> set EngineNames \<and>
   RollbackCommandHeld (listed (dr_Previous (ParseRun log))) (listed (dr_Held (ParseRun log))) =
     (if dr_Previous (ParseRun log) = None then []
      else if listed (dr_Held (ParseRun log)) = []
      then ''sudo apt-get install --allow-downgrades '' @ join_on CHR '' '' (listed (dr_Previous (ParseRun log)))
      else ''sudo apt-get install --allow-downgrades --allow-change-held-packages '' @
           join_on CHR '' '' (listed (dr_Previous (ParseRun log))) @
           '' ; sudo apt-mark hold '' @ join_on CHR '' '' (listed (dr_Held (ParseRun log))))"
proof -
  define pins where "pins = listed (dr_Previous (ParseRun log))"
  define held where "held = listed (dr_Held (ParseRun log))"
  have s: "ParseRun log = no_run \<or> sound_run (ParseRun log)" by (rule ParseRun_sound)
  then have p: "list_all validPin pins" "pins = [] \<longleftrightarrow> dr_Previous (ParseRun log) = None"
    by (auto simp: pins_def sound_run_def previous_ok_def no_run_def split: option.splits)
  have h: "sorted held" "distinct held" "set held \<subseteq> set EngineNames"
    using s by (auto simp: held_def sound_run_def held_ok_def no_run_def split: option.splits)
  have "filter validPin pins = pins" using p(1) by (simp add: filter_id_conv list_all_iff)
  then have "RollbackCommand pins = (if pins = [] then [] else rollbackHead @ join_on CHR '' '' pins)"
    by (simp add: RollbackCommand_def)
  then have "RollbackCommandHeld pins held =
     (if pins = [] then [] else if held = [] then rollbackHead @ join_on CHR '' '' pins
      else (''sudo apt-get install '' @ (''--allow-downgrades '' @ allowHeldFlag @ '' '') @ join_on CHR '' '' pins) @
           '' ; sudo apt-mark hold '' @ join_on CHR '' '' held)"
    using replace_head [of "''--allow-downgrades '' @ allowHeldFlag @ '' ''" "join_on CHR '' '' pins"] holdNames_engine [OF h]
    by (simp add: RollbackCommandHeld_def Let_def rollbackHead_def del: append.simps)
  moreover have "list_all (\<lambda>pin. list_all safe_char pin \<and> arch_char (hd pin)) pins"
    using p(1) validPin_safe by (auto simp: list_all_iff)
  ultimately show ?thesis
    using s h(3) p(2) by (simp add: pins_def [symmetric] held_def [symmetric] rollbackHead_def allowHeldFlag_def)
qed

end
