(* ===== verification/Spec2Isabelle.thy ===== *)
theory Spec2Isabelle
  imports UpgradeAbortFacts UpgradeVerdict OsverifyTakeFacts AutoupdateRun ModuleWriter DockerRunFacts
begin

text \<open>
  A verification development for the core of ReCasaOS, the service behind a home server's dashboard.

  \<^bold>\<open>The program.\<close> The service keeps a box running and up to date. Its most delicate part is the upgrade of the operating system. A unit of its own runs a shell driver that appends
  marker lines to a log and leaves files; the core reads the log, the files, what systemd says and the boot, works out the state of the run with a pure reducer (\<open>src/pkg/osrun\<close>), and
  does the one thing that is due or offers the owner the buttons that are valid (\<open>src/service/system_os_upgrade_*.go\<close>). After the restart a judge compares the machine with what it was
  (\<open>src/pkg/osverify\<close>). The core also updates itself at night (\<open>src/pkg/autoupdate\<close>), runs the jobs of modules (\<open>src/pkg/modulecmd\<close>) and the updates of Docker
  (\<open>src/pkg/dockerpkg\<close>), each with a log that a unit writes and the core reads.

  \<^bold>\<open>The theories\<close>, by component, and what their lemmas show.

  \<^item> \<open>Prelude\<close>, \<open>Calendar\<close>, \<open>LineText\<close>, \<open>LineReader\<close>, \<open>GoText\<close>: instants and durations with Go's saturation, words of closed vocabularies, lists and strings, the civil calendar behind
    \<open>FormatTime\<close> and \<open>parseTime\<close>, the lines that may be shown (\<open>src/pkg/osplan/parse.go\<close>), a locale for the readers of logs that are fed line by line, and Go's texts: UTF-8, \<open>strings\<close>, \<open>strconv.Atoi\<close>, \<open>path.Match\<close>.
  \<^item> \<open>OsrunVocab\<close> (\<open>vocab.go\<close>, \<open>timing.go\<close>), \<open>OsrunMarker\<close> (\<open>marker.go\<close>), \<open>OsrunReduce\<close> (\<open>reduce.go\<close>), \<open>OsrunAction\<close> (\<open>action.go\<close>): the vocabularies, the line of a marker with its writer and
    its reader, the reducer, the next action and the buttons. \<open>OsrunReduceFacts\<close>, \<open>OsrunView\<close>, \<open>OsrunSeal\<close>, \<open>OsrunSafety\<close>, \<open>OsrunButtons\<close>: lines round trip; a decided run stays decided; a hop
    past its point of no return holds the machine; a success was checked; what the core launches and what the owner is offered is safe.
  \<^item> \<open>UpgradeAbort\<close>, \<open>UpgradeAbortFacts\<close> (\<open>driver.go\<close>, \<open>system_os_upgrade_abort.go\<close>): the driver of a first attempt and the call that stops it, as one step relation in which they interleave. By rule induction over the reachable
    states: a run is called off only before the point of no return.
  \<^item> \<open>UpgradeService\<close>, \<open>UpgradeServiceFacts\<close> (\<open>read\<close>, \<open>actions\<close>, \<open>dir\<close>, \<open>launch\<close>, \<open>begin\<close>, \<open>ack\<close> and parts of \<open>settle\<close> and \<open>alerts\<close>): what the core does to a run under its lock. The state is the record \<open>machine\<close>: the
    pointer, the folders of the runs, the flag. Shown: the owner's word, no second launch, the flag.
  \<^item> \<open>UpgradeLook\<close>, \<open>UpgradeLookFacts\<close>, \<open>UpgradeVerdict\<close> (\<open>settle\<close>, \<open>barrier\<close>, \<open>judge\<close>, \<open>reboot\<close>, \<open>resume\<close>): one whole look of the core, the restart and the going on. Every operation is an instance of the locale \<open>service_op\<close>, from
    which it follows for every history that logs only grow; the restart is asked for only where it may; a closed run is forgotten; a verdict without errors is earned.
  \<^item> \<open>Osverify\<close>, \<open>OsverifyFacts\<close> (\<open>judge.go\<close>, \<open>bk.go\<close>): the judge. Each of its nineteen checks is an instance of the locale \<open>judge_check\<close>: it adds only findings of its own codes. Shown: when a verdict has no error and
    when it has no warning, exactly; what is listed is in order, bounded and harmless.
  \<^item> \<open>OsverifyTake\<close>, \<open>OsverifyTakeFacts\<close> (\<open>facts.go\<close>, \<open>src/pkg/osreadiness/allowlist.go\<close>): how the facts are taken. Each of the twelve questions is an instance of the locale \<open>taker_step\<close>: it speaks of its own facts, and leaves
    each unknown or valid. Shown: what is known is valid, what could not be asked is unknown, only allowed commands are run and a tool that hung is not asked again.
  \<^item> \<open>Version\<close> (\<open>src/pkg/osmodule/plan_update.go\<close>, \<open>src/pkg/utils/version\<close>), \<open>Autoupdate\<close>, \<open>AutoupdateWindow\<close>, \<open>AutoupdateRun\<close>: the order of versions is that of their keys; the window and its first free time; an
    update starts only when it may, at most once a night, and the file of the owner's choice is always valid.
  \<^item> \<open>ModuleJob\<close>, \<open>ModuleRun\<close>, \<open>ModuleLog\<close>, \<open>ModuleWriter\<close>, \<open>ModuleJobFacts\<close>, \<open>ModuleReading\<close>: the log of a job of a module, its writers and its reader: the reader refines a reading of the whole list of markers, hears exactly what the
    run said whatever tools print between, and nothing after a result changes it.
  \<^item> \<open>DockerPlan\<close>, \<open>DockerPlanFacts\<close>, \<open>DockerRun\<close>, \<open>DockerRunFacts\<close>: the plan of an update of Docker, what of it is refused, the arguments that are made of it, its identity; the log of an update, its writers and its reader.

  \<^bold>\<open>State, errors and time.\<close> Structs are records, closed lists of words are datatypes with their words, a refusal or an error is a value. What a call does to the disk is the record it gives back; a write that fails, what
  systemd, the disk or Docker answer, and what time it is are arguments (\<open>surroundings\<close>, \<open>sight\<close>, \<open>probe\<close>), so that the theorems hold for every answer. Maps of Go are association lists or functions; where the order in which a map is gone through
  can be seen, it is a parameter (\<open>pb_Order\<close>, which has to be a permutation).

  \<^bold>\<open>Bounds and fuel.\<close> No model has fuel. The one loop whose end is not plain, \<open>earliest_from\<close>, is a partial function, and \<open>earliest_returns\<close> shows that it returns. The bounds of the code (\<open>markersMax\<close>, \<open>logScanBytes\<close>,
  \<open>maxLines\<close>, \<open>maxPerCode\<close>, \<open>maxMounts\<close> and the others) are definitions with the code's values. Durations saturate as Go's do; counts are unbounded integers, which the code's cannot reach.

  \<^bold>\<open>Parameters.\<close> The hash of the identity of a plan, the decoding of one line of JSON that Docker prints, the resolver, the answers of the machine, the location of the clock.

  \<^bold>\<open>Not modelled.\<close> The start of a run and the JSON of its status; the alerts and the removal of old folders; the shell of the blocks, their runbook and the report before an upgrade (\<open>osplan\<close>, \<open>osreadiness\<close> but for its
  allow-list), whose logic is in commands; the catalogue, the manifests and the downloads of modules; the HTTP handlers, the fleet, the files and the trash, the shares, the statistics of the host, the cloud drivers and the
  database, which are input and output around libraries. In some of the readers of logs (\<open>LineText\<close>, \<open>ModuleJob\<close>, \<open>DockerRun\<close>) blanks are those of ASCII; the lines that the core writes have no others.
\<close>

text \<open>
  Across the theories: a look that had no time to ask the machine writes no verdict, and leaves everything as it was.
\<close>

theorem no_time_no_verdict:
  assumes "si_FactsNow g = TakeWith p" "\<forall>n. pb_Over p n"
  shows "osUpgradeJudge w g m r t = (m, JudgeNotMade)"
  using unasked_unknown [OF assms(2), of FactSystem] assms(1) by (simp add: osUpgradeJudge_def Knows_def)

end
